(* ===== verification/Go_Prelude.thy ===== *)
theory Go_Prelude
  imports Complex_Main "HOL-Library.Sublist"
begin

text \<open>
  Shared vocabulary of the development: the part of Go's \<open>strings\<close> package that the
  payment service calls, on strings as byte lists (a Go string is a sequence of bytes, and
  \<open>len\<close> counts bytes), with the lemmas every component uses about trimming and
  case mapping.  \<open>strings.TrimSpace\<close> is modelled with the full Unicode white space set in
  its UTF-8 encoding; the case maps are exact on ASCII strings and take the Unicode tables
  (used by Go only when a byte \<open>\<ge> 0x80\<close> occurs) as a parameter.
\<close>

named_theorems go_defs \<open>definitions of small helpers that proofs unfold together\<close>

section \<open>Bytes and ASCII\<close>

definition byte :: "char \<Rightarrow> nat" where
  "byte c = of_char c"

definition is_ascii :: "string \<Rightarrow> bool" where
  "is_ascii s \<longleftrightarrow> list_all (\<lambda>c. byte c < 128) s"

definition ascii_lower :: "char \<Rightarrow> char" where
  "ascii_lower c = (if 65 \<le> byte c \<and> byte c \<le> 90 then char_of (byte c + 32) else c)"

definition ascii_upper :: "char \<Rightarrow> char" where
  "ascii_upper c = (if 97 \<le> byte c \<and> byte c \<le> 122 then char_of (byte c - 32) else c)"

lemma byte_char_of: "n < 256 \<Longrightarrow> byte (char_of n) = n"
  by (simp add: byte_def)

lemma char_of_byte [simp]: "char_of (byte c) = c"
  by (simp add: byte_def)

lemma byte_less [simp]: "byte c < 256"
  unfolding byte_def by (metis char_of_nat nat_of_char_less_256)

lemma ascii_lower_idem [simp]: "ascii_lower (ascii_lower c) = ascii_lower c"
  by (auto simp: ascii_lower_def byte_char_of)

lemma ascii_upper_idem [simp]: "ascii_upper (ascii_upper c) = ascii_upper c"
  by (auto simp: ascii_upper_def byte_char_of)

text \<open>\<open>strings.ToLower\<close> and \<open>strings.ToUpper\<close>: the ASCII fast path of the library, and the
  table-driven path as the parameter \<open>u\<close>.\<close>

definition ToLower :: "(string \<Rightarrow> string) \<Rightarrow> string \<Rightarrow> string" where
  "ToLower u s = (if is_ascii s then map ascii_lower s else u s)"

definition ToUpper :: "(string \<Rightarrow> string) \<Rightarrow> string \<Rightarrow> string" where
  "ToUpper u s = (if is_ascii s then map ascii_upper s else u s)"

lemma is_ascii_map_lower [simp]: "is_ascii s \<Longrightarrow> is_ascii (map ascii_lower s)"
  by (auto simp: is_ascii_def list_all_iff ascii_lower_def byte_char_of)

lemma is_ascii_map_upper [simp]: "is_ascii s \<Longrightarrow> is_ascii (map ascii_upper s)"
  by (auto simp: is_ascii_def list_all_iff ascii_upper_def byte_char_of)

lemma ToLower_idem: "is_ascii s \<Longrightarrow> ToLower u (ToLower u s) = ToLower u s"
  by (simp add: ToLower_def)

lemma ToUpper_idem: "is_ascii s \<Longrightarrow> ToUpper u (ToUpper u s) = ToUpper u s"
  by (simp add: ToUpper_def)

section \<open>Searching\<close>

text \<open>\<open>strings.HasPrefix\<close>, \<open>strings.Contains\<close> and \<open>strings.Index\<close> of a single byte.\<close>

definition HasPrefix :: "string \<Rightarrow> string \<Rightarrow> bool" where
  "HasPrefix s p = prefix p s"

fun Contains :: "string \<Rightarrow> string \<Rightarrow> bool" where
  "Contains [] p = (p = [])"
| "Contains (c # s) p = (prefix p (c # s) \<or> Contains s p)"

definition IndexByte :: "string \<Rightarrow> char \<Rightarrow> nat" where
  "IndexByte s c = length (takeWhile (\<lambda>x. x \<noteq> c) s)"

lemma Contains_iff_sublist: "Contains s p \<longleftrightarrow> sublist p s"
proof (induction s)
  case Nil
  then show ?case by simp
next
  case (Cons c s)
  then show ?case by (simp add: sublist_Cons_right)
qed

lemma Contains_append: "Contains (a @ p @ b) p"
  by (simp add: Contains_iff_sublist)

section \<open>White space\<close>

text \<open>The UTF-8 encodings of the code points that \<open>unicode.IsSpace\<close> accepts.\<close>

definition bytes_string :: "nat list \<Rightarrow> string" where
  "bytes_string ns = map char_of ns"

definition go_spaces :: "string list" where
  "go_spaces = map bytes_string
     ([[9], [10], [11], [12], [13], [32],
       [194, 133], [194, 160], [225, 154, 128]] @
      map (\<lambda>b. [226, 128, b]) [128 ..< 139] @
      [[226, 128, 168], [226, 128, 169], [226, 128, 175], [226, 129, 159], [227, 128, 128]])"

text \<open>Drops leading words of a set of non-empty words; the loop of \<open>TrimLeftFunc\<close>.\<close>

function strip_words :: "string list \<Rightarrow> string \<Rightarrow> string" where
  "strip_words ws s =
     (case find (\<lambda>w. w \<noteq> [] \<and> prefix w s) ws of
        None \<Rightarrow> s
      | Some w \<Rightarrow> strip_words ws (drop (length w) s))"
  by pat_completeness auto
termination
proof (relation "measure (\<lambda>(ws, s). length s)")
  fix ws s w
  assume "find (\<lambda>w. w \<noteq> [] \<and> prefix w s) ws = Some w"
  then have "w \<noteq> []" and "prefix w s" by (auto simp: find_Some_iff)
  then show "((ws, drop (length w) s), (ws, s)) \<in> measure (\<lambda>(ws, s). length s)"
    by (cases w; cases s) auto
qed simp

declare strip_words.simps [simp del]

definition TrimLeftSpace :: "string \<Rightarrow> string" where
  "TrimLeftSpace s = strip_words go_spaces s"

definition TrimRightSpace :: "string \<Rightarrow> string" where
  "TrimRightSpace s = rev (strip_words (map rev go_spaces) (rev s))"

definition TrimSpace :: "string \<Rightarrow> string" where
  "TrimSpace s = TrimRightSpace (TrimLeftSpace s)"

abbreviation blank :: "string \<Rightarrow> bool" where
  "blank s \<equiv> TrimSpace s = []"

definition no_word_prefix :: "string list \<Rightarrow> string \<Rightarrow> bool" where
  "no_word_prefix ws s \<longleftrightarrow> (\<forall>w\<in>set ws. w \<noteq> [] \<longrightarrow> \<not> prefix w s)"

lemma strip_words_no_prefix: "no_word_prefix ws (strip_words ws s)"
proof (induction ws s rule: strip_words.induct)
  case (1 ws s)
  show ?case
  proof (cases "find (\<lambda>w. w \<noteq> [] \<and> prefix w s) ws")
    case None
    then have "strip_words ws s = s" by (subst strip_words.simps) simp
    with None show ?thesis by (auto simp: no_word_prefix_def find_None_iff)
  next
    case (Some w)
    with 1 show ?thesis by (subst strip_words.simps) simp
  qed
qed

lemma strip_words_id: "no_word_prefix ws s \<Longrightarrow> strip_words ws s = s"
proof -
  assume "no_word_prefix ws s"
  then have "find (\<lambda>w. w \<noteq> [] \<and> prefix w s) ws = None"
    by (auto simp: no_word_prefix_def find_None_iff)
  then show ?thesis by (subst strip_words.simps) simp
qed

lemma strip_words_suffix: "suffix (strip_words ws s) s"
proof (induction ws s rule: strip_words.induct)
  case (1 ws s)
  show ?case
  proof (cases "find (\<lambda>w. w \<noteq> [] \<and> prefix w s) ws")
    case None
    then show ?thesis by (subst strip_words.simps) simp
  next
    case (Some w)
    with 1 have "suffix (strip_words ws (drop (length w) s)) (drop (length w) s)" by blast
    then have "suffix (strip_words ws (drop (length w) s)) s"
      by (meson suffix_drop suffix_order.order_trans)
    with Some show ?thesis by (subst strip_words.simps) simp
  qed
qed

lemma TrimRightSpace_prefix: "prefix (TrimRightSpace s) s"
  using strip_words_suffix [of "map rev go_spaces" "rev s"]
  by (simp add: TrimRightSpace_def suffix_to_prefix)

lemma no_word_prefix_mono: "no_word_prefix ws s \<Longrightarrow> prefix t s \<Longrightarrow> no_word_prefix ws t"
  unfolding no_word_prefix_def by (meson prefix_order.order_trans)

lemma TrimSpace_idem [simp]: "TrimSpace (TrimSpace s) = TrimSpace s"
proof -
  have left: "no_word_prefix go_spaces (TrimSpace s)"
    unfolding TrimSpace_def
    by (rule no_word_prefix_mono [OF _ TrimRightSpace_prefix])
      (simp add: TrimLeftSpace_def strip_words_no_prefix)
  have right: "no_word_prefix (map rev go_spaces) (rev (TrimSpace s))"
    by (simp add: TrimSpace_def TrimRightSpace_def strip_words_no_prefix)
  show ?thesis
    by (simp add: TrimSpace_def [of "TrimSpace s"] TrimLeftSpace_def TrimRightSpace_def
        strip_words_id [OF left] strip_words_id [OF right])
qed

lemma TrimSpace_Nil [simp]: "TrimSpace [] = []"
  using TrimRightSpace_prefix [of "[]"] strip_words_suffix [of go_spaces "[]"]
  by (simp add: TrimSpace_def TrimLeftSpace_def)

text \<open>A string that starts and ends with a printable ASCII byte is its own trim.\<close>

definition graphic :: "char \<Rightarrow> bool" where
  "graphic c \<longleftrightarrow> 33 \<le> byte c \<and> byte c < 128"

lemma go_spaces_not_graphic:
  "w \<in> set go_spaces \<Longrightarrow> w \<noteq> [] \<and> \<not> graphic (hd w) \<and> \<not> graphic (last w)"
  by (auto simp: go_spaces_def bytes_string_def graphic_def byte_char_of)

lemma prefix_hd: "prefix w s \<Longrightarrow> w \<noteq> [] \<Longrightarrow> hd w = hd s"
  by (cases w; cases s) auto

lemma TrimSpace_graphic: "graphic (hd s) \<Longrightarrow> graphic (last s) \<Longrightarrow> TrimSpace s = s"
proof -
  assume hd: "graphic (hd s)" and last: "graphic (last s)"
  have "no_word_prefix go_spaces s"
    using hd go_spaces_not_graphic prefix_hd unfolding no_word_prefix_def by metis
  moreover have "no_word_prefix (map rev go_spaces) (rev s)"
    unfolding no_word_prefix_def
  proof (intro ballI impI notI)
    fix w assume "w \<in> set (map rev go_spaces)" and ne: "w \<noteq> []" and pre: "prefix w (rev s)"
    then obtain v where v: "v \<in> set go_spaces" "w = rev v" by auto
    have "hd w = hd (rev s)" using pre ne by (rule prefix_hd)
    then have "last v = last s" by (simp add: v(2) hd_rev)
    with last go_spaces_not_graphic [OF v(1)] show False by simp
  qed
  ultimately show ?thesis
    by (simp add: TrimSpace_def TrimLeftSpace_def TrimRightSpace_def strip_words_id)
qed

section \<open>Small facts on lists and options\<close>

lemma find_SomeD: "find P xs = Some x \<Longrightarrow> x \<in> set xs \<and> P x"
  by (auto simp: find_Some_iff)

lemma find_NoneD: "find P xs = None \<Longrightarrow> x \<in> set xs \<Longrightarrow> \<not> P x"
  by (auto simp: find_None_iff)

end
