(* ===== verification/Api_Errors.thy ===== *)
theory Api_Errors
  imports Go_Prelude
begin

text \<open>
  \<open>go/internal/payment/errors.go\<close>: Go error values as a datatype (the sentinels of the
  package, \<open>pgx.ErrNoRows\<close>, a PostgreSQL error, a plain text error and \<open>fmt.Errorf\<close>
  with \<open>%w\<close>), the chain walks \<open>errors.Is\<close> and \<open>errors.As\<close>, and the translation of a
  service error into the HTTP error of the API.
\<close>

section \<open>Error values\<close>

text \<open>\<open>PgError c m\<close> is a \<open>*pgconn.PgError\<close> with SQLSTATE \<open>c\<close> and text \<open>m\<close>;
  \<open>ErrText\<close> an error with a text and nothing to unwrap (\<open>errors.New\<close>, or an error of a
  library); \<open>ErrWrap a e b\<close> what \<open>fmt.Errorf\<close> makes of the format \<open>a %w b\<close>.\<close>

datatype go_error =
    ErrNoRows
  | ErrPaymentNotFound
  | ErrRefundNotFound
  | ErrRefundNotAllowed
  | ErrRefundExceedsRemaining
  | PgError string string
  | ErrText string
  | ErrWrap string go_error string

fun err_text :: "go_error \<Rightarrow> string" where
  "err_text ErrNoRows = ''no rows in result set''"
| "err_text ErrPaymentNotFound = ''payment not found''"
| "err_text ErrRefundNotFound = ''refund not found''"
| "err_text ErrRefundNotAllowed = ''refund not allowed''"
| "err_text ErrRefundExceedsRemaining =
     ''refund amount exceeds remaining refundable amount''"
| "err_text (PgError c m) = m"
| "err_text (ErrText m) = m"
| "err_text (ErrWrap a e b) = a @ err_text e @ b"

text \<open>\<open>errors.Is\<close> along the unwrap chain, for the comparable sentinels.\<close>

fun errors_Is :: "go_error \<Rightarrow> go_error \<Rightarrow> bool" where
  "errors_Is (ErrWrap a e b) t = (ErrWrap a e b = t \<or> errors_Is e t)"
| "errors_Is e t = (e = t)"

text \<open>\<open>errors.As\<close> with a target of type \<open>*pgconn.PgError\<close>: the SQLSTATE found, if any.\<close>

fun errors_As_pg :: "go_error \<Rightarrow> string option" where
  "errors_As_pg (PgError c m) = Some c"
| "errors_As_pg (ErrWrap a e b) = errors_As_pg e"
| "errors_As_pg _ = None"

definition isUniqueViolation :: "go_error \<Rightarrow> bool" where
  "isUniqueViolation err =
     (case errors_As_pg err of Some code \<Rightarrow> code = ''23505'' | None \<Rightarrow> False)"

text \<open>The innermost error of a chain, which decides \<open>errors.Is\<close> against a sentinel.\<close>

fun root_cause :: "go_error \<Rightarrow> go_error" where
  "root_cause (ErrWrap a e b) = root_cause e"
| "root_cause e = e"

definition is_sentinel :: "go_error \<Rightarrow> bool" where
  "is_sentinel e \<longleftrightarrow>
     e \<in> {ErrNoRows, ErrPaymentNotFound, ErrRefundNotFound, ErrRefundNotAllowed,
          ErrRefundExceedsRemaining}"

lemma errors_Is_sentinel:
  "is_sentinel t \<Longrightarrow> errors_Is e t \<longleftrightarrow> root_cause e = t"
  by (induction e) (auto simp: is_sentinel_def)

lemma sentinels [simp]:
  "is_sentinel ErrNoRows" "is_sentinel ErrPaymentNotFound" "is_sentinel ErrRefundNotFound"
  "is_sentinel ErrRefundNotAllowed" "is_sentinel ErrRefundExceedsRemaining"
  by (simp_all add: is_sentinel_def)

lemma isUniqueViolation_root: "isUniqueViolation (ErrWrap a e b) = isUniqueViolation e"
  by (simp add: isUniqueViolation_def)

lemma err_text_root: "Contains (err_text (root_cause e)) p \<Longrightarrow> Contains (err_text e) p"
proof (induction e)
  case (ErrWrap a e b)
  then have "sublist p (err_text e)" by (simp add: Contains_iff_sublist)
  then have "sublist p (a @ err_text e @ b)"
    by (meson sublist_appendI sublist_order.order_trans)
  then show ?case by (simp add: Contains_iff_sublist)
qed simp_all

section \<open>API errors\<close>

record api_error =
  ae_Status :: int
  ae_Code :: string
  ae_Message :: string
  ae_cause :: "go_error option"

definition api_Error :: "api_error \<Rightarrow> string" where
  "api_Error e = ae_Code e @ '': '' @ ae_Message e"

definition BadRequest :: "string \<Rightarrow> string \<Rightarrow> api_error" where
  "BadRequest code message =
     \<lparr>ae_Status = 400, ae_Code = code, ae_Message = message, ae_cause = None\<rparr>"

definition NotFound :: "string \<Rightarrow> string \<Rightarrow> api_error" where
  "NotFound code message =
     \<lparr>ae_Status = 404, ae_Code = code, ae_Message = message, ae_cause = None\<rparr>"

definition Conflict :: "string \<Rightarrow> string \<Rightarrow> api_error" where
  "Conflict code message =
     \<lparr>ae_Status = 409, ae_Code = code, ae_Message = message, ae_cause = None\<rparr>"

definition APIErrorFromErr :: "go_error option \<Rightarrow> api_error option" where
  "APIErrorFromErr err0 =
     (case err0 of
        None \<Rightarrow> None
      | Some err \<Rightarrow> Some
         (if errors_Is err ErrPaymentNotFound then NotFound ''PAYMENT_NOT_FOUND'' (err_text err)
          else if errors_Is err ErrRefundNotFound then NotFound ''REFUND_NOT_FOUND'' (err_text err)
          else if errors_Is err ErrRefundNotAllowed
            then BadRequest ''REFUND_NOT_ALLOWED'' (err_text err)
          else if errors_Is err ErrRefundExceedsRemaining
            then BadRequest ''REFUND_AMOUNT_TOO_LARGE'' (err_text err)
          else if Contains (err_text err) ''unknown gateway''
            then BadRequest ''GATEWAY_UNKNOWN'' (err_text err)
          else if Contains (err_text err) ''gateway is not enabled''
            then BadRequest ''GATEWAY_NOT_ENABLED'' (err_text err)
          else \<lparr>ae_Status = 500, ae_Code = ''INTERNAL_SERVER_ERROR'',
                 ae_Message = ''An internal error occurred'', ae_cause = Some err\<rparr>))"

lemmas api_error_defs [go_defs] = BadRequest_def NotFound_def Conflict_def

lemma APIErrorFromErr_Some: "\<exists>a. APIErrorFromErr (Some e) = Some a"
  by (simp add: APIErrorFromErr_def)

text \<open>Only the answers of the four sentinels and of the router have a client error status, and
  a client error never carries a cause: database errors are logged, not shown.\<close>

lemma APIErrorFromErr_status:
  "APIErrorFromErr (Some e) = Some a \<Longrightarrow>
     ae_Status a \<in> {400, 404, 500} \<and> (ae_Status a = 500 \<longleftrightarrow> ae_cause a \<noteq> None)"
  by (auto simp: APIErrorFromErr_def api_error_defs split: if_splits)

section \<open>The answer to an error\<close>

text \<open>
  C28.  The HTTP error of a service error, whatever it has been wrapped in: 404 and 400 for the
  four sentinels, 400 for a text of the router, 500 for everything else; only a 500 hides the
  text of the error, and only it keeps the error as the cause that is logged.
\<close>

theorem api_error_of_any_error:
  "\<exists>a. APIErrorFromErr (Some e) = Some a \<and>
     ae_Status a =
       (case root_cause e of
          ErrPaymentNotFound \<Rightarrow> 404 | ErrRefundNotFound \<Rightarrow> 404
        | ErrRefundNotAllowed \<Rightarrow> 400 | ErrRefundExceedsRemaining \<Rightarrow> 400
        | _ \<Rightarrow> if Contains (err_text e) ''unknown gateway'' \<or>
               Contains (err_text e) ''gateway is not enabled'' then 400 else 500) \<and>
     ae_Message a = (if ae_Status a = 500 then ''An internal error occurred'' else err_text e) \<and>
     ae_cause a = (if ae_Status a = 500 then Some e else None)"
  by (cases "root_cause e")
    (simp_all add: APIErrorFromErr_def errors_Is_sentinel api_error_defs)

end
