(* ===== verification/Decimal_Text.thy ===== *)
theory Decimal_Text
  imports Go_Prelude
begin

text \<open>
  Decimal numerals as text: the digits of a natural number, a signed number, a fixed point
  number with \<open>k\<close> decimals, and the value a plain decimal numeral denotes.  The numerals are
  what \<open>strconv\<close>, \<open>shopspring/decimal\<close> and the \<open>numeric\<close> type of PostgreSQL exchange, so the
  denotation \<open>decimal_text\<close> is the common meaning the interfaces of the development refer to.
\<close>

section \<open>Digits\<close>

definition digit :: "nat \<Rightarrow> char" where
  "digit n = char_of (48 + n)"

definition is_digit :: "char \<Rightarrow> bool" where
  "is_digit c \<longleftrightarrow> 48 \<le> byte c \<and> byte c \<le> 57"

definition digit_value :: "char \<Rightarrow> nat" where
  "digit_value c = byte c - 48"

fun nat_of_digits :: "nat \<Rightarrow> string \<Rightarrow> nat" where
  "nat_of_digits a [] = a"
| "nat_of_digits a (c # cs) = nat_of_digits (10 * a + digit_value c) cs"

fun nat_text :: "nat \<Rightarrow> string" where
  "nat_text n = (if n < 10 then [digit n] else nat_text (n div 10) @ [digit (n mod 10)])"

declare nat_text.simps [simp del]

fun digits_fixed :: "nat \<Rightarrow> nat \<Rightarrow> string" where
  "digits_fixed 0 n = []"
| "digits_fixed (Suc k) n = digits_fixed k (n div 10) @ [digit (n mod 10)]"

lemma byte_digit: "n < 10 \<Longrightarrow> byte (digit n) = 48 + n"
  by (simp add: digit_def byte_char_of)

lemma digit_value_digit [simp]: "n < 10 \<Longrightarrow> digit_value (digit n) = n"
  by (simp add: digit_value_def byte_digit)

lemma is_digit_digit [simp]: "n < 10 \<Longrightarrow> is_digit (digit n)"
  by (simp add: is_digit_def byte_digit)

lemma nat_of_digits_append:
  "nat_of_digits a (s @ t) = nat_of_digits (nat_of_digits a s) t"
  by (induction s arbitrary: a) simp_all

lemma nat_of_digits_nat_text [simp]: "nat_of_digits 0 (nat_text n) = n"
proof (induction n rule: nat_text.induct)
  case (1 n)
  then show ?case
    by (cases "n < 10") (simp_all add: nat_text.simps [of n] nat_of_digits_append)
qed

lemma digits_nat_text [simp]: "list_all is_digit (nat_text n)"
proof (induction n rule: nat_text.induct)
  case (1 n)
  then show ?case by (cases "n < 10") (simp_all add: nat_text.simps [of n])
qed

lemma nat_text_not_Nil [simp]: "nat_text n \<noteq> []"
  by (subst nat_text.simps) simp

lemma digits_digits_fixed [simp]: "list_all is_digit (digits_fixed k n)"
  by (induction k arbitrary: n) simp_all

lemma length_digits_fixed [simp]: "length (digits_fixed k n) = k"
  by (induction k arbitrary: n) simp_all

lemma nat_of_digits_fixed: "nat_of_digits a (digits_fixed k n) = a * 10 ^ k + n mod 10 ^ k"
proof (induction k arbitrary: n)
  case 0
  then show ?case by simp
next
  case (Suc k)
  have "n mod (10 * 10 ^ k) = 10 * (n div 10 mod 10 ^ k) + n mod 10"
    by (simp add: mod_mult2_eq)
  with Suc show ?case by (simp add: nat_of_digits_append algebra_simps)
qed

lemma dot_minus_not_digit [simp]:
  "\<not> is_digit (CHR ''.'')" "\<not> is_digit (CHR ''-'')" "\<not> is_digit (CHR ''+'')"
  by (simp_all add: is_digit_def byte_def)

section \<open>Signed and fixed point numerals\<close>

text \<open>The verb \<open>%d\<close> of \<open>fmt\<close> on an integer.\<close>

definition int_text :: "int \<Rightarrow> string" where
  "int_text n = (if n < 0 then ''-'' else []) @ nat_text (nat \<bar>n\<bar>)"

text \<open>\<open>fixed_text n k\<close> writes \<open>n / 10 ^ k\<close> with exactly \<open>k\<close> decimals.\<close>

definition fixed_text :: "int \<Rightarrow> nat \<Rightarrow> string" where
  "fixed_text n k =
     (if n < 0 then ''-'' else []) @ nat_text (nat \<bar>n\<bar> div 10 ^ k) @
     (if k = 0 then [] else CHR ''.'' # digits_fixed k (nat \<bar>n\<bar>))"

text \<open>A plain numeral: optional minus sign, digits, optional point and digits.  The result is
  the scaled integer and the number of decimals.\<close>

definition split_numeral :: "string \<Rightarrow> (int \<times> nat) option" where
  "split_numeral s =
     (let neg = (s \<noteq> [] \<and> hd s = CHR ''-'');
          body = (if neg then tl s else s);
          ip = takeWhile (\<lambda>c. c \<noteq> CHR ''.'') body;
          rest = dropWhile (\<lambda>c. c \<noteq> CHR ''.'') body;
          fp = tl rest
      in if ip \<noteq> [] \<and> list_all is_digit ip \<and> list_all is_digit fp \<and>
            (rest = [] \<or> fp \<noteq> [])
         then Some ((if neg then - 1 else 1) * int (nat_of_digits 0 (ip @ fp)), length fp)
         else None)"

definition decimal_text :: "string \<Rightarrow> rat option" where
  "decimal_text s = map_option (\<lambda>(n, k). of_int n / 10 ^ k) (split_numeral s)"

lemma no_dot: "list_all is_digit s \<Longrightarrow> x \<in> set s \<Longrightarrow> x \<noteq> CHR ''.''"
  by (auto simp: list_all_iff)

lemma dot_notin_digits: "list_all is_digit s \<Longrightarrow> CHR ''.'' \<notin> set s"
  by (auto dest: no_dot)

lemma takeWhile_digits:
  "list_all is_digit s \<Longrightarrow> takeWhile (\<lambda>c. c \<noteq> CHR ''.'') (s @ CHR ''.'' # t) = s"
  by (subst takeWhile_append2) (auto dest: no_dot)

lemma dropWhile_digits:
  "list_all is_digit s \<Longrightarrow> dropWhile (\<lambda>c. c \<noteq> CHR ''.'') (s @ CHR ''.'' # t) = CHR ''.'' # t"
  by (subst dropWhile_append2) (auto dest: no_dot)

lemma takeWhile_only_digits:
  "list_all is_digit s \<Longrightarrow> takeWhile (\<lambda>c. c \<noteq> CHR ''.'') s = s"
  by (auto dest: no_dot)

lemma dropWhile_only_digits:
  "list_all is_digit s \<Longrightarrow> dropWhile (\<lambda>c. c \<noteq> CHR ''.'') s = []"
  by (auto dest: no_dot)

lemma hd_nat_text: "hd (nat_text n @ s) \<noteq> CHR ''-''"
proof -
  have "is_digit (hd (nat_text n))"
    using digits_nat_text [of n] nat_text_not_Nil [of n] by (cases "nat_text n") auto
  then show ?thesis by (auto simp: hd_append)
qed

lemma split_numeral_body:
  assumes "list_all is_digit ip" "ip \<noteq> []" "list_all is_digit fp" "hd ip \<noteq> CHR ''-''"
  shows "split_numeral (ip @ (if fp = [] then [] else CHR ''.'' # fp)) =
           Some (int (nat_of_digits 0 (ip @ fp)), length fp)"
    and "split_numeral (CHR ''-'' # ip @ (if fp = [] then [] else CHR ''.'' # fp)) =
           Some (- int (nat_of_digits 0 (ip @ fp)), length fp)"
  using assms
  by (simp_all add: split_numeral_def Let_def takeWhile_digits dropWhile_digits hd_append
      takeWhile_only_digits dropWhile_only_digits dot_notin_digits)

lemma split_numeral_fixed: "split_numeral (fixed_text n k) = Some (n, k)"
proof -
  define m where "m = nat \<bar>n\<bar>"
  define ip where "ip = nat_text (m div 10 ^ k)"
  define fp where "fp = digits_fixed k m"
  have fp_Nil: "fp = [] \<longleftrightarrow> k = 0" by (metis fp_def length_0_conv length_digits_fixed)
  have val: "nat_of_digits 0 (ip @ fp) = m"
    by (simp add: ip_def fp_def nat_of_digits_append nat_of_digits_fixed
        div_mult_mod_eq)
  have shape: "fixed_text n k =
      (if n < 0 then ''-'' else []) @ ip @ (if fp = [] then [] else CHR ''.'' # fp)"
    by (simp add: fixed_text_def fp_Nil) (simp add: ip_def fp_def m_def)
  have ok: "list_all is_digit ip" "ip \<noteq> []" "list_all is_digit fp" "hd ip \<noteq> CHR ''-''"
    using hd_nat_text [of _ "[]"] by (simp_all add: ip_def fp_def)
  have len: "length fp = k" by (simp add: fp_def)
  show ?thesis
  proof (cases "n < 0")
    case True
    then show ?thesis
      using split_numeral_body(2) [OF ok] by (simp add: shape val len m_def)
  next
    case False
    then show ?thesis
      using split_numeral_body(1) [OF ok] by (simp add: shape val len m_def)
  qed
qed

lemma decimal_text_fixed [simp]: "decimal_text (fixed_text n k) = Some (of_int n / 10 ^ k)"
  by (simp add: decimal_text_def split_numeral_fixed)

lemma split_numeral_int [simp]: "split_numeral (int_text n) = Some (n, 0)"
  using split_numeral_fixed [of n 0] by (simp add: fixed_text_def int_text_def)

lemma digit_graphic: "is_digit c \<Longrightarrow> graphic c"
  by (simp add: is_digit_def graphic_def)

lemma digits_hd_last: "list_all is_digit s \<Longrightarrow> s \<noteq> [] \<Longrightarrow> is_digit (hd s) \<and> is_digit (last s)"
  by (simp add: list_all_iff)

lemma minus_graphic [simp]: "graphic (CHR ''-'')"
  by (simp add: graphic_def byte_def)

lemma TrimSpace_fixed [simp]: "TrimSpace (fixed_text n k) = fixed_text n k"
proof (rule TrimSpace_graphic)
  have ip: "is_digit (hd (nat_text m)) \<and> is_digit (last (nat_text m))" for m
    by (simp add: digits_hd_last)
  have fp: "k \<noteq> 0 \<Longrightarrow> is_digit (last (digits_fixed k m))" for m
    by (metis digits_digits_fixed digits_hd_last length_0_conv length_digits_fixed)
  show "graphic (hd (fixed_text n k))"
    using ip by (simp add: fixed_text_def hd_append digit_graphic)
  have "digits_fixed k m = [] \<longleftrightarrow> k = 0" for m
    by (metis length_0_conv length_digits_fixed)
  then show "graphic (last (fixed_text n k))"
    using ip fp by (simp add: fixed_text_def last_append digit_graphic)
qed

section \<open>Rounding half away from zero\<close>

definition round_half_away :: "rat \<Rightarrow> int" where
  "round_half_away x = (if 0 \<le> x then \<lfloor>x + 1 / 2\<rfloor> else - \<lfloor>1 / 2 - x\<rfloor>)"

lemma round_half_away_of_int [simp]: "round_half_away (of_int n) = n"
proof (cases "0 \<le> n")
  case True
  then show ?thesis by (simp add: round_half_away_def) linarith
next
  case False
  then show ?thesis by (simp add: round_half_away_def) linarith
qed

lemma round_half_away_pos: "1 / 2 \<le> x \<Longrightarrow> 0 < round_half_away x"
  by (simp add: round_half_away_def)

lemma round_half_away_error: "\<bar>of_int (round_half_away x) - x\<bar> \<le> 1 / 2"
proof -
  have "of_int \<lfloor>x + 1 / 2\<rfloor> \<le> x + 1 / 2" "x + 1 / 2 < of_int \<lfloor>x + 1 / 2\<rfloor> + 1"
    "of_int \<lfloor>1 / 2 - x\<rfloor> \<le> 1 / 2 - x" "1 / 2 - x < of_int \<lfloor>1 / 2 - x\<rfloor> + 1"
    by linarith+
  then have "\<bar>of_int \<lfloor>x + 1 / 2\<rfloor> - x\<bar> \<le> 1 / 2" "\<bar>- of_int \<lfloor>1 / 2 - x\<rfloor> - x\<bar> \<le> 1 / 2"
    by linarith+
  then show ?thesis unfolding round_half_away_def by auto
qed

end
