(* ===== verification/Money.thy ===== *)
theory Money
  imports Api_Errors Decimal_Text "HOL-Library.Word"
begin

text \<open>
  Monetary amounts.  \<open>shopspring/decimal\<close> is a library the repository only calls, so its
  operations are a parameter: the record \<open>decimal_ops\<close>, with the documented behaviour the
  service relies on as the laws of the locale \<open>decimal_laws\<close> (\<open>val\<close> is the number a decimal
  stands for).  The exact decimals of the second part (an integer coefficient and a power of
  ten) are a concrete instance.  \<open>go/internal/payment/money.go\<close> is modelled at the end.
\<close>

section \<open>The interface of the decimal library\<close>

record 'd decimal_ops =
  dec_Zero :: 'd
  dec_Add :: "'d \<Rightarrow> 'd \<Rightarrow> 'd"
  dec_Sub :: "'d \<Rightarrow> 'd \<Rightarrow> 'd"
  dec_Cmp :: "'d \<Rightarrow> 'd \<Rightarrow> int"
  dec_Exponent :: "'d \<Rightarrow> int"
  dec_Shift :: "'d \<Rightarrow> nat \<Rightarrow> 'd"
  dec_IntPart :: "'d \<Rightarrow> 64 word"
  dec_String :: "'d \<Rightarrow> string"
  dec_StringFixed :: "'d \<Rightarrow> nat \<Rightarrow> string"
  dec_NewFromString :: "string \<Rightarrow> go_error + 'd"
  dec_UnmarshalJSON :: "string \<Rightarrow> go_error + 'd"

definition truncate :: "rat \<Rightarrow> int" where
  "truncate x = (if 0 \<le> x then \<lfloor>x\<rfloor> else \<lceil>x\<rceil>)"

locale decimal_laws =
  fixes D :: "'d decimal_ops"
    and val :: "'d \<Rightarrow> rat"
  assumes val_Zero: "val (dec_Zero D) = 0"
    and val_Add: "val (dec_Add D a b) = val a + val b"
    and val_Sub: "val (dec_Sub D a b) = val a - val b"
    and Cmp: "dec_Cmp D a b = (if val a < val b then - 1 else if val a = val b then 0 else 1)"
    and Exponent: "\<exists>c. val a = of_int c * 10 powi dec_Exponent D a"
    and val_Shift: "val (dec_Shift D a n) = val a * 10 ^ n"
    and IntPart: "truncate (val a) \<in> {- (2 ^ 63) ..< 2 ^ 63} \<Longrightarrow>
      sint (dec_IntPart D a) = truncate (val a)"
    and String: "decimal_text (dec_String D a) = Some (val a)"
    and StringFixed: "dec_StringFixed D a n = fixed_text (round_half_away (val a * 10 ^ n)) n"
    and NewFromString: "decimal_text s = Some q \<Longrightarrow>
      \<exists>a. dec_NewFromString D s = Inr a \<and> val a = q"
    and UnmarshalJSON: "decimal_text s = Some q \<Longrightarrow>
      \<exists>a. dec_UnmarshalJSON D s = Inr a \<and> val a = q"
begin

lemma Cmp_gt: "0 < dec_Cmp D a b \<longleftrightarrow> val b < val a"
  by (auto simp: Cmp)

lemma Cmp_ge: "0 \<le> dec_Cmp D a b \<longleftrightarrow> val b \<le> val a"
  by (auto simp: Cmp)

lemma four_decimals:
  assumes "- 4 \<le> dec_Exponent D a"
  obtains c where "val a = of_int c / 10 ^ 4"
proof -
  obtain c where c: "val a = of_int c * 10 powi dec_Exponent D a"
    using Exponent by blast
  define k where "k = nat (dec_Exponent D a + 4)"
  have "(10 :: rat) powi dec_Exponent D a = 10 powi (int k - 4)"
    using assms by (simp add: k_def)
  also have "\<dots> = 10 ^ k / 10 ^ 4"
    by (simp add: power_int_diff)
  finally have "val a = of_int (c * 10 ^ k) / 10 ^ 4"
    by (simp add: c)
  then show thesis by (rule that)
qed

end

section \<open>Exact decimals\<close>

text \<open>A value of the library is a coefficient and a power of ten; the operations below follow
  its documentation.  \<open>rescale\<close> moves a decimal to a smaller exponent.\<close>

datatype exact = Exact (coefficient: int) (exponent: int)

definition exact_val :: "exact \<Rightarrow> rat" where
  "exact_val a = of_int (coefficient a) * 10 powi exponent a"

definition rescale :: "exact \<Rightarrow> int \<Rightarrow> int" where
  "rescale a e = coefficient a * 10 ^ nat (exponent a - e)"

definition exact_add :: "exact \<Rightarrow> exact \<Rightarrow> exact" where
  "exact_add a b = (let e = min (exponent a) (exponent b) in Exact (rescale a e + rescale b e) e)"

definition exact_sub :: "exact \<Rightarrow> exact \<Rightarrow> exact" where
  "exact_sub a b = (let e = min (exponent a) (exponent b) in Exact (rescale a e - rescale b e) e)"

definition exact_cmp :: "exact \<Rightarrow> exact \<Rightarrow> int" where
  "exact_cmp a b = (let e = min (exponent a) (exponent b); x = rescale a e; y = rescale b e
     in if x < y then - 1 else if x = y then 0 else 1)"

text \<open>The scaled integer of a decimal that is not below \<open>10 ^ - k\<close> units, and its text.\<close>

definition exact_text :: "exact \<Rightarrow> string" where
  "exact_text a =
     (if 0 \<le> exponent a then fixed_text (coefficient a * 10 ^ nat (exponent a)) 0
      else fixed_text (coefficient a) (nat (- exponent a)))"

definition exact_parse :: "string \<Rightarrow> go_error + exact" where
  "exact_parse s =
     (case split_numeral s of
        None \<Rightarrow> Inl (ErrText (''can't convert '' @ s @ '' to decimal''))
      | Some (n, k) \<Rightarrow> Inr (Exact n (- int k)))"

definition exact_ops :: "exact decimal_ops" where
  "exact_ops =
     \<lparr>dec_Zero = Exact 0 0, dec_Add = exact_add, dec_Sub = exact_sub, dec_Cmp = exact_cmp,
      dec_Exponent = exponent,
      dec_Shift = (\<lambda>a n. Exact (coefficient a) (exponent a + int n)),
      dec_IntPart = (\<lambda>a. word_of_int (truncate (exact_val a))),
      dec_String = exact_text,
      dec_StringFixed = (\<lambda>a n. fixed_text (round_half_away (exact_val a * 10 ^ n)) n),
      dec_NewFromString = exact_parse, dec_UnmarshalJSON = exact_parse\<rparr>"

lemma powi_nat: "0 \<le> e \<Longrightarrow> (10 :: rat) powi e = 10 ^ nat e"
  by (simp add: power_int_def)

lemma rescale_val: "e \<le> exponent a \<Longrightarrow> of_int (rescale a e) * 10 powi e = exact_val a"
proof -
  assume le: "e \<le> exponent a"
  have "(10 :: rat) powi exponent a = 10 powi (exponent a - e) * 10 powi e"
    by (simp add: power_int_diff)
  with le show ?thesis by (simp add: rescale_def exact_val_def powi_nat)
qed

lemma exact_val_sum:
  "e \<le> exponent a \<Longrightarrow> e \<le> exponent b \<Longrightarrow>
     exact_val (Exact (rescale a e + rescale b e) e) = exact_val a + exact_val b"
  "e \<le> exponent a \<Longrightarrow> e \<le> exponent b \<Longrightarrow>
     exact_val (Exact (rescale a e - rescale b e) e) = exact_val a - exact_val b"
  by (simp_all add: exact_val_def [of "Exact _ _"] distrib_right left_diff_distrib rescale_val)

lemma exact_cmp_val:
  "exact_cmp a b =
     (if exact_val a < exact_val b then - 1 else if exact_val a = exact_val b then 0 else 1)"
proof -
  define e where "e = min (exponent a) (exponent b)"
  have a: "exact_val a = of_int (rescale a e) * 10 powi e"
    and b: "exact_val b = of_int (rescale b e) * 10 powi e"
    by (simp_all add: rescale_val e_def)
  have pos: "(0 :: rat) < 10 powi e" by simp
  show ?thesis
    unfolding a b using pos by (simp add: exact_cmp_def Let_def flip: e_def)
qed

lemma exact_text_val: "decimal_text (exact_text a) = Some (exact_val a)"
proof (cases "0 \<le> exponent a")
  case True
  then show ?thesis by (simp add: exact_text_def exact_val_def powi_nat)
next
  case False
  then have "(10 :: rat) powi exponent a = 1 / 10 ^ nat (- exponent a)"
    by (simp add: power_int_def field_simps)
  with False show ?thesis by (simp add: exact_text_def exact_val_def)
qed

lemma exact_parse_val:
  "decimal_text s = Some q \<Longrightarrow> \<exists>a. exact_parse s = Inr a \<and> exact_val a = q"
  by (auto simp: decimal_text_def exact_parse_def exact_val_def power_int_minus field_simps
      split: option.splits)

lemma sint_truncate:
  "truncate x \<in> {- (2 ^ 63) ..< 2 ^ 63} \<Longrightarrow> sint (word_of_int (truncate x) :: 64 word) = truncate x"
  by (simp add: signed_take_bit_int_eq_self sint_sbintrunc')

interpretation exact: decimal_laws exact_ops exact_val
proof unfold_locales
  fix a b :: exact and n :: nat and s :: string and q :: rat
  show "exact_val (dec_Zero exact_ops) = 0"
    by (simp add: exact_ops_def exact_val_def)
  show "exact_val (dec_Add exact_ops a b) = exact_val a + exact_val b"
    and "exact_val (dec_Sub exact_ops a b) = exact_val a - exact_val b"
    by (simp_all add: exact_ops_def exact_add_def exact_sub_def Let_def exact_val_sum)
  show "dec_Cmp exact_ops a b =
      (if exact_val a < exact_val b then - 1 else if exact_val a = exact_val b then 0 else 1)"
    by (simp add: exact_ops_def exact_cmp_val)
  show "\<exists>c. exact_val a = of_int c * 10 powi dec_Exponent exact_ops a"
    by (auto simp: exact_ops_def exact_val_def)
  show "exact_val (dec_Shift exact_ops a n) = exact_val a * 10 ^ n"
    by (simp add: exact_ops_def exact_val_def power_int_add)
  show "sint (dec_IntPart exact_ops a) = truncate (exact_val a)"
    if "truncate (exact_val a) \<in> {- (2 ^ 63) ..< 2 ^ 63}"
    using sint_truncate [OF that] by (simp add: exact_ops_def)
  show "decimal_text (dec_String exact_ops a) = Some (exact_val a)"
    by (simp add: exact_ops_def exact_text_val)
  show "dec_StringFixed exact_ops a n = fixed_text (round_half_away (exact_val a * 10 ^ n)) n"
    by (simp add: exact_ops_def)
  show "\<exists>c. dec_NewFromString exact_ops s = Inr c \<and> exact_val c = q" if "decimal_text s = Some q"
    using exact_parse_val [OF that] by (simp add: exact_ops_def)
  show "\<exists>c. dec_UnmarshalJSON exact_ops s = Inr c \<and> exact_val c = q" if "decimal_text s = Some q"
    using exact_parse_val [OF that] by (simp add: exact_ops_def)
qed

section \<open>Amount\<close>

text \<open>\<open>money.go\<close>: an \<open>Amount\<close> is a decimal that is written with four decimals, unquoted.\<close>

definition Amount_MarshalJSON :: "'d decimal_ops \<Rightarrow> 'd \<Rightarrow> string" where
  "Amount_MarshalJSON D a = dec_StringFixed D a 4"

definition Amount_UnmarshalJSON :: "'d decimal_ops \<Rightarrow> string \<Rightarrow> go_error + 'd" where
  "Amount_UnmarshalJSON D data =
     (case dec_UnmarshalJSON D (TrimSpace data) of
        Inl err \<Rightarrow> Inl err
      | Inr value \<Rightarrow> Inr value)"

definition Amount_Decimal :: "'d \<Rightarrow> 'd" where
  "Amount_Decimal a = a"

definition Amount_String :: "'d decimal_ops \<Rightarrow> 'd \<Rightarrow> string" where
  "Amount_String D a = dec_StringFixed D a 4"

definition decimalCmpPositive :: "'d decimal_ops \<Rightarrow> 'd \<Rightarrow> bool" where
  "decimalCmpPositive D amount \<longleftrightarrow> dec_Cmp D amount (dec_Zero D) > 0"

text \<open>An amount rounded to the four decimals the service keeps, as a scaled integer.\<close>

definition cents4 :: "rat \<Rightarrow> int" where
  "cents4 q = round_half_away (q * 10 ^ 4)"

context decimal_laws begin

lemma decimalCmpPositive_iff: "decimalCmpPositive D a \<longleftrightarrow> 0 < val a"
  by (simp add: decimalCmpPositive_def Cmp_gt val_Zero)

lemma cents4_exact: "- 4 \<le> dec_Exponent D a \<Longrightarrow> of_int (cents4 (val a)) / 10 ^ 4 = val a"
  by (erule four_decimals) (simp add: cents4_def)

end

section \<open>Amounts on the wire\<close>

lemma marshalled_amount:
  "\<exists>b. Amount_UnmarshalJSON exact_ops (Amount_MarshalJSON exact_ops a) = Inr b \<and>
     exact_val b = of_int (cents4 (exact_val a)) / 10 ^ 4"
  using exact.UnmarshalJSON [OF decimal_text_fixed [of "cents4 (exact_val a)" 4]]
  by (auto simp: Amount_UnmarshalJSON_def Amount_MarshalJSON_def exact.StringFixed cents4_def)

lemma scaled_error: "\<bar>of_int n - x * 10 ^ 4\<bar> \<le> 1 / 2 \<Longrightarrow> \<bar>of_int n / 10 ^ 4 - x\<bar> \<le> (1 / 20000 :: rat)"
  unfolding abs_le_iff by simp

text \<open>
  C29.  An amount that was written as JSON is read back, and the difference to the amount is at
  most half of a ten-thousandth.
\<close>

theorem amount_read_back:
  "\<exists>b. Amount_UnmarshalJSON exact_ops (Amount_MarshalJSON exact_ops a) = Inr b \<and>
     \<bar>exact_val b - exact_val a\<bar> \<le> 1 / 20000"
proof -
  have "\<bar>of_int (cents4 (exact_val a)) / 10 ^ 4 - exact_val a\<bar> \<le> 1 / 20000"
    unfolding cents4_def by (rule scaled_error [OF round_half_away_error])
  with marshalled_amount [of a] show ?thesis by metis
qed

text \<open>
  C30.  An amount with at most four decimals, as the request validation demands, is read back as
  the same number.
\<close>

theorem amount_exact_on_the_wire:
  assumes "- 4 \<le> dec_Exponent exact_ops a"
  shows "\<exists>b. Amount_UnmarshalJSON exact_ops (Amount_MarshalJSON exact_ops a) = Inr b \<and>
     exact_val b = exact_val a"
  using marshalled_amount [of a] exact.cents4_exact [OF assms] by simp

theorem amount_exact_on_the_wire_witness:
  "\<exists>b. Amount_UnmarshalJSON exact_ops (Amount_MarshalJSON exact_ops (Exact 12345 (- 3))) = Inr b \<and>
     exact_val b = exact_val (Exact 12345 (- 3))"
  by (rule amount_exact_on_the_wire) (simp add: exact_ops_def)

end
