(* ===== verification/Runtime.thy ===== *)
theory Runtime
  imports Money
begin

text \<open>
  What the Go code takes from its surroundings, and how a Go function with effects is written.
  A function of the service is a state transformer on a \<open>world\<close>: the database connection
  (\<open>w_db\<close>), the counters of the calls of \<open>time.Now\<close>, \<open>uuid.New\<close> and \<open>rand.Float64\<close> made so
  far, the tokens of the mock gateway, the time slept and everything outside the process
  (\<open>w_ext\<close>: the Stripe API).  The values those calls return are parameters, fields of \<open>env\<close>,
  indexed by the counters, so the model fixes no clock and no random source.  An operation that
  can fail returns \<open>go_error + 'a\<close>; \<open>bindE\<close> is Go's \<open>if err != nil { return err }\<close>.
\<close>

section \<open>Types\<close>

text \<open>A \<open>uuid.UUID\<close> is sixteen bytes, \<open>uuid.Nil\<close> is zero; a \<open>time.Time\<close> is a number of
  nanoseconds since Go's zero time.\<close>

type_synonym uuid = "128 word"

type_synonym time = int

text \<open>A \<open>float64\<close> as the code compares it: the finite ones are rationals.\<close>

datatype go_float = Finite rat | PosInf | NegInf | NotANumber

fun float_less :: "go_float \<Rightarrow> go_float \<Rightarrow> bool" where
  "float_less NotANumber _ = False"
| "float_less _ NotANumber = False"
| "float_less (Finite a) (Finite b) = (a < b)"
| "float_less NegInf b = (b \<noteq> NegInf)"
| "float_less a NegInf = False"
| "float_less PosInf b = False"
| "float_less a PosInf = True"

record 'd env =
  E_dec :: "'d decimal_ops"
  E_now :: "nat \<Rightarrow> time"
  E_uuid :: "nat \<Rightarrow> uuid"
  E_rand :: "nat \<Rightarrow> go_float"
  E_uuid_parse :: "string \<Rightarrow> uuid option"
  E_uuid_string :: "uuid \<Rightarrow> string"
  E_lower :: "string \<Rightarrow> string"
  E_upper :: "string \<Rightarrow> string"

record ('db, 'x) world =
  w_db :: 'db
  w_clk :: nat
  w_ids :: nat
  w_rnd :: nat
  w_tokens :: "string \<rightharpoonup> string"
  w_slept :: nat
  w_ext :: 'x

type_synonym ('db, 'x, 'a) go = "('db, 'x) world \<Rightarrow> (go_error + 'a) \<times> ('db, 'x) world"

section \<open>Sequencing\<close>

definition returnE :: "'a \<Rightarrow> ('db, 'x, 'a) go" where
  "returnE x w = (Inr x, w)"

definition failE :: "go_error \<Rightarrow> ('db, 'x, 'a) go" where
  "failE e w = (Inl e, w)"

definition bindE :: "('db, 'x, 'a) go \<Rightarrow> ('a \<Rightarrow> ('db, 'x, 'b) go) \<Rightarrow> ('db, 'x, 'b) go" where
  "bindE m f w = (case m w of (Inl e, w') \<Rightarrow> (Inl e, w') | (Inr x, w') \<Rightarrow> f x w')"

text \<open>The draws cannot fail: \<open>time.Now().UTC()\<close>, \<open>uuid.New()\<close> and \<open>rand.Float64()\<close>.\<close>

definition with_now :: "'d env \<Rightarrow> (time \<Rightarrow> ('db, 'x) world \<Rightarrow> 'r) \<Rightarrow> ('db, 'x) world \<Rightarrow> 'r" where
  "with_now E f w = f (E_now E (w_clk w)) (w\<lparr>w_clk := Suc (w_clk w)\<rparr>)"

definition with_uuid :: "'d env \<Rightarrow> (uuid \<Rightarrow> ('db, 'x) world \<Rightarrow> 'r) \<Rightarrow> ('db, 'x) world \<Rightarrow> 'r" where
  "with_uuid E f w = f (E_uuid E (w_ids w)) (w\<lparr>w_ids := Suc (w_ids w)\<rparr>)"

definition with_rand :: "'d env \<Rightarrow> (go_float \<Rightarrow> ('db, 'x) world \<Rightarrow> 'r) \<Rightarrow> ('db, 'x) world \<Rightarrow> 'r" where
  "with_rand E f w = f (E_rand E (w_rnd w)) (w\<lparr>w_rnd := Suc (w_rnd w)\<rparr>)"

lemma bindE_returnE [simp]: "bindE (returnE x) f = f x"
  by (rule ext) (simp add: bindE_def returnE_def)

lemma bindE_failE [simp]: "bindE (failE e) f = failE e"
  by (rule ext) (simp add: bindE_def failE_def)

lemma bindE_assoc: "bindE (bindE m f) g = bindE m (\<lambda>x. bindE (f x) g)"
  by (rule ext) (simp add: bindE_def split: prod.splits sum.splits)

lemma bindE_Inr:
  "bindE m f w = (Inr y, w'') \<longleftrightarrow> (\<exists>x w'. m w = (Inr x, w') \<and> f x w' = (Inr y, w''))"
  by (auto simp: bindE_def split: prod.splits sum.splits)

lemma bindE_Inl:
  "bindE m f w = (Inl e, w'') \<longleftrightarrow>
     m w = (Inl e, w'') \<or> (\<exists>x w'. m w = (Inr x, w') \<and> f x w' = (Inl e, w''))"
  by (auto simp: bindE_def split: prod.splits sum.splits)

lemma returnE_eq [simp]: "returnE x w = (r, w') \<longleftrightarrow> r = Inr x \<and> w' = w"
  by (auto simp: returnE_def)

lemma failE_eq [simp]: "failE e w = (r, w') \<longleftrightarrow> r = Inl e \<and> w' = w"
  by (auto simp: failE_def)

lemmas draw_defs = with_now_def with_uuid_def with_rand_def

section \<open>Null strings\<close>

text \<open>\<open>nullString\<close> of \<open>service.go\<close>: trims, and maps the empty string to NULL.\<close>

definition nullString :: "string \<Rightarrow> string option" where
  "nullString s = (let value = TrimSpace s in if value = [] then None else Some value)"

lemma nullString_None: "nullString s = None \<longleftrightarrow> blank s"
  by (simp add: nullString_def Let_def)

lemma nullString_trimmed: "nullString s = Some v \<Longrightarrow> TrimSpace v = v \<and> v \<noteq> []"
  by (auto simp: nullString_def Let_def split: if_splits)

text \<open>The \<open>String\<close> field of a \<open>sql.NullString\<close>, empty when it is not valid.\<close>

definition ns_String :: "string option \<Rightarrow> string" where
  "ns_String ns = (case ns of None \<Rightarrow> [] | Some s \<Rightarrow> s)"

end
