(* ===== verification/Domain.thy ===== *)
theory Domain
  imports Runtime
begin

text \<open>
  \<open>go/internal/payment/model.go\<close>: the rows of the service.  The status and kind types of the
  code are strings with named constants, and are modelled as such; a \<open>sql.NullX\<close> field is an
  option.  The amount type \<open>'d\<close> is the decimal library's.
\<close>

section \<open>Constants\<close>

type_synonym payment_status = string

definition PaymentStatusPending :: payment_status where "PaymentStatusPending = ''PENDING''"
definition PaymentStatusProcessing :: payment_status where "PaymentStatusProcessing = ''PROCESSING''"
definition PaymentStatusCompleted :: payment_status where "PaymentStatusCompleted = ''COMPLETED''"
definition PaymentStatusFailed :: payment_status where "PaymentStatusFailed = ''FAILED''"
definition PaymentStatusRefundPending :: payment_status
  where "PaymentStatusRefundPending = ''REFUND_PENDING''"
definition PaymentStatusRefunded :: payment_status where "PaymentStatusRefunded = ''REFUNDED''"
definition PaymentStatusRefundFailed :: payment_status
  where "PaymentStatusRefundFailed = ''REFUND_FAILED''"

lemmas payment_status_defs = PaymentStatusPending_def PaymentStatusProcessing_def
  PaymentStatusCompleted_def PaymentStatusFailed_def PaymentStatusRefundPending_def
  PaymentStatusRefunded_def PaymentStatusRefundFailed_def

lemma payment_status_neq [simp]:
  "PaymentStatusPending \<noteq> PaymentStatusProcessing"
  "PaymentStatusPending \<noteq> PaymentStatusCompleted"
  "PaymentStatusPending \<noteq> PaymentStatusFailed"
  "PaymentStatusPending \<noteq> PaymentStatusRefundPending"
  "PaymentStatusPending \<noteq> PaymentStatusRefunded"
  "PaymentStatusPending \<noteq> PaymentStatusRefundFailed"
  "PaymentStatusProcessing \<noteq> PaymentStatusPending"
  "PaymentStatusProcessing \<noteq> PaymentStatusCompleted"
  "PaymentStatusProcessing \<noteq> PaymentStatusFailed"
  "PaymentStatusProcessing \<noteq> PaymentStatusRefundPending"
  "PaymentStatusProcessing \<noteq> PaymentStatusRefunded"
  "PaymentStatusProcessing \<noteq> PaymentStatusRefundFailed"
  "PaymentStatusCompleted \<noteq> PaymentStatusPending"
  "PaymentStatusCompleted \<noteq> PaymentStatusProcessing"
  "PaymentStatusCompleted \<noteq> PaymentStatusFailed"
  "PaymentStatusCompleted \<noteq> PaymentStatusRefundPending"
  "PaymentStatusCompleted \<noteq> PaymentStatusRefunded"
  "PaymentStatusCompleted \<noteq> PaymentStatusRefundFailed"
  "PaymentStatusFailed \<noteq> PaymentStatusPending"
  "PaymentStatusFailed \<noteq> PaymentStatusProcessing"
  "PaymentStatusFailed \<noteq> PaymentStatusCompleted"
  "PaymentStatusFailed \<noteq> PaymentStatusRefundPending"
  "PaymentStatusFailed \<noteq> PaymentStatusRefunded"
  "PaymentStatusFailed \<noteq> PaymentStatusRefundFailed"
  "PaymentStatusRefundPending \<noteq> PaymentStatusPending"
  "PaymentStatusRefundPending \<noteq> PaymentStatusProcessing"
  "PaymentStatusRefundPending \<noteq> PaymentStatusCompleted"
  "PaymentStatusRefundPending \<noteq> PaymentStatusFailed"
  "PaymentStatusRefundPending \<noteq> PaymentStatusRefunded"
  "PaymentStatusRefundPending \<noteq> PaymentStatusRefundFailed"
  "PaymentStatusRefunded \<noteq> PaymentStatusPending"
  "PaymentStatusRefunded \<noteq> PaymentStatusProcessing"
  "PaymentStatusRefunded \<noteq> PaymentStatusCompleted"
  "PaymentStatusRefunded \<noteq> PaymentStatusFailed"
  "PaymentStatusRefunded \<noteq> PaymentStatusRefundPending"
  "PaymentStatusRefunded \<noteq> PaymentStatusRefundFailed"
  "PaymentStatusRefundFailed \<noteq> PaymentStatusPending"
  "PaymentStatusRefundFailed \<noteq> PaymentStatusProcessing"
  "PaymentStatusRefundFailed \<noteq> PaymentStatusCompleted"
  "PaymentStatusRefundFailed \<noteq> PaymentStatusFailed"
  "PaymentStatusRefundFailed \<noteq> PaymentStatusRefundPending"
  "PaymentStatusRefundFailed \<noteq> PaymentStatusRefunded"
  by (simp_all add: payment_status_defs)

type_synonym refund_status = string

definition RefundStatusPending :: refund_status where "RefundStatusPending = ''PENDING''"
definition RefundStatusProcessing :: refund_status where "RefundStatusProcessing = ''PROCESSING''"
definition RefundStatusCompleted :: refund_status where "RefundStatusCompleted = ''COMPLETED''"
definition RefundStatusFailed :: refund_status where "RefundStatusFailed = ''FAILED''"

lemmas refund_status_defs = RefundStatusPending_def RefundStatusProcessing_def
  RefundStatusCompleted_def RefundStatusFailed_def

lemma refund_status_neq [simp]:
  "RefundStatusPending \<noteq> RefundStatusProcessing"
  "RefundStatusPending \<noteq> RefundStatusCompleted"
  "RefundStatusPending \<noteq> RefundStatusFailed"
  "RefundStatusProcessing \<noteq> RefundStatusPending"
  "RefundStatusProcessing \<noteq> RefundStatusCompleted"
  "RefundStatusProcessing \<noteq> RefundStatusFailed"
  "RefundStatusCompleted \<noteq> RefundStatusPending"
  "RefundStatusCompleted \<noteq> RefundStatusProcessing"
  "RefundStatusCompleted \<noteq> RefundStatusFailed"
  "RefundStatusFailed \<noteq> RefundStatusPending"
  "RefundStatusFailed \<noteq> RefundStatusProcessing"
  "RefundStatusFailed \<noteq> RefundStatusCompleted"
  by (simp_all add: refund_status_defs)

type_synonym transaction_type = string

definition TransactionTypeAuthorization :: transaction_type
  where "TransactionTypeAuthorization = ''AUTHORIZATION''"
definition TransactionTypeCapture :: transaction_type where "TransactionTypeCapture = ''CAPTURE''"
definition TransactionTypeCharge :: transaction_type where "TransactionTypeCharge = ''CHARGE''"
definition TransactionTypeRefund :: transaction_type where "TransactionTypeRefund = ''REFUND''"
definition TransactionTypeVoid :: transaction_type where "TransactionTypeVoid = ''VOID''"
definition TransactionTypeChargeback :: transaction_type
  where "TransactionTypeChargeback = ''CHARGEBACK''"

lemma transaction_type_neq [simp]:
  "TransactionTypeCharge \<noteq> TransactionTypeRefund" "TransactionTypeRefund \<noteq> TransactionTypeCharge"
  by (simp_all add: TransactionTypeCharge_def TransactionTypeRefund_def)

type_synonym payment_method_type = string

definition PaymentMethodTypeCard :: payment_method_type where "PaymentMethodTypeCard = ''CARD''"
definition PaymentMethodTypeBankAccount :: payment_method_type
  where "PaymentMethodTypeBankAccount = ''BANK_ACCOUNT''"
definition PaymentMethodTypePayPal :: payment_method_type
  where "PaymentMethodTypePayPal = ''PAYPAL''"
definition PaymentMethodTypeApplePay :: payment_method_type
  where "PaymentMethodTypeApplePay = ''APPLE_PAY''"
definition PaymentMethodTypeGooglePay :: payment_method_type
  where "PaymentMethodTypeGooglePay = ''GOOGLE_PAY''"

section \<open>Rows\<close>

record 'd payment =
  p_ID :: uuid
  p_OrderID :: string
  p_CustomerID :: string
  p_Amount :: 'd
  p_Currency :: string
  p_Status :: payment_status
  p_Gateway :: string
  p_GatewayTransactionID :: "string option"
  p_GatewayPaymentIntentID :: "string option"
  p_PaymentMethodID :: "uuid option"
  p_CardLast4 :: "string option"
  p_CardBrand :: "string option"
  p_Metadata :: "string option"
  p_FailureReason :: "string option"
  p_FailureCode :: "string option"
  p_CreatedAt :: time
  p_ProcessedAt :: "time option"
  p_CompletedAt :: "time option"
  p_UpdatedAt :: "time option"
  p_CorrelationID :: "string option"
  p_IdempotencyKey :: "string option"

record payment_method =
  pm_ID :: uuid
  pm_CustomerID :: string
  pm_Type :: payment_method_type
  pm_Gateway :: string
  pm_GatewayToken :: string
  pm_CardLast4 :: "string option"
  pm_CardBrand :: "string option"
  pm_CardExpMonth :: "string option"
  pm_CardExpYear :: "string option"
  pm_CardholderNameEncrypted :: "string option"
  pm_BillingEmail :: "string option"
  pm_BillingAddressEncrypted :: "string option"
  pm_ExpiryEncrypted :: "string option"
  pm_IsDefault :: bool
  pm_IsActive :: bool
  pm_Metadata :: "string option"
  pm_CreatedAt :: time
  pm_UpdatedAt :: "time option"
  pm_LastUsedAt :: "time option"

record 'd refund =
  r_ID :: uuid
  r_PaymentID :: uuid
  r_Amount :: 'd
  r_Currency :: string
  r_Status :: refund_status
  r_Reason :: "string option"
  r_GatewayRefundID :: "string option"
  r_FailureReason :: "string option"
  r_FailureCode :: "string option"
  r_CreatedAt :: time
  r_ProcessedAt :: "time option"
  r_CompletedAt :: "time option"
  r_CorrelationID :: "string option"
  r_InitiatedBy :: "string option"

record 'd transaction =
  t_ID :: uuid
  t_PaymentID :: uuid
  t_RefundID :: "uuid option"
  t_Type :: transaction_type
  t_Amount :: 'd
  t_Currency :: string
  t_Success :: bool
  t_GatewayTransactionID :: "string option"
  t_GatewayResponse :: "string option"
  t_GatewayErrorCode :: "string option"
  t_GatewayErrorMessage :: "string option"
  t_CreatedAt :: time
  t_CorrelationID :: "string option"
  t_IPAddress :: "string option"
  t_UserAgent :: "string option"

end
