(* ===== verification/Payment_Store.thy ===== *)
theory Payment_Store
  imports Domain "HOL-Library.Multiset"
begin

text \<open>
  The \<open>paymentStore\<close> interface of \<open>go/internal/payment/store.go\<close> and the transaction runner
  \<open>RunInTx\<close>, with what the services rely on.  A store is a record of functions, one per
  method; an operation that mutates the row it is given returns the mutated row.  The abstract
  state is a \<open>ledger\<close>: the three tables as lists of rows in insertion order.  The contract is
  the locale \<open>payment_store_contract\<close> (what each operation returns and does to the ledger),
  extended to transactions by \<open>transactional_store\<close>.
\<close>

section \<open>The interface\<close>

record ('d, 'db, 'x) payment_store =
  st_CreatePayment :: "'d payment \<Rightarrow> ('db, 'x, 'd payment) go"
  st_UpdatePayment :: "'d payment \<Rightarrow> ('db, 'x, 'd payment) go"
  st_GetPayment :: "uuid \<Rightarrow> ('db, 'x, 'd payment) go"
  st_GetPaymentForUpdate :: "uuid \<Rightarrow> ('db, 'x, 'd payment) go"
  st_GetPaymentByOrderID :: "string \<Rightarrow> ('db, 'x, 'd payment) go"
  st_GetPaymentByIdempotencyKey :: "string \<Rightarrow> ('db, 'x, 'd payment) go"
  st_GetPaymentsByCustomer :: "string \<Rightarrow> ('db, 'x, 'd payment list) go"
  st_CreateRefund :: "'d refund \<Rightarrow> ('db, 'x, 'd refund) go"
  st_UpdateRefund :: "'d refund \<Rightarrow> ('db, 'x, 'd refund) go"
  st_GetRefund :: "uuid \<Rightarrow> ('db, 'x, 'd refund) go"
  st_GetRefundByCorrelationID :: "string \<Rightarrow> ('db, 'x, 'd refund) go"
  st_GetRefundsByPayment :: "uuid \<Rightarrow> ('db, 'x, 'd refund list) go"
  st_CreateTransaction :: "'d transaction \<Rightarrow> ('db, 'x, 'd transaction) go"

text \<open>What \<open>RunInTx\<close> takes from the connection pool: the start and the two ends of a
  transaction, and the store over it.\<close>

record ('d, 'db, 'x) tx_runner =
  tr_begin :: "('db, 'x, unit) go"
  tr_commit :: "('db, 'x, unit) go"
  tr_rollback :: "('db, 'x, unit) go"
  tr_store :: "('d, 'db, 'x) payment_store"

definition rollback_failed :: "go_error \<Rightarrow> go_error \<Rightarrow> go_error" where
  "rollback_failed err rbErr =
     ErrWrap [] err ('' (additionally, rollback failed: '' @ err_text rbErr @ '')'')"

text \<open>\<open>Store.RunInTx\<close>.  The function given to it returns, beside the error, the row its closure
  has updated; the model has no panics, so the deferred recovery is not taken.\<close>

definition RunInTx :: "('d, 'db, 'x) tx_runner \<Rightarrow>
    (('d, 'db, 'x) payment_store \<Rightarrow> ('db, 'x, 'a) go) \<Rightarrow> ('db, 'x, 'a) go" where
  "RunInTx T fn =
     bindE (tr_begin T) (\<lambda>_ w.
       case fn (tr_store T) w of
         (Inl err, w1) \<Rightarrow>
           (case tr_rollback T w1 of
              (Inl rbErr, w2) \<Rightarrow> (Inl (rollback_failed err rbErr), w2)
            | (Inr _, w2) \<Rightarrow> (Inl err, w2))
       | (Inr x, w1) \<Rightarrow> bindE (tr_commit T) (\<lambda>_. returnE x) w1)"

section \<open>The ledger\<close>

record 'd ledger =
  l_payments :: "'d payment list"
  l_refunds :: "'d refund list"
  l_txs :: "'d transaction list"

definition empty_ledger :: "'d ledger" where
  "empty_ledger = \<lparr>l_payments = [], l_refunds = [], l_txs = []\<rparr>"

text \<open>What the database keeps of a row: amounts in four decimals, times in its resolution.\<close>

definition keep_payment :: "('d \<Rightarrow> 'd) \<Rightarrow> (time \<Rightarrow> time) \<Rightarrow> 'd payment \<Rightarrow> 'd payment" where
  "keep_payment ka kt p =
     p\<lparr>p_Amount := ka (p_Amount p), p_CreatedAt := kt (p_CreatedAt p),
       p_ProcessedAt := map_option kt (p_ProcessedAt p),
       p_CompletedAt := map_option kt (p_CompletedAt p),
       p_UpdatedAt := map_option kt (p_UpdatedAt p)\<rparr>"

definition keep_refund :: "('d \<Rightarrow> 'd) \<Rightarrow> (time \<Rightarrow> time) \<Rightarrow> 'd refund \<Rightarrow> 'd refund" where
  "keep_refund ka kt r =
     r\<lparr>r_Amount := ka (r_Amount r), r_CreatedAt := kt (r_CreatedAt r),
       r_ProcessedAt := map_option kt (r_ProcessedAt r),
       r_CompletedAt := map_option kt (r_CompletedAt r)\<rparr>"

definition keep_transaction :: "('d \<Rightarrow> 'd) \<Rightarrow> (time \<Rightarrow> time) \<Rightarrow> 'd transaction \<Rightarrow> 'd transaction"
  where
  "keep_transaction ka kt t = t\<lparr>t_Amount := ka (t_Amount t), t_CreatedAt := kt (t_CreatedAt t)\<rparr>"

lemma keep_payment_sel [simp]:
  "p_ID (keep_payment ka kt p) = p_ID p"
  "p_OrderID (keep_payment ka kt p) = p_OrderID p"
  "p_CustomerID (keep_payment ka kt p) = p_CustomerID p"
  "p_Amount (keep_payment ka kt p) = ka (p_Amount p)"
  "p_Currency (keep_payment ka kt p) = p_Currency p"
  "p_Status (keep_payment ka kt p) = p_Status p"
  "p_Gateway (keep_payment ka kt p) = p_Gateway p"
  "p_IdempotencyKey (keep_payment ka kt p) = p_IdempotencyKey p"
  "p_CorrelationID (keep_payment ka kt p) = p_CorrelationID p"
  "p_CreatedAt (keep_payment ka kt p) = kt (p_CreatedAt p)"
  by (simp_all add: keep_payment_def)

lemma keep_refund_sel [simp]:
  "r_ID (keep_refund ka kt r) = r_ID r"
  "r_PaymentID (keep_refund ka kt r) = r_PaymentID r"
  "r_Amount (keep_refund ka kt r) = ka (r_Amount r)"
  "r_Currency (keep_refund ka kt r) = r_Currency r"
  "r_Status (keep_refund ka kt r) = r_Status r"
  "r_CorrelationID (keep_refund ka kt r) = r_CorrelationID r"
  "r_CreatedAt (keep_refund ka kt r) = kt (r_CreatedAt r)"
  by (simp_all add: keep_refund_def)

lemma keep_transaction_sel [simp]:
  "t_ID (keep_transaction ka kt t) = t_ID t"
  "t_PaymentID (keep_transaction ka kt t) = t_PaymentID t"
  "t_RefundID (keep_transaction ka kt t) = t_RefundID t"
  "t_Type (keep_transaction ka kt t) = t_Type t"
  "t_Amount (keep_transaction ka kt t) = ka (t_Amount t)"
  "t_Success (keep_transaction ka kt t) = t_Success t"
  by (simp_all add: keep_transaction_def)

text \<open>An UPDATE writes every column but the key and the creation time.\<close>

definition replace_payment :: "'d payment \<Rightarrow> 'd payment list \<Rightarrow> 'd payment list" where
  "replace_payment p ps =
     map (\<lambda>q. if p_ID q = p_ID p then p\<lparr>p_CreatedAt := p_CreatedAt q\<rparr> else q) ps"

definition replace_refund :: "'d refund \<Rightarrow> 'd refund list \<Rightarrow> 'd refund list" where
  "replace_refund r rs =
     map (\<lambda>q. if r_ID q = r_ID r then r\<lparr>r_CreatedAt := r_CreatedAt q\<rparr> else q) rs"

lemma map_p_ID_replace [simp]: "map p_ID (replace_payment p ps) = map p_ID ps"
  by (induction ps) (auto simp: replace_payment_def)

lemma map_r_ID_replace [simp]: "map r_ID (replace_refund r rs) = map r_ID rs"
  by (induction rs) (auto simp: replace_refund_def)

lemma replace_payment_fresh:
  "p_ID p \<notin> p_ID ` set ps \<Longrightarrow> replace_payment p ps = ps"
  by (induction ps) (auto simp: replace_payment_def)

lemma replace_refund_fresh:
  "r_ID r \<notin> r_ID ` set rs \<Longrightarrow> replace_refund r rs = rs"
  by (induction rs) (auto simp: replace_refund_def)

lemma replace_payment_append:
  "replace_payment p (ps @ qs) = replace_payment p ps @ replace_payment p qs"
  by (simp add: replace_payment_def)

lemma replace_refund_append:
  "replace_refund r (rs @ qs) = replace_refund r rs @ replace_refund r qs"
  by (simp add: replace_refund_def)

lemma replace_payment_twice:
  "p_ID p = p_ID q \<Longrightarrow> replace_payment p (replace_payment q ps) = replace_payment p ps"
  by (simp add: replace_payment_def)

lemma replace_payment_single [simp]:
  "p_ID p = p_ID q \<Longrightarrow> replace_payment p [q] = [p\<lparr>p_CreatedAt := p_CreatedAt q\<rparr>]"
  by (simp add: replace_payment_def)

lemma replace_refund_single [simp]:
  "r_ID p = r_ID q \<Longrightarrow> replace_refund p [q] = [p\<lparr>r_CreatedAt := r_CreatedAt q\<rparr>]"
  by (simp add: replace_refund_def)

section \<open>Frames\<close>

text \<open>\<open>steps R m\<close>: whatever \<open>m\<close> returns, it relates the world before to the one after;
  \<open>failures R m\<close>: it does so when it returns an error.\<close>

type_synonym ('db, 'x) world_rel = "('db, 'x) world \<Rightarrow> ('db, 'x) world \<Rightarrow> bool"

definition steps :: "('db, 'x) world_rel \<Rightarrow> ('db, 'x, 'a) go \<Rightarrow> bool" where
  "steps R m \<longleftrightarrow> (\<forall>w r w'. m w = (r, w') \<longrightarrow> R w w')"

definition failures :: "('db, 'x) world_rel \<Rightarrow> ('db, 'x, 'a) go \<Rightarrow> bool" where
  "failures R m \<longleftrightarrow> (\<forall>w e w'. m w = (Inl e, w') \<longrightarrow> R w w')"

definition reads :: "('db, 'x) world_rel \<Rightarrow> ('d, 'db, 'x) payment_store \<Rightarrow> bool" where
  "reads R S \<longleftrightarrow>
     (\<forall>i. steps R (st_GetPayment S i)) \<and> (\<forall>i. steps R (st_GetPaymentForUpdate S i)) \<and>
     (\<forall>s. steps R (st_GetPaymentByOrderID S s)) \<and>
     (\<forall>s. steps R (st_GetPaymentByIdempotencyKey S s)) \<and>
     (\<forall>s. steps R (st_GetPaymentsByCustomer S s)) \<and>
     (\<forall>i. steps R (st_GetRefund S i)) \<and> (\<forall>s. steps R (st_GetRefundByCorrelationID S s)) \<and>
     (\<forall>i. steps R (st_GetRefundsByPayment S i))"

definition writes :: "('db, 'x) world_rel \<Rightarrow> ('d, 'db, 'x) payment_store \<Rightarrow> bool" where
  "writes R S \<longleftrightarrow>
     (\<forall>p. steps R (st_CreatePayment S p)) \<and> (\<forall>p. steps R (st_UpdatePayment S p)) \<and>
     (\<forall>r. steps R (st_CreateRefund S r)) \<and> (\<forall>r. steps R (st_UpdateRefund S r)) \<and>
     (\<forall>t. steps R (st_CreateTransaction S t))"

definition write_failures :: "('db, 'x) world_rel \<Rightarrow> ('d, 'db, 'x) payment_store \<Rightarrow> bool" where
  "write_failures R S \<longleftrightarrow>
     (\<forall>p. failures R (st_CreatePayment S p)) \<and> (\<forall>p. failures R (st_UpdatePayment S p)) \<and>
     (\<forall>r. failures R (st_CreateRefund S r)) \<and> (\<forall>r. failures R (st_UpdateRefund S r)) \<and>
     (\<forall>t. failures R (st_CreateTransaction S t))"

text \<open>Database code leaves the gateways' side of the world alone.\<close>

definition quiet :: "('db, 'x) world_rel" where
  "quiet w w' \<longleftrightarrow> w_ext w' = w_ext w \<and> w_tokens w' = w_tokens w \<and> w_rnd w' = w_rnd w \<and>
     w_slept w' = w_slept w"

text \<open>A relation a composed computation can be checked against step by step.\<close>

definition frame_rel :: "('db, 'x) world_rel \<Rightarrow> bool" where
  "frame_rel R \<longleftrightarrow> (\<forall>a b c. R a b \<longrightarrow> R b c \<longrightarrow> R a c) \<and>
     (\<forall>w n m. R w (w\<lparr>w_clk := n\<rparr>) \<and> R w (w\<lparr>w_ids := m\<rparr>)) \<and> (\<forall>w. R w w)"

lemma stepsD: "steps R m \<Longrightarrow> m w = (r, w') \<Longrightarrow> R w w'"
  by (simp add: steps_def)

lemma failuresD: "failures R m \<Longrightarrow> m w = (Inl e, w') \<Longrightarrow> R w w'"
  by (simp add: failures_def)

lemma steps_mono: "steps R m \<Longrightarrow> (\<And>w w'. R w w' \<Longrightarrow> Q w w') \<Longrightarrow> steps Q m"
  by (simp add: steps_def)

lemma frame_trans: "frame_rel R \<Longrightarrow> R a b \<Longrightarrow> R b c \<Longrightarrow> R a c"
  unfolding frame_rel_def by blast

lemma steps_bindE:
  assumes R: "frame_rel R" and m: "steps R m" and f: "\<And>x. steps R (f x)"
  shows "steps R (bindE m f)"
  unfolding steps_def
proof (intro allI impI)
  fix w r w'
  assume run: "bindE m f w = (r, w')"
  obtain r1 w1 where m1: "m w = (r1, w1)" by fastforce
  show "R w w'"
  proof (cases r1)
    case (Inl e)
    with run m1 stepsD [OF m m1] show ?thesis by (simp add: bindE_def)
  next
    case (Inr x)
    with run m1 have "f x w1 = (r, w')" by (simp add: bindE_def)
    with frame_trans [OF R] stepsD [OF m m1] stepsD [OF f] show ?thesis by blast
  qed
qed

lemma steps_returnE: "frame_rel R \<Longrightarrow> steps R (returnE x)"
  by (simp add: steps_def returnE_def frame_rel_def)

lemma steps_failE: "frame_rel R \<Longrightarrow> steps R (failE e)"
  by (simp add: steps_def failE_def frame_rel_def)

lemma steps_with_now:
  assumes R: "frame_rel R" and f: "\<And>t. steps R (f t)"
  shows "steps R (with_now E f)"
  unfolding steps_def with_now_def
proof (intro allI impI)
  fix w r w'
  assume "f (E_now E (w_clk w)) (w\<lparr>w_clk := Suc (w_clk w)\<rparr>) = (r, w')"
  from stepsD [OF f this] R show "R w w'" unfolding frame_rel_def by blast
qed

lemma steps_with_uuid:
  assumes R: "frame_rel R" and f: "\<And>u. steps R (f u)"
  shows "steps R (with_uuid E f)"
  unfolding steps_def with_uuid_def
proof (intro allI impI)
  fix w r w'
  assume "f (E_uuid E (w_ids w)) (w\<lparr>w_ids := Suc (w_ids w)\<rparr>) = (r, w')"
  from stepsD [OF f this] R show "R w w'" unfolding frame_rel_def by blast
qed

lemma steps_if: "steps R m \<Longrightarrow> steps R n \<Longrightarrow> steps R (if b then m else n)"
  by simp

lemmas steps_intros = steps_bindE steps_returnE steps_failE steps_with_now steps_with_uuid steps_if

lemma readsD:
  assumes "reads R S"
  shows "steps R (st_GetPayment S i)" "steps R (st_GetPaymentForUpdate S i)"
    "steps R (st_GetPaymentByOrderID S s)" "steps R (st_GetPaymentByIdempotencyKey S s)"
    "steps R (st_GetPaymentsByCustomer S s)" "steps R (st_GetRefund S i)"
    "steps R (st_GetRefundByCorrelationID S s)" "steps R (st_GetRefundsByPayment S i)"
  using assms by (simp_all add: reads_def)

lemma writesD:
  assumes "writes R S"
  shows "steps R (st_CreatePayment S p)" "steps R (st_UpdatePayment S p)"
    "steps R (st_CreateRefund S r)" "steps R (st_UpdateRefund S r)"
    "steps R (st_CreateTransaction S t)"
  using assms by (simp_all add: writes_def)

lemma reads_both:
  "reads Q S \<Longrightarrow> reads R S \<Longrightarrow> (\<And>w w'. Q w w' \<Longrightarrow> R w w' \<Longrightarrow> P w w') \<Longrightarrow> reads P S"
  by (simp add: reads_def steps_def)

lemma writes_both:
  "writes Q S \<Longrightarrow> writes R S \<Longrightarrow> (\<And>w w'. Q w w' \<Longrightarrow> R w w' \<Longrightarrow> P w w') \<Longrightarrow> writes P S"
  by (simp add: writes_def steps_def)

lemma frame_quiet [simp]: "frame_rel quiet"
  by (simp add: frame_rel_def quiet_def)

lemma frame_db:
  "(\<And>a b c. P a b \<Longrightarrow> P b c \<Longrightarrow> P a c) \<Longrightarrow> (\<And>a. P a a) \<Longrightarrow>
     frame_rel (\<lambda>w w'. P (w_db w) (w_db w'))"
  by (auto simp: frame_rel_def)

section \<open>The contract\<close>

locale ledger_view = decimal_laws D val
  for D :: "'d decimal_ops" and val +
  fixes S :: "('d, 'db, 'x) payment_store"
    and view :: "'db \<Rightarrow> 'd ledger"
    and inv :: "'db \<Rightarrow> bool"
    and of_cents :: "int \<Rightarrow> 'd"
    and kt :: "time \<Rightarrow> time"
  assumes val_of_cents: "val (of_cents n) = of_int n / 10 ^ 4"
    and kt_idem: "kt (kt tm) = kt tm"
    and view_ids: "inv db \<Longrightarrow> distinct (map p_ID (l_payments (view db))) \<and>
      distinct (map r_ID (l_refunds (view db)))"
    and payments_kept: "inv db \<Longrightarrow> p \<in> set (l_payments (view db)) \<Longrightarrow>
      keep_payment (\<lambda>a. of_cents (cents4 (val a))) kt p = p"
    and refunds_kept: "inv db \<Longrightarrow> r \<in> set (l_refunds (view db)) \<Longrightarrow>
      keep_refund (\<lambda>a. of_cents (cents4 (val a))) kt r = r"
    and writes_inv: "writes (\<lambda>w w'. inv (w_db w) \<longrightarrow> inv (w_db w')) S"
    and reads_view: "reads (\<lambda>w w'. inv (w_db w) \<longrightarrow>
      inv (w_db w') \<and> view (w_db w') = view (w_db w)) S"
    and failures_view: "write_failures (\<lambda>w w'. inv (w_db w) \<longrightarrow>
      view (w_db w') = view (w_db w)) S"
    and store_quiet: "reads quiet S" "writes quiet S"

text \<open>The operations on payments, those on refunds, and the whole store.\<close>

locale payments_contract = ledger_view D val S view inv of_cents kt
  for D val S view inv of_cents kt +
  assumes create_payment: "inv (w_db w) \<Longrightarrow> st_CreatePayment S p w = (Inr p', w') \<Longrightarrow>
      (\<exists>i c u. p' = p\<lparr>p_ID := i, p_CreatedAt := c, p_UpdatedAt := Some u\<rparr> \<and>
         (p_ID p \<noteq> 0 \<longrightarrow> i = p_ID p) \<and> (p_CreatedAt p \<noteq> 0 \<longrightarrow> c = p_CreatedAt p)) \<and>
      p_ID p' \<notin> p_ID ` set (l_payments (view (w_db w))) \<and>
      (\<forall>k. p_IdempotencyKey p = Some k \<longrightarrow>
         (\<forall>q \<in> set (l_payments (view (w_db w))). p_IdempotencyKey q \<noteq> Some k)) \<and>
      view (w_db w') = (view (w_db w))\<lparr>l_payments := l_payments (view (w_db w)) @
        [keep_payment (\<lambda>a. of_cents (cents4 (val a))) kt p']\<rparr>"
    and update_payment: "inv (w_db w) \<Longrightarrow> st_UpdatePayment S p w = (Inr p', w') \<Longrightarrow>
      (\<exists>u. p' = p\<lparr>p_UpdatedAt := Some u\<rparr>) \<and>
      p_ID p \<in> p_ID ` set (l_payments (view (w_db w))) \<and>
      view (w_db w') = (view (w_db w))\<lparr>l_payments := replace_payment
        (keep_payment (\<lambda>a. of_cents (cents4 (val a))) kt p') (l_payments (view (w_db w)))\<rparr>"
    and get_payment: "inv (w_db w) \<Longrightarrow> st_GetPayment S i w = (Inr p, w') \<Longrightarrow>
      p \<in> set (l_payments (view (w_db w))) \<and> p_ID p = i"
    and get_payment_none: "inv (w_db w) \<Longrightarrow> st_GetPayment S i w = (Inl e, w') \<Longrightarrow>
      errors_Is e ErrNoRows \<Longrightarrow> i \<notin> p_ID ` set (l_payments (view (w_db w)))"
    and get_payment_for_update: "inv (w_db w) \<Longrightarrow> st_GetPaymentForUpdate S i w = (Inr p, w') \<Longrightarrow>
      p \<in> set (l_payments (view (w_db w))) \<and> p_ID p = i"
    and get_payment_by_order: "inv (w_db w) \<Longrightarrow> st_GetPaymentByOrderID S s w = (Inr p, w') \<Longrightarrow>
      p \<in> set (l_payments (view (w_db w))) \<and> p_OrderID p = s \<and>
      (\<forall>q \<in> set (l_payments (view (w_db w))). p_OrderID q = s \<longrightarrow> p_CreatedAt q \<le> p_CreatedAt p)"
    and get_payment_by_order_none: "inv (w_db w) \<Longrightarrow>
      st_GetPaymentByOrderID S s w = (Inl e, w') \<Longrightarrow> errors_Is e ErrNoRows \<Longrightarrow>
      s \<notin> p_OrderID ` set (l_payments (view (w_db w)))"
    and get_payment_by_key: "inv (w_db w) \<Longrightarrow>
      st_GetPaymentByIdempotencyKey S s w = (Inr p, w') \<Longrightarrow>
      p \<in> set (l_payments (view (w_db w))) \<and> p_IdempotencyKey p = Some s"
    and get_payment_by_key_none: "inv (w_db w) \<Longrightarrow>
      st_GetPaymentByIdempotencyKey S s w = (Inl e, w') \<Longrightarrow> errors_Is e ErrNoRows \<Longrightarrow>
      Some s \<notin> p_IdempotencyKey ` set (l_payments (view (w_db w)))"
    and get_payments_by_customer: "inv (w_db w) \<Longrightarrow>
      st_GetPaymentsByCustomer S s w = (Inr ps, w') \<Longrightarrow>
      mset ps = mset (filter (\<lambda>p. p_CustomerID p = s) (l_payments (view (w_db w)))) \<and>
      sorted_wrt (\<lambda>p q. p_CreatedAt q \<le> p_CreatedAt p) ps"

locale refunds_contract = ledger_view D val S view inv of_cents kt
  for D val S view inv of_cents kt +
  assumes create_refund: "inv (w_db w) \<Longrightarrow> st_CreateRefund S r w = (Inr r', w') \<Longrightarrow>
      (\<exists>i c. r' = r\<lparr>r_ID := i, r_CreatedAt := c\<rparr> \<and>
         (r_ID r \<noteq> 0 \<longrightarrow> i = r_ID r) \<and> (r_CreatedAt r \<noteq> 0 \<longrightarrow> c = r_CreatedAt r)) \<and>
      r_ID r' \<notin> r_ID ` set (l_refunds (view (w_db w))) \<and>
      r_PaymentID r \<in> p_ID ` set (l_payments (view (w_db w))) \<and>
      view (w_db w') = (view (w_db w))\<lparr>l_refunds := l_refunds (view (w_db w)) @
        [keep_refund (\<lambda>a. of_cents (cents4 (val a))) kt r']\<rparr>"
    and update_refund: "inv (w_db w) \<Longrightarrow> st_UpdateRefund S r w = (Inr r', w') \<Longrightarrow>
      r' = r \<and> r_ID r \<in> r_ID ` set (l_refunds (view (w_db w))) \<and>
      view (w_db w') = (view (w_db w))\<lparr>l_refunds := replace_refund
        (keep_refund (\<lambda>a. of_cents (cents4 (val a))) kt r) (l_refunds (view (w_db w)))\<rparr>"
    and get_refund: "inv (w_db w) \<Longrightarrow> st_GetRefund S i w = (Inr r, w') \<Longrightarrow>
      r \<in> set (l_refunds (view (w_db w))) \<and> r_ID r = i"
    and get_refund_none: "inv (w_db w) \<Longrightarrow> st_GetRefund S i w = (Inl e, w') \<Longrightarrow>
      errors_Is e ErrNoRows \<Longrightarrow> i \<notin> r_ID ` set (l_refunds (view (w_db w)))"
    and get_refund_by_correlation: "inv (w_db w) \<Longrightarrow>
      st_GetRefundByCorrelationID S s w = (Inr r, w') \<Longrightarrow>
      r \<in> set (l_refunds (view (w_db w))) \<and> r_CorrelationID r = Some s"
    and get_refund_by_correlation_none: "inv (w_db w) \<Longrightarrow>
      st_GetRefundByCorrelationID S s w = (Inl e, w') \<Longrightarrow> errors_Is e ErrNoRows \<Longrightarrow>
      Some s \<notin> r_CorrelationID ` set (l_refunds (view (w_db w)))"
    and get_refunds_by_payment: "inv (w_db w) \<Longrightarrow>
      st_GetRefundsByPayment S i w = (Inr rs, w') \<Longrightarrow>
      mset rs = mset (filter (\<lambda>r. r_PaymentID r = i) (l_refunds (view (w_db w)))) \<and>
      sorted_wrt (\<lambda>p q. r_CreatedAt q \<le> r_CreatedAt p) rs"

locale payment_store_contract =
  payments_contract D val S view inv of_cents kt + refunds_contract D val S view inv of_cents kt
  for D :: "'d decimal_ops" and val and S :: "('d, 'db, 'x) payment_store"
    and view :: "'db \<Rightarrow> 'd ledger" and inv and of_cents and kt +
  assumes create_transaction: "inv (w_db w) \<Longrightarrow> st_CreateTransaction S t w = (Inr t', w') \<Longrightarrow>
      (\<exists>i c. t' = t\<lparr>t_ID := i, t_CreatedAt := c\<rparr>) \<and>
      view (w_db w') = (view (w_db w))\<lparr>l_txs := l_txs (view (w_db w)) @
        [keep_transaction (\<lambda>a. of_cents (cents4 (val a))) kt t']\<rparr>"
begin

abbreviation ka :: "'d \<Rightarrow> 'd" where
  "ka a \<equiv> of_cents (cents4 (val a))"

lemma val_ka: "val (ka a) = of_int (cents4 (val a)) / 10 ^ 4"
  by (rule val_of_cents)

lemma ka_idem: "ka (ka a) = ka a"
  by (simp add: val_of_cents cents4_def)

lemma keep_payment_idem: "keep_payment ka kt (keep_payment ka kt p) = keep_payment ka kt p"
  by (simp add: keep_payment_def ka_idem kt_idem option.map_comp comp_def)

lemma keep_refund_idem: "keep_refund ka kt (keep_refund ka kt r) = keep_refund ka kt r"
  by (simp add: keep_refund_def ka_idem kt_idem option.map_comp comp_def)

lemma row_unique:
  assumes "inv db" "p \<in> set (l_payments (view db))" "q \<in> set (l_payments (view db))"
    and "p_ID p = p_ID q"
  shows "p = q"
  using view_ids [OF assms(1)] assms(2-) by (auto simp: distinct_map dest: inj_onD)

lemma get_view:
  assumes "inv (w_db w)"
  shows "st_GetPayment S i w = (rp, w') \<Longrightarrow> inv (w_db w') \<and> view (w_db w') = view (w_db w)"
    and "st_GetPaymentForUpdate S i w = (rp, w') \<Longrightarrow>
      inv (w_db w') \<and> view (w_db w') = view (w_db w)"
    and "st_GetPaymentByOrderID S s w = (rp, w') \<Longrightarrow>
      inv (w_db w') \<and> view (w_db w') = view (w_db w)"
    and "st_GetPaymentByIdempotencyKey S s w = (rp, w') \<Longrightarrow>
      inv (w_db w') \<and> view (w_db w') = view (w_db w)"
    and "st_GetPaymentsByCustomer S s w = (rps, w') \<Longrightarrow>
      inv (w_db w') \<and> view (w_db w') = view (w_db w)"
    and "st_GetRefund S i w = (rr, w') \<Longrightarrow> inv (w_db w') \<and> view (w_db w') = view (w_db w)"
    and "st_GetRefundByCorrelationID S s w = (rr, w') \<Longrightarrow>
      inv (w_db w') \<and> view (w_db w') = view (w_db w)"
    and "st_GetRefundsByPayment S i w = (rrs, w') \<Longrightarrow>
      inv (w_db w') \<and> view (w_db w') = view (w_db w)"
  using assms by (auto dest!: readsD [OF reads_view, THEN stepsD])

lemma put_inv:
  assumes "inv (w_db w)"
  shows "st_CreatePayment S p w = (rp, w') \<Longrightarrow> inv (w_db w')"
    and "st_UpdatePayment S p w = (rp, w') \<Longrightarrow> inv (w_db w')"
    and "st_CreateRefund S r w = (rr, w') \<Longrightarrow> inv (w_db w')"
    and "st_UpdateRefund S r w = (rr, w') \<Longrightarrow> inv (w_db w')"
    and "st_CreateTransaction S t w = (rt, w') \<Longrightarrow> inv (w_db w')"
  using assms by (auto dest!: writesD [OF writes_inv, THEN stepsD])

end

section \<open>Transactions\<close>

text \<open>\<open>snap\<close> is the ledger as it was when the running transaction began.\<close>

locale transactional_store =
  payment_store_contract D val S view inv of_cents kt +
  tx: payment_store_contract D val "tr_store T" view inv of_cents kt
  for D :: "'d decimal_ops" and val and S :: "('d, 'db, 'x) payment_store"
    and view :: "'db \<Rightarrow> 'd ledger" and inv and of_cents and kt
    and T :: "('d, 'db, 'x) tx_runner" +
  fixes snap :: "'db \<Rightarrow> 'd ledger"
  assumes tx_snap: "reads (\<lambda>w w'. snap (w_db w') = snap (w_db w)) (tr_store T)"
      "writes (\<lambda>w w'. snap (w_db w') = snap (w_db w)) (tr_store T)"
    and begin_ok: "inv (w_db w) \<Longrightarrow> tr_begin T w = (Inr u, w') \<Longrightarrow>
      inv (w_db w') \<and> view (w_db w') = view (w_db w) \<and> snap (w_db w') = view (w_db w)"
    and begin_fail: "inv (w_db w) \<Longrightarrow> tr_begin T w = (Inl e, w') \<Longrightarrow>
      inv (w_db w') \<and> view (w_db w') = view (w_db w)"
    and commit_ok: "inv (w_db w) \<Longrightarrow> tr_commit T w = (Inr u, w') \<Longrightarrow>
      inv (w_db w') \<and> view (w_db w') = view (w_db w)"
    and commit_fail: "inv (w_db w) \<Longrightarrow> tr_commit T w = (Inl e, w') \<Longrightarrow>
      inv (w_db w') \<and> view (w_db w') = snap (w_db w)"
    and rollback: "inv (w_db w) \<Longrightarrow> tr_rollback T w = (ru, w') \<Longrightarrow>
      inv (w_db w') \<and> view (w_db w') = snap (w_db w)"
    and tx_quiet: "steps quiet (tr_begin T)" "steps quiet (tr_commit T)"
      "steps quiet (tr_rollback T)"
begin

definition in_tx :: "('db, 'x) world_rel" where
  "in_tx w w' \<longleftrightarrow> (inv (w_db w) \<longrightarrow> inv (w_db w')) \<and> snap (w_db w') = snap (w_db w)"

lemma frame_in_tx [simp]: "frame_rel in_tx"
  by (auto simp: frame_rel_def in_tx_def)

lemma tx_store_in_tx: "reads in_tx (tr_store T)" "writes in_tx (tr_store T)"
  by (rule reads_both [OF tx_snap(1) tx.reads_view], simp add: in_tx_def)
    (rule writes_both [OF tx_snap(2) tx.writes_inv], simp add: in_tx_def)

lemma RunInTx_Inl:
  assumes inv: "inv (w_db w)" and run: "RunInTx T fn w = (Inl e, w')"
    and fn: "steps in_tx (fn (tr_store T))"
  shows "inv (w_db w') \<and> view (w_db w') = view (w_db w)"
proof (cases "tr_begin T w")
  case (Pair r w1)
  show ?thesis
  proof (cases r)
    case (Inl e1)
    with Pair run begin_fail [OF inv] show ?thesis by (auto simp: RunInTx_def bindE_def)
  next
    case (Inr u)
    with Pair begin_ok [OF inv] have b: "inv (w_db w1)" "view (w_db w1) = view (w_db w)"
      "snap (w_db w1) = view (w_db w)" by auto
    obtain r2 w2 where r2: "fn (tr_store T) w1 = (r2, w2)" by fastforce
    with stepsD [OF fn r2] b have c: "inv (w_db w2)" "snap (w_db w2) = view (w_db w)"
      by (auto simp: in_tx_def)
    show ?thesis
      using run Pair Inr r2 rollback [OF c(1)] commit_fail [OF c(1)] c(2)
      by (fastforce simp: RunInTx_def bindE_def split: sum.splits prod.splits)
  qed
qed

lemma RunInTx_Inr:
  assumes inv: "inv (w_db w)" and run: "RunInTx T fn w = (Inr x, w')"
    and fn: "steps in_tx (fn (tr_store T))"
  obtains w1 w2 where "inv (w_db w1)" "view (w_db w1) = view (w_db w)"
    "fn (tr_store T) w1 = (Inr x, w2)" "inv (w_db w2)" "inv (w_db w')"
    "view (w_db w') = view (w_db w2)" "quiet w w1" "quiet w2 w'"
proof -
  obtain u w1 where b: "tr_begin T w = (Inr u, w1)"
    and rest: "(case fn (tr_store T) w1 of
         (Inl err, w1) \<Rightarrow>
           (case tr_rollback T w1 of
              (Inl rbErr, w2) \<Rightarrow> (Inl (rollback_failed err rbErr), w2)
            | (Inr _, w2) \<Rightarrow> (Inl err, w2))
       | (Inr x, w1) \<Rightarrow> bindE (tr_commit T) (\<lambda>_. returnE x) w1) = (Inr x, w')"
    using run unfolding RunInTx_def bindE_Inr by blast
  from rest obtain w2 v where f: "fn (tr_store T) w1 = (Inr x, w2)"
    and c: "tr_commit T w2 = (Inr v, w')"
    by (auto simp: bindE_Inr split: prod.splits sum.splits)
  have i1: "inv (w_db w1)" "view (w_db w1) = view (w_db w)"
    using begin_ok [OF inv b] by auto
  with stepsD [OF fn f] have i2: "inv (w_db w2)" by (simp add: in_tx_def)
  from commit_ok [OF i2 c] that i1 f i2 stepsD [OF tx_quiet(1) b] stepsD [OF tx_quiet(2) c]
  show thesis by blast
qed

lemma commit_quiet: "steps quiet (bindE (tr_commit T) (\<lambda>_. returnE x))"
  by (intro steps_bindE frame_quiet tx_quiet steps_returnE)

lemma RunInTx_quiet:
  assumes "steps quiet (fn (tr_store T))"
  shows "steps quiet (RunInTx T fn)"
  unfolding RunInTx_def
proof (rule steps_bindE [OF frame_quiet tx_quiet(1)])
  fix u :: unit
  show "steps quiet (\<lambda>w. case fn (tr_store T) w of
         (Inl err, w1) \<Rightarrow>
           (case tr_rollback T w1 of
              (Inl rbErr, w2) \<Rightarrow> (Inl (rollback_failed err rbErr), w2)
            | (Inr _, w2) \<Rightarrow> (Inl err, w2))
       | (Inr x, w1) \<Rightarrow> bindE (tr_commit T) (\<lambda>_. returnE x) w1)"
    unfolding steps_def
  proof (intro allI impI)
    fix w r w'
    assume run: "(case fn (tr_store T) w of
         (Inl err, w1) \<Rightarrow>
           (case tr_rollback T w1 of
              (Inl rbErr, w2) \<Rightarrow> (Inl (rollback_failed err rbErr), w2)
            | (Inr _, w2) \<Rightarrow> (Inl err, w2))
       | (Inr x, w1) \<Rightarrow> bindE (tr_commit T) (\<lambda>_. returnE x) w1) = (r, w')"
    obtain r1 w1 where f: "fn (tr_store T) w = (r1, w1)" by fastforce
    obtain rr w2 where rb: "tr_rollback T w1 = (rr, w2)" by fastforce
    have "quiet w1 w'"
      using run f rb stepsD [OF tx_quiet(3) rb]
      by (auto split: sum.splits dest: stepsD [OF commit_quiet])
    with stepsD [OF assms f] show "quiet w w'" by (simp add: quiet_def)
  qed
qed

end

end
