(* ===== verification/Gateway_Api.thy ===== *)
theory Gateway_Api
  imports Runtime
begin

text \<open>
  \<open>go/internal/gateway/dto.go\<close> and \<open>gateway.go\<close>: the messages exchanged with a payment
  gateway, the \<open>PaymentGateway\<close> interface as a record of functions, and the \<open>Router\<close> that
  finds a gateway by its name, case-insensitively.  The contract every gateway keeps towards
  the services is the locale \<open>gateway_contract\<close>.
\<close>

section \<open>Messages\<close>

record 'd gateway_payment_request =
  gq_OrderID :: string
  gq_CustomerID :: string
  gq_Amount :: 'd
  gq_Currency :: string
  gq_PaymentMethodToken :: string
  gq_CardNumber :: string
  gq_CardExpMonth :: string
  gq_CardExpYear :: string
  gq_CardCVC :: string
  gq_CardholderName :: string
  gq_BillingEmail :: string
  gq_BillingAddressLine1 :: string
  gq_BillingAddressLine2 :: string
  gq_BillingCity :: string
  gq_BillingState :: string
  gq_BillingPostalCode :: string
  gq_BillingCountry :: string
  gq_Description :: string
  gq_IdempotencyKey :: string
  gq_CorrelationID :: string

record payment_result =
  pr_Success :: bool
  pr_TransactionID :: string
  pr_PaymentIntentID :: string
  pr_Status :: string
  pr_CardLast4 :: string
  pr_CardBrand :: string
  pr_ErrorCode :: string
  pr_ErrorMessage :: string
  pr_RawResponse :: string

record 'd gateway_refund_request =
  rq_PaymentTransactionID :: string
  rq_PaymentIntentID :: string
  rq_Amount :: 'd
  rq_Currency :: string
  rq_Reason :: string
  rq_IdempotencyKey :: string
  rq_CorrelationID :: string

record refund_result =
  rr_Success :: bool
  rr_RefundID :: string
  rr_Status :: string
  rr_ErrorCode :: string
  rr_ErrorMessage :: string
  rr_RawResponse :: string

record tokenize_request =
  tq_CustomerID :: string
  tq_CardNumber :: string
  tq_CardExpMonth :: string
  tq_CardExpYear :: string
  tq_CardCVC :: string
  tq_CardholderName :: string
  tq_BillingEmail :: string
  tq_BillingAddressLine1 :: string
  tq_BillingCity :: string
  tq_BillingState :: string
  tq_BillingPostalCode :: string
  tq_BillingCountry :: string

record tokenize_result =
  tr_Success :: bool
  tr_Token :: string
  tr_Last4 :: string
  tr_Brand :: string
  tr_ExpMonth :: string
  tr_ExpYear :: string
  tr_ErrorCode :: string
  tr_ErrorMessage :: string

definition PaymentResultFailure :: "string \<Rightarrow> string \<Rightarrow> payment_result" where
  "PaymentResultFailure code message =
     \<lparr>pr_Success = False, pr_TransactionID = [], pr_PaymentIntentID = [], pr_Status = ''failed'',
      pr_CardLast4 = [], pr_CardBrand = [], pr_ErrorCode = code, pr_ErrorMessage = message,
      pr_RawResponse = []\<rparr>"

definition RefundResultFailure :: "string \<Rightarrow> string \<Rightarrow> refund_result" where
  "RefundResultFailure code message =
     \<lparr>rr_Success = False, rr_RefundID = [], rr_Status = ''failed'', rr_ErrorCode = code,
      rr_ErrorMessage = message, rr_RawResponse = []\<rparr>"

definition TokenizeResultFailure :: "string \<Rightarrow> string \<Rightarrow> tokenize_result" where
  "TokenizeResultFailure code message =
     \<lparr>tr_Success = False, tr_Token = [], tr_Last4 = [], tr_Brand = [], tr_ExpMonth = [],
      tr_ExpYear = [], tr_ErrorCode = code, tr_ErrorMessage = message\<rparr>"

lemmas result_failure_defs = PaymentResultFailure_def RefundResultFailure_def
  TokenizeResultFailure_def

section \<open>The gateway interface\<close>

record ('d, 'db, 'x) payment_gateway =
  gw_GetName :: string
  gw_IsEnabled :: bool
  gw_ProcessPayment :: "'d gateway_payment_request \<Rightarrow> ('db, 'x) world \<Rightarrow>
    payment_result \<times> ('db, 'x) world"
  gw_ProcessRefund :: "'d gateway_refund_request \<Rightarrow> ('db, 'x) world \<Rightarrow>
    refund_result \<times> ('db, 'x) world"
  gw_Tokenize :: "tokenize_request \<Rightarrow> ('db, 'x) world \<Rightarrow> tokenize_result \<times> ('db, 'x) world"
  gw_DeleteToken :: "string \<Rightarrow> ('db, 'x) world \<Rightarrow> bool \<times> ('db, 'x) world"
  gw_SupportsRecurring :: bool
  gw_SupportsPartialRefund :: bool

text \<open>A gateway works outside the service's database, and its results are of two shapes: a
  completed one without an error, or a failed one without a transaction.\<close>

locale gateway_contract =
  fixes g :: "('d, 'db, 'x) payment_gateway"
  assumes payment_db: "gw_ProcessPayment g q w = (res, w') \<Longrightarrow> w_db w' = w_db w"
    and refund_db: "gw_ProcessRefund g rq w = (rres, w') \<Longrightarrow> w_db w' = w_db w"
    and tokenize_db: "gw_Tokenize g tq w = (tres, w') \<Longrightarrow> w_db w' = w_db w"
    and delete_db: "gw_DeleteToken g tok w = (b, w') \<Longrightarrow> w_db w' = w_db w"
    and payment_success: "gw_ProcessPayment g q w = (res, w') \<Longrightarrow> pr_Success res \<Longrightarrow>
      pr_Status res = ''completed'' \<and> pr_ErrorCode res = [] \<and> pr_ErrorMessage res = []"
    and payment_failure: "gw_ProcessPayment g q w = (res, w') \<Longrightarrow> \<not> pr_Success res \<Longrightarrow>
      \<exists>code message. res = PaymentResultFailure code message"
    and refund_success: "gw_ProcessRefund g rq w = (rres, w') \<Longrightarrow> rr_Success rres \<Longrightarrow>
      rr_Status rres = ''completed'' \<and> rr_ErrorCode rres = [] \<and> rr_ErrorMessage rres = []"
    and refund_failure: "gw_ProcessRefund g rq w = (rres, w') \<Longrightarrow> \<not> rr_Success rres \<Longrightarrow>
      \<exists>code message. rres = RefundResultFailure code message"
begin

lemma failed_payment_fields:
  "gw_ProcessPayment g q w = (res, w') \<Longrightarrow> \<not> pr_Success res \<Longrightarrow>
     pr_TransactionID res = [] \<and> pr_CardLast4 res = [] \<and> pr_Status res = ''failed''"
  using payment_failure by (fastforce simp: PaymentResultFailure_def)

lemma failed_refund_fields:
  "gw_ProcessRefund g rq w = (rres, w') \<Longrightarrow> \<not> rr_Success rres \<Longrightarrow>
     rr_RefundID rres = [] \<and> rr_Status rres = ''failed''"
  using refund_failure by (fastforce simp: RefundResultFailure_def)

end

section \<open>The router\<close>

record ('d, 'db, 'x) router =
  rt_gateways :: "string \<rightharpoonup> ('d, 'db, 'x) payment_gateway"
  rt_defaultGatewayName :: string

text \<open>\<open>NewRouter\<close>: a nil gateway is skipped, a later gateway replaces an earlier one of the
  same name.\<close>

definition register :: "'d env \<Rightarrow> ('d, 'db, 'x) payment_gateway option \<Rightarrow>
    (string \<rightharpoonup> ('d, 'db, 'x) payment_gateway) \<Rightarrow> (string \<rightharpoonup> ('d, 'db, 'x) payment_gateway)" where
  "register E gateway m =
     (case gateway of None \<Rightarrow> m | Some g \<Rightarrow> m(ToLower (E_lower E) (gw_GetName g) \<mapsto> g))"

definition NewRouter :: "'d env \<Rightarrow> string \<Rightarrow> ('d, 'db, 'x) payment_gateway option list \<Rightarrow>
    ('d, 'db, 'x) router" where
  "NewRouter E defaultGatewayName gateways =
     \<lparr>rt_gateways = fold (register E) gateways Map.empty,
      rt_defaultGatewayName = defaultGatewayName\<rparr>"

definition GetGateway :: "'d env \<Rightarrow> ('d, 'db, 'x) router \<Rightarrow> string \<Rightarrow>
    go_error + ('d, 'db, 'x) payment_gateway" where
  "GetGateway E r name =
     (case rt_gateways r (ToLower (E_lower E) name) of
        None \<Rightarrow> Inl (ErrText (''unknown gateway: '' @ name))
      | Some gateway \<Rightarrow>
          if \<not> gw_IsEnabled gateway then Inl (ErrText (''gateway is not enabled: '' @ name))
          else Inr gateway)"

definition GetDefaultGateway :: "'d env \<Rightarrow> ('d, 'db, 'x) router \<Rightarrow>
    go_error + ('d, 'db, 'x) payment_gateway" where
  "GetDefaultGateway E r = GetGateway E r (rt_defaultGatewayName r)"

definition GetGatewayOrDefault :: "'d env \<Rightarrow> ('d, 'db, 'x) router \<Rightarrow> string \<Rightarrow>
    go_error + ('d, 'db, 'x) payment_gateway" where
  "GetGatewayOrDefault E r name =
     (if blank name then GetDefaultGateway E r else GetGateway E r name)"

definition IsGatewayAvailable :: "'d env \<Rightarrow> ('d, 'db, 'x) router \<Rightarrow> string \<Rightarrow> bool" where
  "IsGatewayAvailable E r name =
     (case rt_gateways r (ToLower (E_lower E) name) of
        None \<Rightarrow> False
      | Some gateway \<Rightarrow> gw_IsEnabled gateway)"

lemma register_simps [simp]:
  "register E None m = m"
  "register E (Some g) m = m(ToLower (E_lower E) (gw_GetName g) \<mapsto> g)"
  by (simp_all add: register_def)

lemma fold_register:
  "fold (register E) gs m k =
     (case find (\<lambda>g. ToLower (E_lower E) (gw_GetName g) = k) (rev (List.map_filter (\<lambda>g. g) gs)) of
        Some g \<Rightarrow> Some g | None \<Rightarrow> m k)"
proof (induction gs arbitrary: m)
  case Nil
  then show ?case by simp
next
  case (Cons g gs)
  show ?case
  proof (cases g)
    case None
    then show ?thesis by (simp add: Cons)
  next
    case (Some h)
    have "find P (xs @ [y]) = (case find P xs of Some z \<Rightarrow> Some z | None \<Rightarrow> if P y then Some y else None)"
      for P :: "('a, 'b, 'c) payment_gateway \<Rightarrow> bool" and xs y
      by (induction xs) simp_all
    with Some show ?thesis by (simp add: Cons split: option.split)
  qed
qed

lemma GetGateway_Inr:
  "GetGateway E r name = Inr g \<longleftrightarrow>
     rt_gateways r (ToLower (E_lower E) name) = Some g \<and> gw_IsEnabled g"
  by (auto simp: GetGateway_def split: option.splits)

lemma GetGateway_available:
  "(\<exists>g. GetGateway E r name = Inr g) \<longleftrightarrow> IsGatewayAvailable E r name"
  by (auto simp: GetGateway_def IsGatewayAvailable_def split: option.splits)

lemma NewRouter_gateways:
  "rt_gateways (NewRouter E d gs) k =
     find (\<lambda>g. ToLower (E_lower E) (gw_GetName g) = k) (rev (List.map_filter (\<lambda>g. g) gs))"
  by (simp add: NewRouter_def fold_register split: option.split)

text \<open>A router all of whose gateways keep the contract.\<close>

definition router_ok :: "('d, 'db, 'x) router \<Rightarrow> bool" where
  "router_ok r \<longleftrightarrow> (\<forall>k g. rt_gateways r k = Some g \<longrightarrow> gateway_contract g)"

lemma router_okD: "router_ok r \<Longrightarrow> GetGateway E r name = Inr g \<Longrightarrow> gateway_contract g"
  by (auto simp: router_ok_def GetGateway_Inr)

lemma router_ok_default:
  "router_ok r \<Longrightarrow> GetGatewayOrDefault E r name = Inr g \<Longrightarrow> gateway_contract g"
  by (auto simp: GetGatewayOrDefault_def GetDefaultGateway_def dest: router_okD split: if_splits)

lemma NewRouter_ok:
  "(\<And>g. Some g \<in> set gs \<Longrightarrow> gateway_contract g) \<Longrightarrow> router_ok (NewRouter E d gs)"
  by (auto simp: router_ok_def NewRouter_gateways List.map_filter_def dest!: find_SomeD)

section \<open>The gateway a request gets\<close>

text \<open>
  C31.  A name resolves to a gateway exactly when the last of the gateways registered under it,
  compared without regard to case, is enabled; the gateway is that one.
\<close>

theorem router_lookup:
  "(GetGateway E (NewRouter E d gs) name = Inr g) =
     (find (\<lambda>g. ToLower (E_lower E) (gw_GetName g) = ToLower (E_lower E) name)
        (rev (List.map_filter (\<lambda>g. g) gs)) = Some g \<and> gw_IsEnabled g)"
  by (simp add: GetGateway_Inr NewRouter_gateways)

end
