(* ===== verification/Dto.thy ===== *)
theory Dto
  imports Domain
begin

text \<open>
  \<open>go/internal/payment/dto.go\<close>: the request and response bodies of the API, and the mapping
  of a row to its response.  A response is a record of the JSON fields; a \<open>*string\<close> is an
  option.  Times are written with \<open>time.RFC3339Nano\<close> in UTC, which is modelled on the
  proleptic Gregorian calendar of Go's \<open>time\<close> package.
\<close>

section \<open>Requests\<close>

record 'd process_payment_request =
  pq_OrderID :: string
  pq_CustomerID :: string
  pq_Amount :: 'd
  pq_Currency :: string
  pq_Gateway :: string
  pq_PaymentMethodID :: string
  pq_CardNumber :: string
  pq_CardExpMonth :: string
  pq_CardExpYear :: string
  pq_CardCvc :: string
  pq_CardholderName :: string
  pq_BillingEmail :: string
  pq_BillingAddressLine1 :: string
  pq_BillingAddressLine2 :: string
  pq_BillingCity :: string
  pq_BillingState :: string
  pq_BillingPostalCode :: string
  pq_BillingCountry :: string
  pq_IdempotencyKey :: string

record 'd refund_request =
  fq_Amount :: 'd
  fq_Reason :: string

section \<open>Time stamps\<close>

definition is_leap :: "int \<Rightarrow> bool" where
  "is_leap y \<longleftrightarrow> y mod 4 = 0 \<and> (y mod 100 \<noteq> 0 \<or> y mod 400 = 0)"

definition month_lengths :: "int \<Rightarrow> int list" where
  "month_lengths y =
     [31, if is_leap y then 29 else 28, 31, 30, 31, 30, 31, 31, 30, 31, 30, 31]"

fun month_day :: "nat \<Rightarrow> int \<Rightarrow> int list \<Rightarrow> nat \<times> int" where
  "month_day m d [] = (m, d + 1)"
| "month_day m d (l # ls) = (if d < l then (m, d + 1) else month_day (Suc m) (d - l) ls)"

text \<open>Days since 1 January of year 1 to the year and the day in the year: cycles of 400, 100, 4
  and 1 years, where the last century of 400 years and the last year of 4 are longer.\<close>

definition year_yday :: "int \<Rightarrow> int \<times> int" where
  "year_yday days =
     (let n400 = days div 146097; d = days mod 146097;
          n100 = min 3 (d div 36524); d = d - 36524 * n100;
          n4 = d div 1461; d = d - 1461 * n4;
          n1 = min 3 (d div 365); d = d - 365 * n1
      in (400 * n400 + 100 * n100 + 4 * n4 + n1 + 1, d))"

definition civil :: "int \<Rightarrow> int \<times> nat \<times> int" where
  "civil days = (let (y, d) = year_yday days; (m, dd) = month_day 1 d (month_lengths y)
     in (y, m, dd))"

definition pad :: "nat \<Rightarrow> int \<Rightarrow> string" where
  "pad k n = digits_fixed k (nat n)"

definition year_text :: "int \<Rightarrow> string" where
  "year_text y =
     (if y < 0 then ''-'' else []) @
     (if \<bar>y\<bar> < 10000 then pad 4 \<bar>y\<bar> else nat_text (nat \<bar>y\<bar>))"

definition fraction_text :: "int \<Rightarrow> string" where
  "fraction_text ns =
     (let ds = rev (dropWhile (\<lambda>c. c = CHR ''0'') (rev (pad 9 ns)))
      in if ds = [] then [] else CHR ''.'' # ds)"

definition rfc3339_nano :: "time \<Rightarrow> string" where
  "rfc3339_nano t =
     (let secs = t div 1000000000; ns = t mod 1000000000;
          (y, m, d) = civil (secs div 86400); s = secs mod 86400
      in year_text y @ ''-'' @ pad 2 (int m) @ ''-'' @ pad 2 d @ ''T'' @
         pad 2 (s div 3600) @ '':'' @ pad 2 (s mod 3600 div 60) @ '':'' @ pad 2 (s mod 60) @
         fraction_text ns @ ''Z'')"

section \<open>Responses\<close>

record 'd payment_response =
  ps_ID :: uuid
  ps_OrderID :: string
  ps_CustomerID :: string
  ps_Amount :: 'd
  ps_Currency :: string
  ps_Status :: payment_status
  ps_Gateway :: string
  ps_GatewayTransactionID :: "string option"
  ps_CardLast4 :: "string option"
  ps_CardBrand :: "string option"
  ps_FailureReason :: "string option"
  ps_CreatedAt :: "string option"
  ps_CompletedAt :: "string option"

record 'd refund_response =
  rs_ID :: uuid
  rs_PaymentID :: uuid
  rs_Amount :: 'd
  rs_Currency :: string
  rs_Status :: refund_status
  rs_Reason :: "string option"

definition stringPtr :: "time \<Rightarrow> string option" where
  "stringPtr t = Some (rfc3339_nano t)"

definition timePtrOrNil :: "time option \<Rightarrow> string option" where
  "timePtrOrNil nt = (case nt of None \<Rightarrow> None | Some t \<Rightarrow> Some (rfc3339_nano t))"

definition PaymentResponseFrom :: "'d payment \<Rightarrow> 'd payment_response" where
  "PaymentResponseFrom p =
     \<lparr>ps_ID = p_ID p, ps_OrderID = p_OrderID p, ps_CustomerID = p_CustomerID p,
      ps_Amount = p_Amount p, ps_Currency = p_Currency p, ps_Status = p_Status p,
      ps_Gateway = p_Gateway p, ps_GatewayTransactionID = p_GatewayTransactionID p,
      ps_CardLast4 = p_CardLast4 p, ps_CardBrand = p_CardBrand p,
      ps_FailureReason = p_FailureReason p, ps_CreatedAt = stringPtr (p_CreatedAt p),
      ps_CompletedAt = timePtrOrNil (p_CompletedAt p)\<rparr>"

definition RefundResponseFrom :: "'d refund \<Rightarrow> 'd refund_response" where
  "RefundResponseFrom r =
     \<lparr>rs_ID = r_ID r, rs_PaymentID = r_PaymentID r, rs_Amount = r_Amount r,
      rs_Currency = r_Currency r, rs_Status = r_Status r, rs_Reason = r_Reason r\<rparr>"

end
