(* ===== verification/Payment_Service.thy ===== *)
theory Payment_Service
  imports Payment_Store Gateway_Api Dto
begin

text \<open>
  \<open>go/internal/payment/service.go\<close>: the payment service over the store interface and the
  router.  The operations come first, in the order of the file; then what they do to the ledger,
  proved once for every store that keeps the contract (\<open>transactional_store\<close>).
\<close>

section \<open>Operations\<close>

text \<open>The service holds a store; \<open>svc_runner\<close> is the store's \<open>RunInTx\<close> capability, present when
  the type assertion \<open>s.store.(paymentTransactionRunner)\<close> succeeds.\<close>

record ('d, 'db, 'x) service =
  svc_store :: "('d, 'db, 'x) payment_store"
  svc_runner :: "('d, 'db, 'x) tx_runner option"
  svc_router :: "('d, 'db, 'x) router"

definition NewPaymentService :: "('d, 'db, 'x) payment_store \<Rightarrow> ('d, 'db, 'x) tx_runner option \<Rightarrow>
    ('d, 'db, 'x) router \<Rightarrow> ('d, 'db, 'x) service" where
  "NewPaymentService store runner router =
     \<lparr>svc_store = store, svc_runner = runner, svc_router = router\<rparr>"

text \<open>\<open>persist\<close> inside a transaction when the store offers one, else on the store itself.\<close>

definition run_persist :: "('d, 'db, 'x) service \<Rightarrow>
    (('d, 'db, 'x) payment_store \<Rightarrow> ('db, 'x, 'a) go) \<Rightarrow> ('db, 'x, 'a) go" where
  "run_persist svc persist =
     (case svc_runner svc of
        Some runner \<Rightarrow> RunInTx runner persist
      | None \<Rightarrow> persist (svc_store svc))"

text \<open>\<open>if x, err := m; err == nil { return x } else if !errors.Is(err, pgx.ErrNoRows) { return err }\<close>,
  then \<open>k\<close>.\<close>

definition found_or :: "('db, 'x, 'a) go \<Rightarrow> ('db, 'x, 'a) go \<Rightarrow> ('db, 'x, 'a) go" where
  "found_or m k w =
     (case m w of
        (Inr x, w') \<Rightarrow> (Inr x, w')
      | (Inl err, w') \<Rightarrow> if \<not> errors_Is err ErrNoRows then (Inl err, w') else k w')"

definition charge_transaction :: "'d payment \<Rightarrow> string \<Rightarrow> payment_result \<Rightarrow> time \<Rightarrow> uuid \<Rightarrow>
    'd transaction" where
  "charge_transaction payment correlationID result now u =
     \<lparr>t_ID = u, t_PaymentID = p_ID payment, t_RefundID = None, t_Type = TransactionTypeCharge,
      t_Amount = p_Amount payment, t_Currency = p_Currency payment,
      t_Success = pr_Success result,
      t_GatewayTransactionID = nullString (pr_TransactionID result),
      t_GatewayResponse = nullString (pr_RawResponse result),
      t_GatewayErrorCode = nullString (pr_ErrorCode result),
      t_GatewayErrorMessage = nullString (pr_ErrorMessage result),
      t_CreatedAt = now, t_CorrelationID = nullString correlationID,
      t_IPAddress = None, t_UserAgent = None\<rparr>"

definition completed_payment :: "payment_result \<Rightarrow> time \<Rightarrow> 'd payment \<Rightarrow> 'd payment" where
  "completed_payment result now p =
     p\<lparr>p_Status := PaymentStatusCompleted,
       p_GatewayTransactionID := nullString (pr_TransactionID result),
       p_GatewayPaymentIntentID := nullString (pr_PaymentIntentID result),
       p_CardLast4 := nullString (pr_CardLast4 result),
       p_CardBrand := nullString (pr_CardBrand result),
       p_CompletedAt := Some now, p_FailureReason := None, p_FailureCode := None\<rparr>"

definition failed_payment :: "payment_result \<Rightarrow> 'd payment \<Rightarrow> 'd payment" where
  "failed_payment result p =
     p\<lparr>p_Status := PaymentStatusFailed, p_FailureCode := nullString (pr_ErrorCode result),
       p_FailureReason := nullString (pr_ErrorMessage result)\<rparr>"

definition persistProcessedPayment :: "'d env \<Rightarrow> ('d, 'db, 'x) payment_store \<Rightarrow> 'd payment \<Rightarrow>
    string \<Rightarrow> payment_result \<Rightarrow> time \<Rightarrow> ('db, 'x, 'd payment) go" where
  "persistProcessedPayment E store payment correlationID result now =
     bindE (st_CreatePayment store payment) (\<lambda>payment.
     bindE (st_UpdatePayment store
              (payment\<lparr>p_Status := PaymentStatusProcessing, p_ProcessedAt := Some now\<rparr>))
       (\<lambda>payment.
     with_uuid E (\<lambda>u.
     bindE (st_CreateTransaction store
              (charge_transaction payment correlationID result now u)) (\<lambda>_.
     if pr_Success result
     then with_now E (\<lambda>done. st_UpdatePayment store (completed_payment result done payment))
     else st_UpdatePayment store (failed_payment result payment)))))"

definition new_payment :: "'d env \<Rightarrow> 'd process_payment_request \<Rightarrow> string \<Rightarrow> string \<Rightarrow> string \<Rightarrow>
    time \<Rightarrow> uuid \<Rightarrow> 'd payment" where
  "new_payment E req gatewayName correlationID idempotencyKey now u =
     \<lparr>p_ID = u, p_OrderID = pq_OrderID req, p_CustomerID = pq_CustomerID req,
      p_Amount = pq_Amount req,
      p_Currency = ToUpper (E_upper E) (TrimSpace (pq_Currency req)),
      p_Status = PaymentStatusPending, p_Gateway = gatewayName,
      p_GatewayTransactionID = None, p_GatewayPaymentIntentID = None,
      p_PaymentMethodID = E_uuid_parse E (TrimSpace (pq_PaymentMethodID req)),
      p_CardLast4 = None, p_CardBrand = None, p_Metadata = None,
      p_FailureReason = None, p_FailureCode = None,
      p_CreatedAt = now, p_ProcessedAt = None, p_CompletedAt = None, p_UpdatedAt = Some now,
      p_CorrelationID = nullString correlationID,
      p_IdempotencyKey = nullString idempotencyKey\<rparr>"

definition payment_gateway_request :: "'d env \<Rightarrow> 'd process_payment_request \<Rightarrow> string \<Rightarrow> string \<Rightarrow>
    'd gateway_payment_request" where
  "payment_gateway_request E req correlationID idempotencyKey =
     \<lparr>gq_OrderID = pq_OrderID req, gq_CustomerID = pq_CustomerID req,
      gq_Amount = pq_Amount req,
      gq_Currency = ToUpper (E_upper E) (TrimSpace (pq_Currency req)),
      gq_PaymentMethodToken = pq_PaymentMethodID req,
      gq_CardNumber = pq_CardNumber req, gq_CardExpMonth = pq_CardExpMonth req,
      gq_CardExpYear = pq_CardExpYear req, gq_CardCVC = pq_CardCvc req,
      gq_CardholderName = pq_CardholderName req, gq_BillingEmail = pq_BillingEmail req,
      gq_BillingAddressLine1 = pq_BillingAddressLine1 req,
      gq_BillingAddressLine2 = pq_BillingAddressLine2 req,
      gq_BillingCity = pq_BillingCity req, gq_BillingState = pq_BillingState req,
      gq_BillingPostalCode = pq_BillingPostalCode req,
      gq_BillingCountry = pq_BillingCountry req, gq_Description = [],
      gq_IdempotencyKey = idempotencyKey, gq_CorrelationID = correlationID\<rparr>"

text \<open>The tail of \<open>ProcessPayment\<close>: store the outcome; when the insert lost a race for the
  idempotency key, answer with the winner's row.\<close>

definition persist_or_replay :: "'d env \<Rightarrow> ('d, 'db, 'x) service \<Rightarrow> 'd payment \<Rightarrow> string \<Rightarrow> string \<Rightarrow>
    payment_result \<Rightarrow> time \<Rightarrow> ('db, 'x, 'd payment) go" where
  "persist_or_replay E svc payment correlationID idempotencyKey result now w =
     (case run_persist svc (\<lambda>store.
             persistProcessedPayment E store payment correlationID result now) w of
        (Inr payment, w1) \<Rightarrow> (Inr payment, w1)
      | (Inl persistErr, w1) \<Rightarrow>
          if isUniqueViolation persistErr \<and> \<not> blank idempotencyKey
          then case st_GetPaymentByIdempotencyKey (svc_store svc) idempotencyKey w1 of
                 (Inr existing, w2) \<Rightarrow> (Inr existing, w2)
               | (Inl _, w2) \<Rightarrow> (Inl persistErr, w2)
          else (Inl persistErr, w1))"

text \<open>The middle of \<open>ProcessPayment\<close>: choose the gateway, charge it, store the outcome.  The card
  fields of the request and of its copies are cleared after the call in the code; they are not
  read again.\<close>

definition charge_and_persist :: "'d env \<Rightarrow> ('d, 'db, 'x) service \<Rightarrow> 'd process_payment_request \<Rightarrow>
    string \<Rightarrow> string \<Rightarrow> ('db, 'x, 'd payment) go" where
  "charge_and_persist E svc req correlationID idempotencyKey w =
     (case GetGatewayOrDefault E (svc_router svc) (pq_Gateway req) of
        Inl err \<Rightarrow> (Inl err, w)
      | Inr gatewayImpl \<Rightarrow>
          with_now E (\<lambda>now. with_uuid E (\<lambda>u w.
            case gw_ProcessPayment gatewayImpl
                   (payment_gateway_request E req correlationID idempotencyKey) w of
              (result, w1) \<Rightarrow>
                persist_or_replay E svc
                  (new_payment E req (gw_GetName gatewayImpl) correlationID idempotencyKey now u)
                  correlationID idempotencyKey result now w1)) w)"

definition ProcessPayment :: "'d env \<Rightarrow> ('d, 'db, 'x) service \<Rightarrow> 'd process_payment_request \<Rightarrow>
    string \<Rightarrow> string \<Rightarrow> ('db, 'x, 'd payment) go" where
  "ProcessPayment E svc req correlationID idempotencyKey =
     (let by_order = (\<lambda>w.
            case st_GetPaymentByOrderID (svc_store svc) (pq_OrderID req) w of
              (Inr existing, w1) \<Rightarrow>
                if p_Status existing = PaymentStatusCompleted then (Inr existing, w1)
                else charge_and_persist E svc req correlationID idempotencyKey w1
            | (Inl err, w1) \<Rightarrow>
                if \<not> errors_Is err ErrNoRows then (Inl err, w1)
                else charge_and_persist E svc req correlationID idempotencyKey w1)
      in if \<not> blank idempotencyKey
         then found_or (st_GetPaymentByIdempotencyKey (svc_store svc) idempotencyKey) by_order
         else by_order)"

text \<open>A lookup whose missing row is an error of the API.\<close>

definition or_not_found :: "go_error \<Rightarrow> ('db, 'x, 'a) go \<Rightarrow> ('db, 'x, 'a) go" where
  "or_not_found e m w =
     (case m w of
        (Inl err, w') \<Rightarrow> if errors_Is err ErrNoRows then (Inl e, w') else (Inl err, w')
      | (Inr x, w') \<Rightarrow> (Inr x, w'))"

definition svc_GetPayment :: "('d, 'db, 'x) service \<Rightarrow> uuid \<Rightarrow> ('db, 'x, 'd payment) go" where
  "svc_GetPayment svc paymentID =
     or_not_found ErrPaymentNotFound (st_GetPayment (svc_store svc) paymentID)"

definition svc_GetPaymentByOrderID :: "('d, 'db, 'x) service \<Rightarrow> string \<Rightarrow> ('db, 'x, 'd payment) go"
  where
  "svc_GetPaymentByOrderID svc orderID =
     or_not_found ErrPaymentNotFound (st_GetPaymentByOrderID (svc_store svc) orderID)"

definition svc_GetPaymentsByCustomer :: "('d, 'db, 'x) service \<Rightarrow> string \<Rightarrow>
    ('db, 'x, 'd payment list) go" where
  "svc_GetPaymentsByCustomer svc customerID =
     st_GetPaymentsByCustomer (svc_store svc) customerID"

definition UpdatePaymentStatus :: "'d env \<Rightarrow> ('d, 'db, 'x) service \<Rightarrow> uuid \<Rightarrow> payment_status \<Rightarrow>
    ('db, 'x, 'd payment) go" where
  "UpdatePaymentStatus E svc paymentID status =
     bindE (svc_GetPayment svc paymentID) (\<lambda>payment.
       if status = PaymentStatusProcessing
         then with_now E (\<lambda>t. st_UpdatePayment (svc_store svc)
                (payment\<lparr>p_Status := status, p_ProcessedAt := Some t\<rparr>))
       else if status = PaymentStatusCompleted
         then with_now E (\<lambda>t. st_UpdatePayment (svc_store svc)
                (payment\<lparr>p_Status := status, p_CompletedAt := Some t\<rparr>))
       else st_UpdatePayment (svc_store svc) (payment\<lparr>p_Status := status\<rparr>))"

section \<open>What a charge does to the ledger\<close>

text \<open>The ledger gains the row of the payment, settled as the gateway answered, and one CHARGE
  entry of the audit log; the row's id and idempotency key are new.\<close>

definition charge_recorded :: "('d \<Rightarrow> 'd) \<Rightarrow> (time \<Rightarrow> time) \<Rightarrow> payment_result \<Rightarrow> 'd payment \<Rightarrow>
    'd ledger \<Rightarrow> 'd ledger \<Rightarrow> bool" where
  "charge_recorded ka kt result p L L' \<longleftrightarrow>
     p_ID p \<notin> p_ID ` set (l_payments L) \<and>
     (\<forall>k. p_IdempotencyKey p = Some k \<longrightarrow> Some k \<notin> p_IdempotencyKey ` set (l_payments L)) \<and>
     p_Status p = (if pr_Success result then PaymentStatusCompleted else PaymentStatusFailed) \<and>
     (\<exists>t. t_PaymentID t = p_ID p \<and> t_RefundID t = None \<and> t_Type t = TransactionTypeCharge \<and>
        t_Success t = pr_Success result \<and> t_Amount t = ka (p_Amount p) \<and>
        L' = L\<lparr>l_payments := l_payments L @ [keep_payment ka kt p], l_txs := l_txs L @ [t]\<rparr>)"

text \<open>The fields of the row that the request decides.\<close>

definition payment_of_request :: "'d env \<Rightarrow> 'd process_payment_request \<Rightarrow> string \<Rightarrow> string \<Rightarrow>
    'd payment \<Rightarrow> bool" where
  "payment_of_request E req correlationID idempotencyKey p \<longleftrightarrow>
     p_OrderID p = pq_OrderID req \<and> p_CustomerID p = pq_CustomerID req \<and>
     p_Amount p = pq_Amount req \<and>
     p_Currency p = ToUpper (E_upper E) (TrimSpace (pq_Currency req)) \<and>
     p_CorrelationID p = nullString correlationID \<and>
     p_IdempotencyKey p = nullString idempotencyKey"

text \<open>The gateway the request selects was charged once, with the request built from it; nothing
  else touched the gateways' side of the world.\<close>

definition gateway_charged :: "'d env \<Rightarrow> ('d, 'db, 'x) service \<Rightarrow> 'd process_payment_request \<Rightarrow>
    string \<Rightarrow> string \<Rightarrow> ('db, 'x) world \<Rightarrow> payment_result \<Rightarrow> ('db, 'x) world \<Rightarrow> bool" where
  "gateway_charged E svc req correlationID idempotencyKey w result w' \<longleftrightarrow>
     (\<exists>g w0 w1. GetGatewayOrDefault E (svc_router svc) (pq_Gateway req) = Inr g \<and> quiet w w0 \<and>
        gw_ProcessPayment g (payment_gateway_request E req correlationID idempotencyKey) w0 =
          (result, w1) \<and> quiet w1 w')"

text \<open>The three ways \<open>ProcessPayment\<close> can end: without a charge (an error, or an earlier payment
  returned); with a charge whose outcome was recorded; or with a charge and an unchanged ledger
  (the store refused, or another payment holds the key).\<close>

definition earlier_payment :: "'d process_payment_request \<Rightarrow> string \<Rightarrow> 'd ledger \<Rightarrow> 'd payment \<Rightarrow>
    bool" where
  "earlier_payment req idempotencyKey L q \<longleftrightarrow> q \<in> set (l_payments L) \<and>
     (p_IdempotencyKey q = Some idempotencyKey \<and> \<not> blank idempotencyKey \<or>
      p_OrderID q = pq_OrderID req \<and> p_Status q = PaymentStatusCompleted)"

definition payment_outcome :: "('d \<Rightarrow> 'd) \<Rightarrow> (time \<Rightarrow> time) \<Rightarrow> 'd env \<Rightarrow> ('d, 'db, 'x) service \<Rightarrow>
    'd process_payment_request \<Rightarrow> string \<Rightarrow> string \<Rightarrow> 'd ledger \<Rightarrow> ('db, 'x) world \<Rightarrow>
    go_error + 'd payment \<Rightarrow> 'd ledger \<Rightarrow> ('db, 'x) world \<Rightarrow> bool" where
  "payment_outcome ka kt E svc req c k L w r L' w' \<longleftrightarrow>
     L' = L \<and> quiet w w' \<and> (\<forall>q. r = Inr q \<longrightarrow> earlier_payment req k L q) \<or>
     (\<exists>res. gateway_charged E svc req c k w res w' \<and>
        (L' = L \<and> (\<forall>q. r = Inr q \<longrightarrow> earlier_payment req k L q) \<or>
         (\<exists>q. r = Inr q \<and> payment_of_request E req c k q \<and> charge_recorded ka kt res q L L')))"

lemma found_or_cases:
  assumes "found_or m k w = (r, w')"
  obtains x where "m w = (Inr x, w')" "r = Inr x"
  | e where "m w = (Inl e, w')" "\<not> errors_Is e ErrNoRows" "r = Inl e"
  | e w1 where "m w = (Inl e, w1)" "errors_Is e ErrNoRows" "k w1 = (r, w')"
  using assms by (auto simp: found_or_def split: prod.splits sum.splits if_splits)

lemma quiet_refl [simp]: "quiet w w"
  by (simp add: quiet_def)

lemma quiet_trans: "quiet a b \<Longrightarrow> quiet b c \<Longrightarrow> quiet a c"
  by (simp add: quiet_def)

lemma quiet_counters [simp]: "quiet w (w\<lparr>w_clk := n\<rparr>)" "quiet w (w\<lparr>w_ids := n\<rparr>)"
  by (simp_all add: quiet_def)

lemma gateway_charged_quiet:
  "quiet w w0 \<Longrightarrow> gateway_charged E svc req c k w0 res w' \<Longrightarrow> gateway_charged E svc req c k w res w'"
  unfolding gateway_charged_def by (blast intro: quiet_trans)

lemma payment_outcome_quiet:
  "quiet w w0 \<Longrightarrow> payment_outcome ka kt E svc req c k L w0 r L' w' \<Longrightarrow>
     payment_outcome ka kt E svc req c k L w r L' w'"
  unfolding payment_outcome_def by (blast intro: quiet_trans gateway_charged_quiet)

lemma steps_persist:
  assumes "frame_rel R" "writes R store"
  shows "steps R (persistProcessedPayment E store p c result now)"
  unfolding persistProcessedPayment_def
  by (intro steps_intros assms(1) writesD [OF assms(2)])

text \<open>The row \<open>persistProcessedPayment\<close> writes last.\<close>

definition settle :: "payment_result \<Rightarrow> time \<Rightarrow> 'd payment \<Rightarrow> 'd payment" where
  "settle result now p =
     (if pr_Success result then completed_payment result now p else failed_payment result p)"

text \<open>The four calls of a run that returns a row.\<close>

lemma persist_trace:
  assumes "persistProcessedPayment E store p c result now w = (Inr p', w')"
  obtains p1 w1 p2 w2 t w3 w4 where
    "st_CreatePayment store p w = (Inr p1, w1)"
    "st_UpdatePayment store
      (p1\<lparr>p_Status := PaymentStatusProcessing, p_ProcessedAt := Some now\<rparr>) w1 = (Inr p2, w2)"
    "st_CreateTransaction store (charge_transaction p2 c result now (E_uuid E (w_ids w2)))
      (w2\<lparr>w_ids := Suc (w_ids w2)\<rparr>) = (Inr t, w3)"
    "w_db w4 = w_db w3"
    "st_UpdatePayment store (settle result (E_now E (w_clk w3)) p2) w4 = (Inr p', w')"
proof -
  obtain p1 w1 p2 w2 t w3 where
    c: "st_CreatePayment store p w = (Inr p1, w1)"
      "st_UpdatePayment store
        (p1\<lparr>p_Status := PaymentStatusProcessing, p_ProcessedAt := Some now\<rparr>) w1 = (Inr p2, w2)"
      "st_CreateTransaction store (charge_transaction p2 c result now (E_uuid E (w_ids w2)))
        (w2\<lparr>w_ids := Suc (w_ids w2)\<rparr>) = (Inr t, w3)"
    and last: "(if pr_Success result
      then with_now E (\<lambda>done. st_UpdatePayment store (completed_payment result done p2))
      else st_UpdatePayment store (failed_payment result p2)) w3 = (Inr p', w')"
    using assms unfolding persistProcessedPayment_def bindE_Inr with_uuid_def by blast
  define w4 where "w4 = (if pr_Success result then w3\<lparr>w_clk := Suc (w_clk w3)\<rparr> else w3)"
  have "st_UpdatePayment store (settle result (E_now E (w_clk w3)) p2) w4 = (Inr p', w')"
    using last by (simp add: w4_def settle_def with_now_def split: if_splits)
  moreover have "w_db w4 = w_db w3" by (simp add: w4_def)
  ultimately show thesis using c that by blast
qed

text \<open>What \<open>ProcessPayment\<close> does once the idempotency key has not answered.\<close>

abbreviation pay_by_order :: "'d env \<Rightarrow> ('d, 'db, 'x) service \<Rightarrow> 'd process_payment_request \<Rightarrow> string \<Rightarrow>
    string \<Rightarrow> ('db, 'x, 'd payment) go" where
  "pay_by_order E svc req c k \<equiv> (\<lambda>w.
     case st_GetPaymentByOrderID (svc_store svc) (pq_OrderID req) w of
       (Inr existing, w1) \<Rightarrow>
         if p_Status existing = PaymentStatusCompleted then (Inr existing, w1)
         else charge_and_persist E svc req c k w1
     | (Inl err, w1) \<Rightarrow>
         if \<not> errors_Is err ErrNoRows then (Inl err, w1)
         else charge_and_persist E svc req c k w1)"

lemma pay_by_order_cases:
  assumes "pay_by_order E svc req c k w = (r, w')"
  obtains (found) q where "r = Inr q" "p_Status q = PaymentStatusCompleted"
      "st_GetPaymentByOrderID (svc_store svc) (pq_OrderID req) w = (Inr q, w')"
  | (failed) e where "r = Inl e"
      "st_GetPaymentByOrderID (svc_store svc) (pq_OrderID req) w = (Inl e, w')"
  | (charge) r1 w1 where
      "st_GetPaymentByOrderID (svc_store svc) (pq_OrderID req) w = (r1, w1)"
      "charge_and_persist E svc req c k w1 = (r, w')"
  using assms by (auto split: prod.splits sum.splits if_splits)

lemma ProcessPayment_cases:
  assumes "ProcessPayment E svc req c k w = (r, w')"
  obtains (found) q where "\<not> blank k" "r = Inr q"
      "st_GetPaymentByIdempotencyKey (svc_store svc) k w = (Inr q, w')"
  | (failed) e where "\<not> blank k" "r = Inl e" "\<not> errors_Is e ErrNoRows"
      "st_GetPaymentByIdempotencyKey (svc_store svc) k w = (Inl e, w')"
  | (missing) e w1 where "\<not> blank k"
      "st_GetPaymentByIdempotencyKey (svc_store svc) k w = (Inl e, w1)" "errors_Is e ErrNoRows"
      "pay_by_order E svc req c k w1 = (r, w')"
  | (keyless) "blank k" "pay_by_order E svc req c k w = (r, w')"
proof (cases "blank k")
  case True
  with assms show thesis by (intro keyless) (simp_all add: ProcessPayment_def)
next
  case False
  with assms have "found_or (st_GetPaymentByIdempotencyKey (svc_store svc) k)
      (pay_by_order E svc req c k) w = (r, w')" by (simp add: ProcessPayment_def)
  then show thesis
  proof (cases rule: found_or_cases)
    case (1 q)
    show thesis by (rule found [OF False 1(2,1)])
  next
    case (2 e)
    show thesis by (rule failed [OF False 2(3,2,1)])
  next
    case (3 e w1)
    show thesis by (rule missing [OF False 3])
  qed
qed

context transactional_store begin

text \<open>The row and the audit entry that the transaction leaves.\<close>

lemma persist_stores:
  assumes inv: "inv (w_db w)"
    and run: "persistProcessedPayment E (tr_store T) p c result now w = (Inr p', w')"
  obtains i cr u2 u4 n it ct tid p2 where
    "i \<notin> p_ID ` set (l_payments (view (w_db w)))"
    "\<forall>k. p_IdempotencyKey p = Some k \<longrightarrow>
       (\<forall>q \<in> set (l_payments (view (w_db w))). p_IdempotencyKey q \<noteq> Some k)"
    "p2 = p\<lparr>p_ID := i, p_CreatedAt := cr, p_Status := PaymentStatusProcessing,
       p_ProcessedAt := Some now, p_UpdatedAt := Some u2\<rparr>"
    "p' = (settle result n p2)\<lparr>p_UpdatedAt := Some u4\<rparr>"
    "view (w_db w') = (view (w_db w))\<lparr>
       l_payments := l_payments (view (w_db w)) @ [keep_payment ka kt p'],
       l_txs := l_txs (view (w_db w)) @ [keep_transaction ka kt
         ((charge_transaction p2 c result now tid)\<lparr>t_ID := it, t_CreatedAt := ct\<rparr>)]\<rparr>"
proof -
  let ?L = "view (w_db w)" and ?k = "keep_payment ka kt"
  obtain p1 w1 p2 w2 t w3 w4 where
    c1: "st_CreatePayment (tr_store T) p w = (Inr p1, w1)"
    and c2: "st_UpdatePayment (tr_store T)
      (p1\<lparr>p_Status := PaymentStatusProcessing, p_ProcessedAt := Some now\<rparr>) w1 = (Inr p2, w2)"
    and c3: "st_CreateTransaction (tr_store T)
      (charge_transaction p2 c result now (E_uuid E (w_ids w2)))
      (w2\<lparr>w_ids := Suc (w_ids w2)\<rparr>) = (Inr t, w3)"
    and w4: "w_db w4 = w_db w3"
    and c4: "st_UpdatePayment (tr_store T)
      (settle result (E_now E (w_clk w3)) p2) w4 = (Inr p', w')"
    using run by (rule persist_trace)
  have i1: "inv (w_db w1)" using tx.put_inv(1) [OF inv c1] .
  have i2: "inv (w_db w2)" using tx.put_inv(2) [OF i1 c2] .
  have i4: "inv (w_db w4)" using tx.put_inv(5) [OF _ c3] i2 w4 by simp
  obtain i cr u where p1: "p1 = p\<lparr>p_ID := i, p_CreatedAt := cr, p_UpdatedAt := Some u\<rparr>"
    and new: "p_ID p1 \<notin> p_ID ` set (l_payments ?L)"
      "\<forall>k. p_IdempotencyKey p = Some k \<longrightarrow> (\<forall>q \<in> set (l_payments ?L). p_IdempotencyKey q \<noteq> Some k)"
    and v1: "view (w_db w1) = ?L\<lparr>l_payments := l_payments ?L @ [?k p1]\<rparr>"
    using tx.create_payment [OF inv c1] by blast
  have new1: "i \<notin> p_ID ` set (l_payments ?L)" using new(1) by (simp add: p1)
  obtain u2 where p2: "p2 = p1\<lparr>p_Status := PaymentStatusProcessing, p_ProcessedAt := Some now,
      p_UpdatedAt := Some u2\<rparr>"
    and v2: "view (w_db w2) = (view (w_db w1))\<lparr>l_payments :=
      replace_payment (?k p2) (l_payments (view (w_db w1)))\<rparr>"
    using tx.update_payment [OF i1 c2] by auto
  have p2': "p2 = p\<lparr>p_ID := i, p_CreatedAt := cr, p_Status := PaymentStatusProcessing,
      p_ProcessedAt := Some now, p_UpdatedAt := Some u2\<rparr>"
    by (simp add: p2 p1)
  obtain it ct where v3: "view (w_db w3) = (view (w_db w2))\<lparr>l_txs := l_txs (view (w_db w2)) @
      [keep_transaction ka kt ((charge_transaction p2 c result now (E_uuid E (w_ids w2)))
        \<lparr>t_ID := it, t_CreatedAt := ct\<rparr>)]\<rparr>"
    using tx.create_transaction [OF _ c3] i2 by auto
  obtain u4 where p4: "p' = (settle result (E_now E (w_clk w3)) p2)\<lparr>p_UpdatedAt := Some u4\<rparr>"
    and v4: "view (w_db w') = (view (w_db w4))\<lparr>l_payments :=
      replace_payment (?k p') (l_payments (view (w_db w4)))\<rparr>"
    using tx.update_payment [OF i4 c4] by blast
  have ids: "p_ID p' = i" "p_CreatedAt p' = cr"
    by (simp_all add: p4 p2' settle_def completed_payment_def failed_payment_def)
  then have "(?k p')\<lparr>p_CreatedAt := kt cr\<rparr> = ?k p'" by (simp add: keep_payment_def)
  then have "view (w_db w') = ?L\<lparr>l_payments := l_payments ?L @ [?k p'],
      l_txs := l_txs ?L @ [keep_transaction ka kt ((charge_transaction p2 c result now
        (E_uuid E (w_ids w2)))\<lparr>t_ID := it, t_CreatedAt := ct\<rparr>)]\<rparr>"
    using new1 ids
    by (simp add: v4 w4 v3 v2 v1 replace_payment_append replace_payment_fresh p2 p1)
  with new1 new(2) p2' p4 show thesis by (rule that)
qed

lemma persist_charges:
  assumes inv: "inv (w_db w)"
    and run: "persistProcessedPayment E (tr_store T) p c result now w = (Inr p', w')"
  shows "charge_recorded ka kt result p' (view (w_db w)) (view (w_db w')) \<and>
    p_OrderID p' = p_OrderID p \<and> p_CustomerID p' = p_CustomerID p \<and> p_Amount p' = p_Amount p \<and>
    p_Currency p' = p_Currency p \<and> p_CorrelationID p' = p_CorrelationID p \<and>
    p_IdempotencyKey p' = p_IdempotencyKey p"
proof -
  let ?L = "view (w_db w)"
  obtain i cr u2 u4 n it ct tid p2 where new: "i \<notin> p_ID ` set (l_payments ?L)"
      "\<forall>k. p_IdempotencyKey p = Some k \<longrightarrow> (\<forall>q \<in> set (l_payments ?L). p_IdempotencyKey q \<noteq> Some k)"
    and p2: "p2 = p\<lparr>p_ID := i, p_CreatedAt := cr, p_Status := PaymentStatusProcessing,
      p_ProcessedAt := Some now, p_UpdatedAt := Some u2\<rparr>"
    and p': "p' = (settle result n p2)\<lparr>p_UpdatedAt := Some u4\<rparr>"
    and L': "view (w_db w') = ?L\<lparr>l_payments := l_payments ?L @ [keep_payment ka kt p'],
      l_txs := l_txs ?L @ [keep_transaction ka kt
        ((charge_transaction p2 c result now tid)\<lparr>t_ID := it, t_CreatedAt := ct\<rparr>)]\<rparr>"
    by (rule persist_stores [OF inv run])
  have fields: "p_ID p' = i" "p_CreatedAt p' = cr"
    "p_Status p' = (if pr_Success result then PaymentStatusCompleted else PaymentStatusFailed)"
    "p_OrderID p' = p_OrderID p" "p_CustomerID p' = p_CustomerID p" "p_Amount p' = p_Amount p"
    "p_Currency p' = p_Currency p" "p_CorrelationID p' = p_CorrelationID p"
    "p_IdempotencyKey p' = p_IdempotencyKey p"
    by (simp_all add: p' p2 settle_def completed_payment_def failed_payment_def)
  have key: "\<forall>k. p_IdempotencyKey p' = Some k \<longrightarrow> Some k \<notin> p_IdempotencyKey ` set (l_payments ?L)"
    using new(2) fields(9) by (metis imageE)
  show ?thesis
    unfolding charge_recorded_def L'
    using fields new(1) key
    by (auto intro!: exI [where x = "keep_transaction ka kt
      ((charge_transaction p2 c result now tid)\<lparr>t_ID := it, t_CreatedAt := ct\<rparr>)"]
      simp: charge_transaction_def p2)
qed

lemma persist_in_tx: "steps in_tx (persistProcessedPayment E (tr_store T) p c result now)"
  by (rule steps_persist [OF frame_in_tx tx_store_in_tx(2)])

lemma persist_quiet: "steps quiet (persistProcessedPayment E (tr_store T) p c result now)"
  by (rule steps_persist [OF frame_quiet tx.store_quiet(2)])

lemma run_persist_quiet:
  "steps quiet (RunInTx T (\<lambda>store. persistProcessedPayment E store p c result now))"
  by (rule RunInTx_quiet) (rule persist_quiet)

text \<open>A service over this store, with gateways that keep their contract.\<close>

definition svc_ok :: "('d, 'db, 'x) service \<Rightarrow> bool" where
  "svc_ok svc \<longleftrightarrow> svc_store svc = S \<and> svc_runner svc = Some T \<and> router_ok (svc_router svc)"

lemma get_quiet:
  "steps quiet (st_GetPayment S i)" "steps quiet (st_GetPaymentByOrderID S s)"
  "steps quiet (st_GetPaymentByIdempotencyKey S s)" "steps quiet (st_GetPaymentsByCustomer S s)"
  "steps quiet (st_GetRefundByCorrelationID S s)" "steps quiet (st_GetRefundsByPayment S i)"
  using readsD [OF store_quiet(1)] by blast+

lemma persist_or_replay_outcome:
  assumes svc: "svc_ok svc" and inv: "inv (w_db w)"
    and run: "persist_or_replay E svc p c k result now w = (r, w')"
  shows "inv (w_db w') \<and> quiet w w' \<and>
    (view (w_db w') = view (w_db w) \<and>
       (\<forall>q. r = Inr q \<longrightarrow> q \<in> set (l_payments (view (w_db w))) \<and>
          p_IdempotencyKey q = Some k \<and> \<not> blank k) \<or>
     (\<exists>q. r = Inr q \<and> charge_recorded ka kt result q (view (w_db w)) (view (w_db w')) \<and>
        p_OrderID q = p_OrderID p \<and> p_CustomerID q = p_CustomerID p \<and>
        p_Amount q = p_Amount p \<and> p_Currency q = p_Currency p \<and>
        p_CorrelationID q = p_CorrelationID p \<and> p_IdempotencyKey q = p_IdempotencyKey p))"
proof -
  let ?m = "RunInTx T (\<lambda>store. persistProcessedPayment E store p c result now)"
  obtain r1 w1 where m: "?m w = (r1, w1)" by fastforce
  have q1: "quiet w w1" by (rule stepsD [OF run_persist_quiet m])
  have def_run: "run_persist svc (\<lambda>store. persistProcessedPayment E store p c result now) w = (r1, w1)"
    using m svc by (simp add: run_persist_def svc_ok_def)
  show ?thesis
  proof (cases r1)
    case (Inr q)
    with run def_run have r: "r = Inr q" "w' = w1" by (simp_all add: persist_or_replay_def)
    from m Inr have m': "?m w = (Inr q, w1)" by simp
    obtain wa wb where a: "inv (w_db wa)" "view (w_db wa) = view (w_db w)"
      and b: "persistProcessedPayment E (tr_store T) p c result now wa = (Inr q, wb)"
      and d: "inv (w_db w1)" "view (w_db w1) = view (w_db wb)"
      by (rule RunInTx_Inr [OF inv m'], rule persist_in_tx, rule that)
    from persist_charges [OF a(1) b] a(2) d q1 r show ?thesis by auto
  next
    case (Inl e)
    have same: "inv (w_db w1)" "view (w_db w1) = view (w_db w)"
      using RunInTx_Inl [OF inv m [unfolded Inl]] persist_in_tx by blast+
    show ?thesis
    proof (cases "isUniqueViolation e \<and> \<not> blank k")
      case False
      with run def_run Inl have "r = Inl e" "w' = w1" by (auto simp: persist_or_replay_def)
      with same q1 show ?thesis by simp
    next
      case True
      obtain r2 w2 where g: "st_GetPaymentByIdempotencyKey S k w1 = (r2, w2)" by fastforce
      have w': "w' = w2" "\<And>q. r = Inr q \<Longrightarrow> r2 = Inr q"
        using run def_run Inl True g svc
        by (auto simp: persist_or_replay_def svc_ok_def split: sum.splits)
      have "quiet w1 w2" by (rule stepsD [OF get_quiet(3) g])
      with q1 have "quiet w w'" by (simp add: quiet_def w')
      with w' get_view(4) [OF same(1) g] get_payment_by_key [OF same(1)] g same True
      show ?thesis by auto
    qed
  qed
qed

lemma charge_and_persist_outcome:
  assumes svc: "svc_ok svc" and inv: "inv (w_db w)"
    and run: "charge_and_persist E svc req c k w = (r, w')"
  shows "inv (w_db w') \<and>
    payment_outcome ka kt E svc req c k (view (w_db w)) w r (view (w_db w')) w'"
proof (cases "GetGatewayOrDefault E (svc_router svc) (pq_Gateway req)")
  case (Inl e)
  with run inv show ?thesis by (auto simp: charge_and_persist_def payment_outcome_def)
next
  case (Inr g)
  define w0 where "w0 = w\<lparr>w_clk := Suc (w_clk w), w_ids := Suc (w_ids w)\<rparr>"
  have w0: "quiet w w0" "w_db w0 = w_db w" by (simp_all add: w0_def quiet_def)
  obtain res w1 where gw: "gw_ProcessPayment g (payment_gateway_request E req c k) w0 = (res, w1)"
    by fastforce
  have g: "gateway_contract g"
    using router_ok_default [OF _ Inr] svc by (simp add: svc_ok_def)
  have w1: "w_db w1 = w_db w" using gateway_contract.payment_db [OF g gw] w0 by simp
  let ?p = "new_payment E req (gw_GetName g) c k (E_now E (w_clk w)) (E_uuid E (w_ids w))"
  have "persist_or_replay E svc ?p c k res (E_now E (w_clk w)) w1 = (r, w')"
    using run Inr gw
    by (simp add: charge_and_persist_def with_now_def with_uuid_def w0_def)
  from persist_or_replay_outcome [OF svc _ this] inv w1
  have out: "inv (w_db w')" "quiet w1 w'"
    "view (w_db w') = view (w_db w) \<and>
       (\<forall>q. r = Inr q \<longrightarrow> q \<in> set (l_payments (view (w_db w))) \<and>
          p_IdempotencyKey q = Some k \<and> \<not> blank k) \<or>
     (\<exists>q. r = Inr q \<and> charge_recorded ka kt res q (view (w_db w)) (view (w_db w')) \<and>
        payment_of_request E req c k q)"
    by (auto simp: payment_of_request_def new_payment_def)
  have "gateway_charged E svc req c k w res w'"
    unfolding gateway_charged_def using Inr w0(1) gw out(2) by blast
  with out show ?thesis unfolding payment_outcome_def earlier_payment_def by blast
qed

lemma ProcessPayment_by_order:
  assumes svc: "svc_ok svc" and inv: "inv (w_db w)"
    and run: "pay_by_order E svc req c k w = (r, w')"
  shows "inv (w_db w') \<and>
    payment_outcome ka kt E svc req c k (view (w_db w)) w r (view (w_db w')) w'"
proof -
  have S: "svc_store svc = S" using svc by (simp add: svc_ok_def)
  from run show ?thesis
  proof (cases rule: pay_by_order_cases)
    case (found q)
    note get = found(3) [unfolded S]
    from found get_view(3) [OF inv get] stepsD [OF get_quiet(2) get] get_payment_by_order [OF inv get]
    show ?thesis by (simp add: payment_outcome_def earlier_payment_def)
  next
    case (failed e)
    note get = failed(2) [unfolded S]
    from failed get_view(3) [OF inv get] stepsD [OF get_quiet(2) get] show ?thesis
      by (simp add: payment_outcome_def)
  next
    case (charge r1 w1)
    note get = charge(1) [unfolded S]
    have w1: "inv (w_db w1)" "view (w_db w1) = view (w_db w)" "quiet w w1"
      using get_view(3) [OF inv get] stepsD [OF get_quiet(2) get] by auto
    note out = charge_and_persist_outcome [OF svc w1(1) charge(2)]
    from out payment_outcome_quiet [OF w1(3) conjunct2 [OF out]] w1(2) show ?thesis by simp
  qed
qed

lemma key_lookup:
  assumes inv: "inv (w_db w)" and svc: "svc_ok svc"
    and get: "st_GetPaymentByIdempotencyKey (svc_store svc) k w = (r, w')"
  shows "inv (w_db w') \<and> view (w_db w') = view (w_db w) \<and> quiet w w' \<and>
    (\<forall>q. r = Inr q \<longrightarrow> q \<in> set (l_payments (view (w_db w))) \<and> p_IdempotencyKey q = Some k) \<and>
    (\<forall>e. r = Inl e \<longrightarrow> errors_Is e ErrNoRows \<longrightarrow>
       Some k \<notin> p_IdempotencyKey ` set (l_payments (view (w_db w))))"
proof -
  have g: "st_GetPaymentByIdempotencyKey S k w = (r, w')" using get svc by (simp add: svc_ok_def)
  show ?thesis
    using get_view(4) [OF inv g] stepsD [OF get_quiet(3) g] g get_payment_by_key [OF inv]
      get_payment_by_key_none [OF inv] by blast
qed

lemma ProcessPayment_outcome:
  assumes svc: "svc_ok svc" and inv: "inv (w_db w)"
    and run: "ProcessPayment E svc req c k w = (r, w')"
  shows "inv (w_db w') \<and>
    payment_outcome ka kt E svc req c k (view (w_db w)) w r (view (w_db w')) w'"
  using run
proof (cases rule: ProcessPayment_cases)
  case (found q)
  with key_lookup [OF inv svc found(3)] show ?thesis
    by (simp add: payment_outcome_def earlier_payment_def)
next
  case (failed e)
  with key_lookup [OF inv svc failed(4)] show ?thesis by (simp add: payment_outcome_def)
next
  case (missing e w1)
  note look = key_lookup [OF inv svc missing(2)]
  with ProcessPayment_by_order [OF svc _ missing(4)]
  have "inv (w_db w')"
    and out: "payment_outcome ka kt E svc req c k (view (w_db w)) w1 r (view (w_db w')) w'" by simp_all
  with payment_outcome_quiet [OF _ out] look show ?thesis by simp
next
  case keyless
  with ProcessPayment_by_order [OF svc inv] show ?thesis by simp
qed

text \<open>A key that a stored payment carries is answered from the store: no charge, no write.\<close>

lemma ProcessPayment_replay:
  assumes svc: "svc_ok svc" and inv: "inv (w_db w)" and k: "\<not> blank k"
    and stored: "Some k \<in> p_IdempotencyKey ` set (l_payments (view (w_db w)))"
    and run: "ProcessPayment E svc req c k w = (r, w')"
  shows "quiet w w' \<and> view (w_db w') = view (w_db w) \<and>
    (\<forall>q. r = Inr q \<longrightarrow> q \<in> set (l_payments (view (w_db w))) \<and> p_IdempotencyKey q = Some k)"
  using run
proof (cases rule: ProcessPayment_cases)
  case (found q)
  with key_lookup [OF inv svc found(3)] show ?thesis by simp
next
  case (failed e)
  with key_lookup [OF inv svc failed(4)] show ?thesis by simp
next
  case (missing e w1)
  with key_lookup [OF inv svc missing(2)] stored show ?thesis by blast
next
  case keyless
  with k show ?thesis by simp
qed

end

end
