(* ===== verification/Refund_Service.thy ===== *)
theory Refund_Service
  imports Payment_Service
begin

text \<open>
  \<open>go/internal/payment/refund.go\<close>: the refund service.  The operations come first; the lemmas
  then say what a refund does to the ledger, for every store that keeps the contract: the check
  against the remaining amount runs on the locked row, and the status of the payment tells
  whether anything is left to refund.
\<close>

section \<open>Operations\<close>

definition NewRefundService :: "('d, 'db, 'x) payment_store \<Rightarrow> ('d, 'db, 'x) tx_runner option \<Rightarrow>
    ('d, 'db, 'x) router \<Rightarrow> ('d, 'db, 'x) service" where
  "NewRefundService store runner router =
     \<lparr>svc_store = store, svc_runner = runner, svc_router = router\<rparr>"

definition refund_allowed :: "'d payment \<Rightarrow> bool" where
  "refund_allowed p \<longleftrightarrow>
     \<not> (p_Status p \<noteq> PaymentStatusCompleted \<and> p_Status p \<noteq> PaymentStatusRefundPending)"

text \<open>The loop over the refunds of a payment that adds up the completed ones.\<close>

fun add_completed :: "'d decimal_ops \<Rightarrow> 'd \<Rightarrow> 'd refund list \<Rightarrow> 'd" where
  "add_completed D sofar [] = sofar"
| "add_completed D sofar (r # rs) =
     add_completed D (if r_Status r = RefundStatusCompleted then dec_Add D sofar (r_Amount r)
                      else sofar) rs"

definition new_refund :: "'d payment \<Rightarrow> uuid \<Rightarrow> 'd \<Rightarrow> string \<Rightarrow> string \<Rightarrow> string \<Rightarrow> time \<Rightarrow> uuid \<Rightarrow>
    'd refund" where
  "new_refund payment paymentID amount reason initiatedBy correlationID now u =
     \<lparr>r_ID = u, r_PaymentID = paymentID, r_Amount = amount, r_Currency = p_Currency payment,
      r_Status = RefundStatusPending, r_Reason = nullString reason, r_GatewayRefundID = None,
      r_FailureReason = None, r_FailureCode = None, r_CreatedAt = now, r_ProcessedAt = None,
      r_CompletedAt = None, r_CorrelationID = nullString correlationID,
      r_InitiatedBy = nullString initiatedBy\<rparr>"

definition refund_gateway_request :: "'d payment \<Rightarrow> 'd \<Rightarrow> string \<Rightarrow> string \<Rightarrow>
    'd gateway_refund_request" where
  "refund_gateway_request locked amount reason correlationID =
     \<lparr>rq_PaymentTransactionID = ns_String (p_GatewayTransactionID locked),
      rq_PaymentIntentID = ns_String (p_GatewayPaymentIntentID locked),
      rq_Amount = amount, rq_Currency = p_Currency locked, rq_Reason = reason,
      rq_IdempotencyKey = [], rq_CorrelationID = correlationID\<rparr>"

definition refund_transaction :: "'d payment \<Rightarrow> uuid \<Rightarrow> 'd refund \<Rightarrow> 'd \<Rightarrow> string \<Rightarrow> refund_result \<Rightarrow>
    uuid \<Rightarrow> time \<Rightarrow> 'd transaction" where
  "refund_transaction payment paymentID refund amount correlationID result u now =
     \<lparr>t_ID = u, t_PaymentID = paymentID, t_RefundID = Some (r_ID refund),
      t_Type = TransactionTypeRefund, t_Amount = amount, t_Currency = p_Currency payment,
      t_Success = rr_Success result,
      t_GatewayTransactionID = nullString (rr_RefundID result),
      t_GatewayResponse = nullString (rr_RawResponse result),
      t_GatewayErrorCode = nullString (rr_ErrorCode result),
      t_GatewayErrorMessage = nullString (rr_ErrorMessage result),
      t_CreatedAt = now, t_CorrelationID = nullString correlationID,
      t_IPAddress = None, t_UserAgent = None\<rparr>"

definition completed_refund :: "refund_result \<Rightarrow> time \<Rightarrow> 'd refund \<Rightarrow> 'd refund" where
  "completed_refund result now r =
     r\<lparr>r_Status := RefundStatusCompleted, r_GatewayRefundID := nullString (rr_RefundID result),
       r_CompletedAt := Some now, r_FailureReason := None, r_FailureCode := None\<rparr>"

definition failed_refund :: "refund_result \<Rightarrow> 'd refund \<Rightarrow> 'd refund" where
  "failed_refund result r =
     r\<lparr>r_Status := RefundStatusFailed, r_FailureCode := nullString (rr_ErrorCode result),
       r_FailureReason := nullString (rr_ErrorMessage result)\<rparr>"

definition with_refund_result :: "('d, 'db, 'x) payment_gateway \<Rightarrow> 'd gateway_refund_request \<Rightarrow>
    (refund_result \<Rightarrow> ('db, 'x) world \<Rightarrow> 'r) \<Rightarrow> ('db, 'x) world \<Rightarrow> 'r" where
  "with_refund_result g request f w =
     (case gw_ProcessRefund g request w of (result, w') \<Rightarrow> f result w')"

text \<open>The end of the closure: the row of the payment and of the refund after the answer.\<close>

definition settle_refund :: "'d env \<Rightarrow> ('d, 'db, 'x) payment_store \<Rightarrow> 'd payment \<Rightarrow> 'd refund \<Rightarrow>
    'd \<Rightarrow> 'd \<Rightarrow> refund_result \<Rightarrow> ('db, 'x, 'd refund) go" where
  "settle_refund E store locked refund amount remaining result =
     (if rr_Success result
      then with_now E (\<lambda>done.
             bindE (st_UpdatePayment store
                      (locked\<lparr>p_Status := if dec_Cmp (E_dec E) amount remaining \<ge> 0
                                          then PaymentStatusRefunded
                                          else PaymentStatusCompleted\<rparr>))
               (\<lambda>_. st_UpdateRefund store (completed_refund result done refund)))
      else bindE (st_UpdatePayment store (locked\<lparr>p_Status := PaymentStatusRefundFailed\<rparr>))
             (\<lambda>_. st_UpdateRefund store (failed_refund result refund)))"

text \<open>The closure \<open>persist\<close> of \<open>ProcessRefund\<close>; \<open>payment\<close> is the row read before the transaction,
  \<open>locked\<close> the one read under the row lock.\<close>

definition persistRefund :: "'d env \<Rightarrow> ('d, 'db, 'x) payment_gateway \<Rightarrow> 'd payment \<Rightarrow> 'd refund \<Rightarrow>
    uuid \<Rightarrow> 'd \<Rightarrow> string \<Rightarrow> string \<Rightarrow> ('d, 'db, 'x) payment_store \<Rightarrow> ('db, 'x, 'd refund) go" where
  "persistRefund E gatewayImpl payment refund paymentID amount reason correlationID store =
     bindE (st_GetPaymentForUpdate store paymentID) (\<lambda>locked.
     if \<not> refund_allowed locked then failE ErrRefundNotAllowed
     else
     bindE (st_GetRefundsByPayment store paymentID) (\<lambda>existingRefunds.
     let totalRefunded = add_completed (E_dec E) (dec_Zero (E_dec E)) existingRefunds;
         remaining = dec_Sub (E_dec E) (p_Amount locked) totalRefunded
     in
     if dec_Cmp (E_dec E) amount remaining > 0 then failE ErrRefundExceedsRemaining
     else
     bindE (st_CreateRefund store refund) (\<lambda>refund.
     bindE (st_UpdatePayment store (locked\<lparr>p_Status := PaymentStatusRefundPending\<rparr>)) (\<lambda>locked.
     with_now E (\<lambda>started.
     bindE (st_UpdateRefund store
              (refund\<lparr>r_Status := RefundStatusProcessing, r_ProcessedAt := Some started\<rparr>))
       (\<lambda>refund.
     with_refund_result gatewayImpl
       (refund_gateway_request locked amount reason correlationID) (\<lambda>result.
     with_uuid E (\<lambda>u. with_now E (\<lambda>now.
     bindE (st_CreateTransaction store
              (refund_transaction payment paymentID refund amount correlationID result u now))
       (\<lambda>_. settle_refund E store locked refund amount remaining result))))))))))"

definition ProcessRefund :: "'d env \<Rightarrow> ('d, 'db, 'x) service \<Rightarrow> uuid \<Rightarrow> 'd \<Rightarrow> string \<Rightarrow> string \<Rightarrow>
    string \<Rightarrow> ('db, 'x, 'd refund) go" where
  "ProcessRefund E svc paymentID amount reason initiatedBy correlationID =
     (let refund_it =
        bindE (or_not_found ErrPaymentNotFound (st_GetPayment (svc_store svc) paymentID)) (\<lambda>payment.
          if \<not> refund_allowed payment then failE ErrRefundNotAllowed
          else case GetGateway E (svc_router svc) (p_Gateway payment) of
            Inl err \<Rightarrow> failE err
          | Inr gatewayImpl \<Rightarrow>
              with_now E (\<lambda>now. with_uuid E (\<lambda>u.
                run_persist svc
                  (persistRefund E gatewayImpl payment
                     (new_refund payment paymentID amount reason initiatedBy correlationID now u)
                     paymentID amount reason correlationID))))
      in if \<not> blank correlationID
         then found_or (st_GetRefundByCorrelationID (svc_store svc) correlationID) refund_it
         else refund_it)"

definition svc_GetRefund :: "('d, 'db, 'x) service \<Rightarrow> uuid \<Rightarrow> ('db, 'x, 'd refund) go" where
  "svc_GetRefund svc refundID = or_not_found ErrRefundNotFound (st_GetRefund (svc_store svc) refundID)"

definition svc_GetRefundsByPayment :: "('d, 'db, 'x) service \<Rightarrow> uuid \<Rightarrow> ('db, 'x, 'd refund list) go"
  where
  "svc_GetRefundsByPayment svc paymentID = st_GetRefundsByPayment (svc_store svc) paymentID"

definition GetTotalRefunded :: "'d env \<Rightarrow> ('d, 'db, 'x) service \<Rightarrow> uuid \<Rightarrow> ('db, 'x, 'd) go" where
  "GetTotalRefunded E svc paymentID w =
     (case st_GetRefundsByPayment (svc_store svc) paymentID w of
        (Inl err, w') \<Rightarrow>
          if errors_Is err ErrNoRows then (Inr (dec_Zero (E_dec E)), w') else (Inl err, w')
      | (Inr refunds, w') \<Rightarrow>
          (Inr (add_completed (E_dec E) (dec_Zero (E_dec E)) refunds), w'))"

section \<open>Totals\<close>

text \<open>What has been refunded of a payment, as a number.\<close>

definition refunded :: "('d \<Rightarrow> rat) \<Rightarrow> 'd ledger \<Rightarrow> uuid \<Rightarrow> rat" where
  "refunded val L i =
     sum_list (map (\<lambda>r. val (r_Amount r))
       (filter (\<lambda>r. r_PaymentID r = i \<and> r_Status r = RefundStatusCompleted) (l_refunds L)))"

lemma sum_list_mset_eq:
  fixes f :: "'a \<Rightarrow> rat"
  assumes "mset xs = mset ys"
  shows "sum_list (map f xs) = sum_list (map f ys)"
  by (metis assms mset_map sum_mset_sum_list)

context decimal_laws begin

lemma val_add_completed:
  "val (add_completed D sofar rs) = val sofar +
     sum_list (map (\<lambda>r. val (r_Amount r)) (filter (\<lambda>r. r_Status r = RefundStatusCompleted) rs))"
  by (induction rs arbitrary: sofar) (simp_all add: val_Add add.assoc)

lemma val_total_of_payment:
  assumes "mset rs = mset (filter (\<lambda>r. r_PaymentID r = i) (l_refunds L))"
  shows "val (add_completed D (dec_Zero D) rs) = refunded val L i"
proof -
  let ?P = "\<lambda>r. r_Status r = RefundStatusCompleted"
  have "mset (filter ?P rs) = filter_mset ?P (mset (filter (\<lambda>r. r_PaymentID r = i) (l_refunds L)))"
    by (simp only: mset_filter assms)
  then have "mset (filter ?P rs) =
      mset (filter (\<lambda>r. r_PaymentID r = i \<and> ?P r) (l_refunds L))"
    by (simp only: filter_filter flip: mset_filter)
  from sum_list_mset_eq [OF this] show ?thesis
    by (simp add: val_add_completed val_Zero refunded_def)
qed

end

section \<open>The calls of a recorded refund\<close>

definition final_status :: "'d env \<Rightarrow> 'd \<Rightarrow> 'd \<Rightarrow> refund_result \<Rightarrow> payment_status" where
  "final_status E amount remaining result =
     (if rr_Success result
      then if dec_Cmp (E_dec E) amount remaining \<ge> 0 then PaymentStatusRefunded
           else PaymentStatusCompleted
      else PaymentStatusRefundFailed)"

definition settled_refund :: "refund_result \<Rightarrow> time \<Rightarrow> 'd refund \<Rightarrow> 'd refund" where
  "settled_refund result now r =
     (if rr_Success result then completed_refund result now r else failed_refund result r)"

lemma settle_refund_trace:
  assumes "settle_refund E store p r amount remaining result w = (Inr r', w')"
  obtains wa q wb where "w_db wa = w_db w"
    "st_UpdatePayment store (p\<lparr>p_Status := final_status E amount remaining result\<rparr>) wa = (Inr q, wb)"
    "st_UpdateRefund store (settled_refund result (E_now E (w_clk w)) r) wb = (Inr r', w')"
proof (cases "rr_Success result")
  case True
  with assms that [of "w\<lparr>w_clk := Suc (w_clk w)\<rparr>"] show thesis
    by (auto simp: settle_refund_def final_status_def settled_refund_def with_now_def bindE_Inr)
next
  case False
  with assms that [of w] show thesis
    by (auto simp: settle_refund_def final_status_def settled_refund_def bindE_Inr)
qed

definition remaining_of :: "'d env \<Rightarrow> 'd payment \<Rightarrow> 'd refund list \<Rightarrow> 'd" where
  "remaining_of E locked rs =
     dec_Sub (E_dec E) (p_Amount locked) (add_completed (E_dec E) (dec_Zero (E_dec E)) rs)"

lemma persistRefund_trace:
  assumes "persistRefund E g payment refund i amount reason c store w = (Inr r', w')"
  obtains locked w1 rs w2 r1 w3 p1 w4 r2 w5 result w6 t w7 where
    "st_GetPaymentForUpdate store i w = (Inr locked, w1)" "refund_allowed locked"
    "st_GetRefundsByPayment store i w1 = (Inr rs, w2)"
    "\<not> dec_Cmp (E_dec E) amount (remaining_of E locked rs) > 0"
    "st_CreateRefund store refund w2 = (Inr r1, w3)"
    "st_UpdatePayment store (locked\<lparr>p_Status := PaymentStatusRefundPending\<rparr>) w3 = (Inr p1, w4)"
    "st_UpdateRefund store (r1\<lparr>r_Status := RefundStatusProcessing,
       r_ProcessedAt := Some (E_now E (w_clk w4))\<rparr>) (w4\<lparr>w_clk := Suc (w_clk w4)\<rparr>) = (Inr r2, w5)"
    "gw_ProcessRefund g (refund_gateway_request p1 amount reason c) w5 = (result, w6)"
    "st_CreateTransaction store
       (refund_transaction payment i r2 amount c result (E_uuid E (w_ids w6)) (E_now E (w_clk w6)))
       (w6\<lparr>w_ids := Suc (w_ids w6), w_clk := Suc (w_clk w6)\<rparr>) = (Inr t, w7)"
    "settle_refund E store p1 r2 amount (remaining_of E locked rs) result w7 = (Inr r', w')"
proof -
  obtain locked w1 rs w2 r1 w3 p1 w4 r2 w5 where
    a: "st_GetPaymentForUpdate store i w = (Inr locked, w1)" "refund_allowed locked"
      "st_GetRefundsByPayment store i w1 = (Inr rs, w2)"
      "\<not> dec_Cmp (E_dec E) amount (remaining_of E locked rs) > 0"
    and b: "st_CreateRefund store refund w2 = (Inr r1, w3)"
      "st_UpdatePayment store (locked\<lparr>p_Status := PaymentStatusRefundPending\<rparr>) w3 = (Inr p1, w4)"
      "st_UpdateRefund store (r1\<lparr>r_Status := RefundStatusProcessing,
         r_ProcessedAt := Some (E_now E (w_clk w4))\<rparr>) (w4\<lparr>w_clk := Suc (w_clk w4)\<rparr>) = (Inr r2, w5)"
    and c: "with_refund_result g (refund_gateway_request p1 amount reason c) (\<lambda>result.
       with_uuid E (\<lambda>u. with_now E (\<lambda>now.
       bindE (st_CreateTransaction store (refund_transaction payment i r2 amount c result u now))
       (\<lambda>_. settle_refund E store p1 r2 amount (remaining_of E locked rs) result)))) w5 =
       (Inr r', w')"
    using assms unfolding persistRefund_def bindE_Inr remaining_of_def Let_def
    by (simp add: with_now_def bindE_Inr split: if_splits) blast
  obtain result w6 where d: "gw_ProcessRefund g (refund_gateway_request p1 amount reason c) w5 =
      (result, w6)" by fastforce
  from c d obtain t w7 where "st_CreateTransaction store
       (refund_transaction payment i r2 amount c result (E_uuid E (w_ids w6)) (E_now E (w_clk w6)))
       (w6\<lparr>w_ids := Suc (w_ids w6), w_clk := Suc (w_clk w6)\<rparr>) = (Inr t, w7)"
    "settle_refund E store p1 r2 amount (remaining_of E locked rs) result w7 = (Inr r', w')"
    by (auto simp: with_refund_result_def with_uuid_def with_now_def bindE_Inr)
  with a b d show thesis by (rule that)
qed

lemma steps_refund_result:
  assumes R: "frame_rel R" and g: "\<And>w res w1. gw_ProcessRefund g q w = (res, w1) \<Longrightarrow> R w w1"
    and f: "\<And>res. steps R (f res)"
  shows "steps R (with_refund_result g q f)"
  unfolding steps_def with_refund_result_def
proof (intro allI impI)
  fix w r w'
  assume run: "(case gw_ProcessRefund g q w of (result, w') \<Rightarrow> f result w') = (r, w')"
  obtain res w1 where g1: "gw_ProcessRefund g q w = (res, w1)" by fastforce
  with run have "f res w1 = (r, w')" by simp
  from frame_trans [OF R g [OF g1] stepsD [OF f this]] show "R w w'" .
qed

lemma steps_persistRefund:
  assumes R: "frame_rel R" and s: "reads R store" "writes R store"
    and g: "\<And>q w res w1. gw_ProcessRefund g q w = (res, w1) \<Longrightarrow> R w w1"
  shows "steps R (persistRefund E g payment refund i amount reason c store)"
  unfolding persistRefund_def settle_refund_def Let_def
  by (intro steps_intros steps_refund_result R g readsD [OF s(1)] writesD [OF s(2)])


section \<open>What a refund does to the ledger\<close>

text \<open>The status the payment is left with, in numbers.\<close>

definition status_after :: "bool \<Rightarrow> rat \<Rightarrow> rat \<Rightarrow> payment_status" where
  "status_after success amount remaining =
     (if success then if remaining \<le> amount then PaymentStatusRefunded else PaymentStatusCompleted
      else PaymentStatusRefundFailed)"

text \<open>The ledger gains the row of the refund, settled as the gateway answered, and one REFUND
  entry of the audit log; the row of the payment, whose remaining amount covers the refund, moves
  to its new status.\<close>

definition refund_recorded :: "('d \<Rightarrow> rat) \<Rightarrow> ('d \<Rightarrow> 'd) \<Rightarrow> (time \<Rightarrow> time) \<Rightarrow> refund_result \<Rightarrow>
    'd payment \<Rightarrow> 'd refund \<Rightarrow> 'd ledger \<Rightarrow> 'd ledger \<Rightarrow> bool" where
  "refund_recorded val ka kt result p r L L' \<longleftrightarrow>
     p \<in> set (l_payments L) \<and> p_ID p = r_PaymentID r \<and> refund_allowed p \<and>
     val (r_Amount r) \<le> val (p_Amount p) - refunded val L (p_ID p) \<and>
     r_ID r \<notin> r_ID ` set (l_refunds L) \<and>
     r_Status r = (if rr_Success result then RefundStatusCompleted else RefundStatusFailed) \<and>
     (\<exists>u t. t_PaymentID t = p_ID p \<and> t_RefundID t = Some (r_ID r) \<and>
        t_Type t = TransactionTypeRefund \<and> t_Success t = rr_Success result \<and>
        t_Amount t = ka (r_Amount r) \<and>
        L' = L\<lparr>l_payments := replace_payment
                 (p\<lparr>p_Status := status_after (rr_Success result) (val (r_Amount r))
                                 (val (p_Amount p) - refunded val L (p_ID p)),
                    p_UpdatedAt := Some u\<rparr>) (l_payments L),
               l_refunds := l_refunds L @ [keep_refund ka kt r],
               l_txs := l_txs L @ [t]\<rparr>)"

text \<open>The gateway of the payment was asked once for the refund.\<close>

definition refund_asked :: "'d env \<Rightarrow> ('d, 'db, 'x) service \<Rightarrow> string \<Rightarrow>
    ('d gateway_refund_request \<Rightarrow> bool) \<Rightarrow> ('db, 'x) world \<Rightarrow> refund_result \<Rightarrow>
    ('db, 'x) world \<Rightarrow> bool" where
  "refund_asked E svc name P w result w' \<longleftrightarrow>
     (\<exists>g q w0 w1. GetGateway E (svc_router svc) name = Inr g \<and> P q \<and> quiet w w0 \<and>
        gw_ProcessRefund g q w0 = (result, w1) \<and> quiet w1 w')"

text \<open>Whether the ledger allows a refund: the payment is there, it is open for refunds, and enough of
  it is left.\<close>

definition refund_covered :: "('d \<Rightarrow> rat) \<Rightarrow> 'd ledger \<Rightarrow> uuid \<Rightarrow> 'd \<Rightarrow> bool" where
  "refund_covered val L i amount \<longleftrightarrow>
     list_ex (\<lambda>p. p_ID p = i \<and> refund_allowed p \<and> val amount \<le> val (p_Amount p) - refunded val L i)
       (l_payments L)"

text \<open>The three ways \<open>ProcessRefund\<close> can end: without a call of the gateway and with an unchanged
  ledger (an error, or an earlier refund returned); with an answer of the gateway that was
  recorded; or with a call of the gateway whose record failed.\<close>

definition refund_outcome :: "('d \<Rightarrow> rat) \<Rightarrow> ('d \<Rightarrow> 'd) \<Rightarrow> (time \<Rightarrow> time) \<Rightarrow> 'd env \<Rightarrow>
    ('d, 'db, 'x) service \<Rightarrow> uuid \<Rightarrow> 'd \<Rightarrow> string \<Rightarrow> string \<Rightarrow> 'd ledger \<Rightarrow> ('db, 'x) world \<Rightarrow>
    go_error + 'd refund \<Rightarrow> 'd ledger \<Rightarrow> ('db, 'x) world \<Rightarrow> bool" where
  "refund_outcome val ka kt E svc i amount reason c L w res L' w' \<longleftrightarrow>
     L' = L \<and> quiet w w' \<and>
       (\<forall>r. res = Inr r \<longrightarrow> r \<in> set (l_refunds L) \<and> r_CorrelationID r = Some c \<and> \<not> blank c) \<or>
     (\<exists>p \<in> set (l_payments L). p_ID p = i \<and>
       ((\<exists>result r. res = Inr r \<and> r_PaymentID r = i \<and> r_Amount r = amount \<and>
           r_Currency r = p_Currency p \<and> r_CorrelationID r = nullString c \<and>
           refund_recorded val ka kt result p r L L' \<and>
           refund_asked E svc (p_Gateway p)
             (\<lambda>q. q = refund_gateway_request p amount reason c) w result w') \<or>
        (\<exists>result e. res = Inl e \<and> L' = L \<and>
           refund_asked E svc (p_Gateway p) (\<lambda>q. rq_Amount q = amount) w result w')))"


text \<open>At most one call of the gateway's refund operation, with a request that satisfies \<open>P\<close>.\<close>

definition asks_once :: "('d, 'db, 'x) payment_gateway \<Rightarrow> ('d gateway_refund_request \<Rightarrow> bool) \<Rightarrow>
    ('db, 'x) world_rel" where
  "asks_once g P w w' \<longleftrightarrow> quiet w w' \<or>
     (\<exists>q w0 result w1. P q \<and> quiet w w0 \<and> gw_ProcessRefund g q w0 = (result, w1) \<and> quiet w1 w')"

lemma asks_once_after: "quiet w w0 \<Longrightarrow> asks_once g P w0 w' \<Longrightarrow> asks_once g P w w'"
  unfolding asks_once_def by (blast intro: quiet_trans)

lemma asks_quiet: "steps quiet m \<Longrightarrow> steps (asks_once g P) m"
  by (auto elim!: steps_mono simp: asks_once_def)

lemma asks_bindE:
  assumes m: "steps quiet m" and f: "\<And>x. steps (asks_once g P) (f x)"
  shows "steps (asks_once g P) (bindE m f)"
  unfolding steps_def
proof (intro allI impI)
  fix w r w'
  assume run: "bindE m f w = (r, w')"
  obtain r1 w1 where m1: "m w = (r1, w1)" by fastforce
  note q = stepsD [OF m m1]
  show "asks_once g P w w'"
  proof (cases r1)
    case (Inl e)
    with run m1 q show ?thesis by (simp add: bindE_def asks_once_def)
  next
    case (Inr x)
    with run m1 have "f x w1 = (r, w')" by (simp add: bindE_def)
    from asks_once_after [OF q stepsD [OF f this]] show ?thesis .
  qed
qed

lemma asks_with_now:
  assumes "\<And>t. steps (asks_once g P) (f t)"
  shows "steps (asks_once g P) (with_now E f)"
  unfolding steps_def with_now_def
  using asks_once_after [OF quiet_counters(1) stepsD [OF assms]] by blast

lemma asks_result:
  assumes "P q" and f: "\<And>res. steps quiet (f res)"
  shows "steps (asks_once g P) (with_refund_result g q f)"
  unfolding steps_def with_refund_result_def
proof (intro allI impI)
  fix w r w'
  assume run: "(case gw_ProcessRefund g q w of (result, w') \<Rightarrow> f result w') = (r, w')"
  obtain res w1 where g1: "gw_ProcessRefund g q w = (res, w1)" by fastforce
  with run have "f res w1 = (r, w')" by simp
  from \<open>P q\<close> g1 stepsD [OF f this] show "asks_once g P w w'"
    unfolding asks_once_def by (blast intro: quiet_refl)
qed

lemma persistRefund_asks:
  assumes s: "reads quiet store" "writes quiet store"
  shows "steps (asks_once g (\<lambda>q. rq_Amount q = amount))
    (persistRefund E g payment refund i amount reason c store)"
  unfolding persistRefund_def settle_refund_def Let_def
  by (intro asks_bindE asks_with_now asks_result asks_quiet steps_if steps_intros frame_quiet
      readsD [OF s(1)] writesD [OF s(2)])
    (simp add: refund_gateway_request_def)


lemma keep_payment_kept:
  "keep_payment ka kt p = p \<Longrightarrow>
     keep_payment ka kt (p\<lparr>p_Status := s, p_UpdatedAt := Some u\<rparr>) =
       p\<lparr>p_Status := s, p_UpdatedAt := Some (kt u)\<rparr>"
  by (cases p) (simp add: keep_payment_def)

lemma refund_gateway_request_cong:
  "p_GatewayTransactionID p' = p_GatewayTransactionID p \<Longrightarrow>
   p_GatewayPaymentIntentID p' = p_GatewayPaymentIntentID p \<Longrightarrow> p_Currency p' = p_Currency p \<Longrightarrow>
   refund_gateway_request p' amount reason c = refund_gateway_request p amount reason c"
  by (simp add: refund_gateway_request_def)

lemma replace_new_refund:
  assumes "r_ID r \<notin> r_ID ` set rs" "r_ID r' = r_ID r" "r_CreatedAt r' = r_CreatedAt r"
  shows "replace_refund (keep_refund ka kt r') (rs @ [keep_refund ka kt r]) = rs @ [keep_refund ka kt r']"
  using assms by (simp add: replace_refund_append replace_refund_fresh keep_refund_def)

context transactional_store begin

text \<open>The three parts of the transaction: the payment is locked and its refunds are read, the refund
  is opened, and, once the gateway has answered, it is settled.\<close>

lemma refund_locked:
  assumes inv: "inv (w_db w)" and E: "E_dec E = D"
    and c1: "st_GetPaymentForUpdate (tr_store T) i w = (Inr locked, w1)"
    and c2: "st_GetRefundsByPayment (tr_store T) i w1 = (Inr rs, w2)"
  shows "inv (w_db w2) \<and> view (w_db w2) = view (w_db w) \<and> quiet w w2 \<and>
    locked \<in> set (l_payments (view (w_db w))) \<and> p_ID locked = i \<and>
    val (remaining_of E locked rs) = val (p_Amount locked) - refunded val (view (w_db w)) i"
proof -
  note reads = readsD [OF tx.store_quiet(1), THEN stepsD]
  have v1: "inv (w_db w1)" "view (w_db w1) = view (w_db w)" using tx.get_view(2) [OF inv c1] by auto
  moreover have "inv (w_db w2)" "view (w_db w2) = view (w_db w)"
    using tx.get_view(8) [OF v1(1) c2] v1(2) by auto
  moreover have "quiet w w2" using reads(2) [OF c1] reads(8) [OF c2] by (rule quiet_trans)
  moreover have "locked \<in> set (l_payments (view (w_db w)))" "p_ID locked = i"
    using tx.get_payment_for_update [OF inv c1] by auto
  ultimately show ?thesis
    using tx.get_refunds_by_payment [OF v1(1) c2]
    by (simp add: remaining_of_def E val_Sub val_total_of_payment)
qed

lemma refund_opened:
  assumes inv: "inv (w_db w2)"
    and c3: "st_CreateRefund (tr_store T) refund w2 = (Inr r1, w3)"
    and c4: "st_UpdatePayment (tr_store T) (locked\<lparr>p_Status := PaymentStatusRefundPending\<rparr>) w3 =
      (Inr p1, w4)"
    and c5: "st_UpdateRefund (tr_store T) (r1\<lparr>r_Status := RefundStatusProcessing,
       r_ProcessedAt := Some (E_now E (w_clk w4))\<rparr>) (w4\<lparr>w_clk := Suc (w_clk w4)\<rparr>) = (Inr r2, w5)"
  shows "inv (w_db w5) \<and> quiet w2 w5 \<and> (\<exists>i ct u n.
    r2 = refund\<lparr>r_ID := i, r_CreatedAt := ct, r_Status := RefundStatusProcessing,
      r_ProcessedAt := Some n\<rparr> \<and>
    i \<notin> r_ID ` set (l_refunds (view (w_db w2))) \<and>
    p1 = locked\<lparr>p_Status := PaymentStatusRefundPending, p_UpdatedAt := Some u\<rparr> \<and>
    view (w_db w5) = (view (w_db w2))\<lparr>
      l_payments := replace_payment (keep_payment ka kt p1) (l_payments (view (w_db w2))),
      l_refunds := l_refunds (view (w_db w2)) @ [keep_refund ka kt r2]\<rparr>)"
proof -
  note writes = writesD [OF tx.store_quiet(2), THEN stepsD]
  have i3: "inv (w_db w3)" using tx.put_inv(3) [OF inv c3] .
  have i4: "inv (w_db w4)" using tx.put_inv(2) [OF i3 c4] .
  have i5: "inv (w_db w5)" using tx.put_inv(4) [OF _ c5] i4 by simp
  have q: "quiet w2 w5"
    using writes(3) [OF c3] writes(2) [OF c4] writes(4) [OF c5] by (simp add: quiet_def)
  obtain ri ct where r1: "r1 = refund\<lparr>r_ID := ri, r_CreatedAt := ct\<rparr>"
    and new: "r_ID r1 \<notin> r_ID ` set (l_refunds (view (w_db w2)))"
    and v3: "view (w_db w3) = (view (w_db w2))\<lparr>l_refunds := l_refunds (view (w_db w2)) @
      [keep_refund ka kt r1]\<rparr>"
    using tx.create_refund [OF inv c3] by blast
  obtain u where p1: "p1 = locked\<lparr>p_Status := PaymentStatusRefundPending, p_UpdatedAt := Some u\<rparr>"
    and v4: "view (w_db w4) = (view (w_db w3))\<lparr>l_payments :=
      replace_payment (keep_payment ka kt p1) (l_payments (view (w_db w3)))\<rparr>"
    using tx.update_payment [OF i3 c4] by auto
  have r2: "r2 = r1\<lparr>r_Status := RefundStatusProcessing, r_ProcessedAt := Some (E_now E (w_clk w4))\<rparr>"
    and v5: "view (w_db w5) = (view (w_db w4))\<lparr>l_refunds :=
      replace_refund (keep_refund ka kt r2) (l_refunds (view (w_db w4)))\<rparr>"
    using tx.update_refund [OF _ c5] i4 by auto
  have "replace_refund (keep_refund ka kt r2) (l_refunds (view (w_db w2)) @ [keep_refund ka kt r1]) =
      l_refunds (view (w_db w2)) @ [keep_refund ka kt r2]"
    by (rule replace_new_refund [OF new]) (simp_all add: r2)
  with i5 q p1 new show ?thesis
    unfolding v5 v4 v3 r2 r1 by (intro conjI exI) simp_all
qed

lemma refund_settled:
  assumes inv: "inv (w_db w6)"
    and c7: "st_CreateTransaction (tr_store T)
       (refund_transaction payment i r2 amount c result (E_uuid E (w_ids w6)) (E_now E (w_clk w6)))
       (w6\<lparr>w_ids := Suc (w_ids w6), w_clk := Suc (w_clk w6)\<rparr>) = (Inr t, w7)"
    and c8: "settle_refund E (tr_store T) p1 r2 amount remaining result w7 = (Inr r', w')"
  shows "quiet w6 w' \<and> (\<exists>it c7t n ub q.
    t = (refund_transaction payment i r2 amount c result (E_uuid E (w_ids w6)) (E_now E (w_clk w6)))
      \<lparr>t_ID := it, t_CreatedAt := c7t\<rparr> \<and>
    q = p1\<lparr>p_Status := final_status E amount remaining result, p_UpdatedAt := Some ub\<rparr> \<and>
    r' = settled_refund result n r2 \<and>
    view (w_db w') = (view (w_db w6))\<lparr>
      l_payments := replace_payment (keep_payment ka kt q) (l_payments (view (w_db w6))),
      l_refunds := replace_refund (keep_refund ka kt r') (l_refunds (view (w_db w6))),
      l_txs := l_txs (view (w_db w6)) @ [keep_transaction ka kt t]\<rparr>)"
proof -
  obtain wa q wb where c9: "w_db wa = w_db w7"
    "st_UpdatePayment (tr_store T) (p1\<lparr>p_Status := final_status E amount remaining result\<rparr>) wa =
      (Inr q, wb)"
    "st_UpdateRefund (tr_store T) (settled_refund result (E_now E (w_clk w7)) r2) wb = (Inr r', w')"
    using c8 by (rule settle_refund_trace)
  have i7: "inv (w_db w7)" using tx.put_inv(5) [OF _ c7] inv by simp
  have ib: "inv (w_db wb)" using tx.put_inv(2) [OF _ c9(2)] i7 c9(1) by simp
  have "steps quiet (settle_refund E (tr_store T) p1 r2 amount remaining result)"
    unfolding settle_refund_def
    by (intro steps_intros frame_quiet writesD [OF tx.store_quiet(2)])
  from stepsD [OF this c8] stepsD [OF writesD(5) [OF tx.store_quiet(2)] c7] have q6: "quiet w6 w'"
    by (simp add: quiet_def)
  obtain it c7t where t: "t = (refund_transaction payment i r2 amount c result
      (E_uuid E (w_ids w6)) (E_now E (w_clk w6)))\<lparr>t_ID := it, t_CreatedAt := c7t\<rparr>"
    and v7: "view (w_db w7) = (view (w_db w6))\<lparr>l_txs := l_txs (view (w_db w6)) @
      [keep_transaction ka kt t]\<rparr>"
    using tx.create_transaction [OF _ c7] inv by auto
  obtain ub where q: "q = p1\<lparr>p_Status := final_status E amount remaining result,
      p_UpdatedAt := Some ub\<rparr>"
    and vb: "view (w_db wb) = (view (w_db w7))\<lparr>l_payments :=
      replace_payment (keep_payment ka kt q) (l_payments (view (w_db w7)))\<rparr>"
    using tx.update_payment [OF _ c9(2)] i7 c9(1) by auto
  have r': "r' = settled_refund result (E_now E (w_clk w7)) r2"
    and v': "view (w_db w') = (view (w_db wb))\<lparr>l_refunds :=
      replace_refund (keep_refund ka kt r') (l_refunds (view (w_db wb)))\<rparr>"
    using tx.update_refund [OF ib c9(3)] by auto
  show ?thesis
    by (rule conjI [OF q6], intro exI conjI, rule t, rule q, rule r') (simp add: v' vb v7)
qed

text \<open>Together they record the refund.\<close>

lemma refund_parts_recorded:
  assumes inv: "inv db" and E: "E_dec E = D"
    and locked: "locked \<in> set (l_payments (view db))" "p_ID locked = i" "refund_allowed locked"
    and remaining: "val remaining = val (p_Amount locked) - refunded val (view db) i"
    and fits: "\<not> dec_Cmp (E_dec E) amount remaining > 0"
    and p1: "p1 = locked\<lparr>p_Status := PaymentStatusRefundPending, p_UpdatedAt := Some u\<rparr>"
    and r2: "r2 = refund\<lparr>r_ID := ri, r_CreatedAt := ct, r_Status := RefundStatusProcessing,
      r_ProcessedAt := Some n\<rparr>" "r_PaymentID refund = i" "r_Amount refund = amount"
    and new: "ri \<notin> r_ID ` set (l_refunds (view db))"
    and t: "t = (refund_transaction payment i r2 amount c result tid now)\<lparr>t_ID := it, t_CreatedAt := c7t\<rparr>"
    and q: "q = p1\<lparr>p_Status := final_status E amount remaining result, p_UpdatedAt := Some ub\<rparr>"
    and r': "r' = settled_refund result n' r2"
    and L': "L' = (view db)\<lparr>
      l_payments := replace_payment (keep_payment ka kt q)
        (replace_payment (keep_payment ka kt p1) (l_payments (view db))),
      l_refunds := replace_refund (keep_refund ka kt r')
        (l_refunds (view db) @ [keep_refund ka kt r2]),
      l_txs := l_txs (view db) @ [keep_transaction ka kt t]\<rparr>"
  shows "refund_recorded val ka kt result locked r' (view db) L'"
proof -
  have fields: "r_ID r' = ri" "r_PaymentID r' = i" "r_Amount r' = amount" "r_CreatedAt r' = ct"
    "r_Status r' = (if rr_Success result then RefundStatusCompleted else RefundStatusFailed)"
    using r2(2,3) by (simp_all add: r' r2(1) settled_refund_def completed_refund_def failed_refund_def)
  have ids: "r_ID r2 = ri" "r_CreatedAt r2 = ct" by (simp_all add: r2(1))
  let ?s = "status_after (rr_Success result) (val amount)
    (val (p_Amount locked) - refunded val (view db) i)"
  have kq: "keep_payment ka kt q = locked\<lparr>p_Status := ?s, p_UpdatedAt := Some (kt ub)\<rparr>"
    using keep_payment_kept [OF payments_kept [OF inv locked(1)]]
    by (simp add: q p1 final_status_def status_after_def E Cmp_ge remaining)
  have rows: "replace_refund (keep_refund ka kt r') (l_refunds (view db) @ [keep_refund ka kt r2]) =
      l_refunds (view db) @ [keep_refund ka kt r']"
    by (rule replace_new_refund) (simp_all add: ids fields new)
  have "p_ID (keep_payment ka kt q) = p_ID (keep_payment ka kt p1)" by (simp add: q)
  then have L'': "L' = (view db)\<lparr>
      l_payments := replace_payment (keep_payment ka kt q) (l_payments (view db)),
      l_refunds := l_refunds (view db) @ [keep_refund ka kt r'],
      l_txs := l_txs (view db) @ [keep_transaction ka kt t]\<rparr>"
    unfolding L' rows by (simp add: replace_payment_twice)
  have le: "val amount \<le> val (p_Amount locked) - refunded val (view db) i"
    using fits by (simp add: E Cmp_gt remaining)
  have tf: "t_PaymentID t = i" "t_RefundID t = Some ri" "t_Type t = TransactionTypeRefund"
    "t_Success t = rr_Success result" "t_Amount t = amount"
    by (simp_all add: t refund_transaction_def ids)
  show ?thesis
    unfolding refund_recorded_def L'' kq
    using locked le new ids fields tf
    by (intro conjI exI [where x = "kt ub"] exI [where x = "keep_transaction ka kt t"]) simp_all
qed

lemma persist_refunds:
  assumes inv: "inv (w_db w)" and E: "E_dec E = D" and g: "gateway_contract g"
    and refund: "r_PaymentID refund = i" "r_Amount refund = amount"
    and run: "persistRefund E g payment refund i amount reason c (tr_store T) w = (Inr r', w')"
  shows "\<exists>p result w0 w1. p \<in> set (l_payments (view (w_db w))) \<and> p_ID p = i \<and>
    r_PaymentID r' = i \<and> r_Amount r' = amount \<and> r_Currency r' = r_Currency refund \<and>
    r_CorrelationID r' = r_CorrelationID refund \<and>
    refund_recorded val ka kt result p r' (view (w_db w)) (view (w_db w')) \<and>
    quiet w w0 \<and> gw_ProcessRefund g (refund_gateway_request p amount reason c) w0 = (result, w1) \<and>
    quiet w1 w'"
proof -
  let ?L = "view (w_db w)" and ?k = "keep_payment ka kt" and ?kr = "keep_refund ka kt"
  obtain locked w1 rs w2 r1 w3 p1 w4 r2 w5 result w6 t w7 where
    c1: "st_GetPaymentForUpdate (tr_store T) i w = (Inr locked, w1)"
    and allowed: "refund_allowed locked"
    and c2: "st_GetRefundsByPayment (tr_store T) i w1 = (Inr rs, w2)"
    and fits: "\<not> dec_Cmp (E_dec E) amount (remaining_of E locked rs) > 0"
    and opened: "st_CreateRefund (tr_store T) refund w2 = (Inr r1, w3)"
      "st_UpdatePayment (tr_store T) (locked\<lparr>p_Status := PaymentStatusRefundPending\<rparr>) w3 = (Inr p1, w4)"
      "st_UpdateRefund (tr_store T) (r1\<lparr>r_Status := RefundStatusProcessing,
         r_ProcessedAt := Some (E_now E (w_clk w4))\<rparr>) (w4\<lparr>w_clk := Suc (w_clk w4)\<rparr>) = (Inr r2, w5)"
    and c6: "gw_ProcessRefund g (refund_gateway_request p1 amount reason c) w5 = (result, w6)"
    and settled: "st_CreateTransaction (tr_store T)
       (refund_transaction payment i r2 amount c result (E_uuid E (w_ids w6)) (E_now E (w_clk w6)))
       (w6\<lparr>w_ids := Suc (w_ids w6), w_clk := Suc (w_clk w6)\<rparr>) = (Inr t, w7)"
      "settle_refund E (tr_store T) p1 r2 amount (remaining_of E locked rs) result w7 = (Inr r', w')"
    using run by (rule persistRefund_trace)
  have i2: "inv (w_db w2)" and v2: "view (w_db w2) = ?L" and q2: "quiet w w2"
    and locked: "locked \<in> set (l_payments ?L)" "p_ID locked = i"
    and tot: "val (remaining_of E locked rs) = val (p_Amount locked) - refunded val ?L i"
    using refund_locked [OF inv E c1 c2] by blast+
  obtain ri ct u n where i5: "inv (w_db w5)" and q5: "quiet w2 w5"
    and r2: "r2 = refund\<lparr>r_ID := ri, r_CreatedAt := ct, r_Status := RefundStatusProcessing,
      r_ProcessedAt := Some n\<rparr>"
    and new: "ri \<notin> r_ID ` set (l_refunds ?L)"
    and p1: "p1 = locked\<lparr>p_Status := PaymentStatusRefundPending, p_UpdatedAt := Some u\<rparr>"
    and v5: "view (w_db w5) = ?L\<lparr>l_payments := replace_payment (?k p1) (l_payments ?L),
      l_refunds := l_refunds ?L @ [?kr r2]\<rparr>"
    using refund_opened [OF i2 opened] unfolding v2 by blast
  have i6: "w_db w6 = w_db w5" using gateway_contract.refund_db [OF g c6] .
  obtain it c7t n' ub q where q6: "quiet w6 w'"
    and t: "t = (refund_transaction payment i r2 amount c result (E_uuid E (w_ids w6))
      (E_now E (w_clk w6)))\<lparr>t_ID := it, t_CreatedAt := c7t\<rparr>"
    and q: "q = p1\<lparr>p_Status := final_status E amount (remaining_of E locked rs) result,
      p_UpdatedAt := Some ub\<rparr>"
    and r': "r' = settled_refund result n' r2"
    and v': "view (w_db w') = (view (w_db w5))\<lparr>
      l_payments := replace_payment (?k q) (l_payments (view (w_db w5))),
      l_refunds := replace_refund (?kr r') (l_refunds (view (w_db w5))),
      l_txs := l_txs (view (w_db w5)) @ [keep_transaction ka kt t]\<rparr>"
    using refund_settled [OF _ settled] i5 unfolding i6 by blast
  have rec: "refund_recorded val ka kt result locked r' ?L (view (w_db w'))"
    by (rule refund_parts_recorded [OF inv E locked allowed tot fits p1 r2 refund new t q r'])
      (simp add: v' v5)
  have fields: "r_PaymentID r' = i" "r_Amount r' = amount" "r_Currency r' = r_Currency refund"
    "r_CorrelationID r' = r_CorrelationID refund"
    using refund by (simp_all add: r' r2 settled_refund_def completed_refund_def failed_refund_def)
  have "refund_gateway_request p1 amount reason c = refund_gateway_request locked amount reason c"
    by (rule refund_gateway_request_cong) (simp_all add: p1)
  with quiet_trans [OF q2 q5] q6 locked fields rec c6 show ?thesis by metis
qed

end


lemma or_not_found_cases:
  assumes "or_not_found e m w = (r, w')"
  obtains x where "m w = (Inr x, w')" "r = Inr x"
  | err where "m w = (Inl err, w')" "r = Inl (if errors_Is err ErrNoRows then e else err)"
  using assms by (auto simp: or_not_found_def split: prod.splits sum.splits if_splits)

lemma refund_asked_quiet:
  "quiet w w0 \<Longrightarrow> refund_asked E svc n P w0 res w' \<Longrightarrow> refund_asked E svc n P w res w'"
  unfolding refund_asked_def by (blast intro: quiet_trans)

lemma refund_outcome_quiet:
  "quiet w w0 \<Longrightarrow> refund_outcome val ka kt E svc i amount reason c L w0 r L' w' \<Longrightarrow>
     refund_outcome val ka kt E svc i amount reason c L w r L' w'"
  unfolding refund_outcome_def by (blast intro: quiet_trans refund_asked_quiet)

text \<open>What \<open>ProcessRefund\<close> does once no earlier refund is found.\<close>

abbreviation refund_it :: "'d env \<Rightarrow> ('d, 'db, 'x) service \<Rightarrow> uuid \<Rightarrow> 'd \<Rightarrow> string \<Rightarrow> string \<Rightarrow>
    string \<Rightarrow> ('db, 'x, 'd refund) go" where
  "refund_it E svc i amount reason who c \<equiv>
     bindE (or_not_found ErrPaymentNotFound (st_GetPayment (svc_store svc) i)) (\<lambda>payment.
       if \<not> refund_allowed payment then failE ErrRefundNotAllowed
       else case GetGateway E (svc_router svc) (p_Gateway payment) of
         Inl err \<Rightarrow> failE err
       | Inr gatewayImpl \<Rightarrow>
           with_now E (\<lambda>now. with_uuid E (\<lambda>u.
             run_persist svc
               (persistRefund E gatewayImpl payment
                  (new_refund payment i amount reason who c now u) i amount reason c))))"

lemma ProcessRefund_cases:
  assumes "ProcessRefund E svc i amount reason who c w = (r, w')"
  obtains (found) x where "\<not> blank c" "r = Inr x"
      "st_GetRefundByCorrelationID (svc_store svc) c w = (Inr x, w')"
  | (failed) e where "\<not> blank c" "r = Inl e" "\<not> errors_Is e ErrNoRows"
      "st_GetRefundByCorrelationID (svc_store svc) c w = (Inl e, w')"
  | (missing) e w1 where "\<not> blank c"
      "st_GetRefundByCorrelationID (svc_store svc) c w = (Inl e, w1)" "errors_Is e ErrNoRows"
      "refund_it E svc i amount reason who c w1 = (r, w')"
  | (anonymous) "blank c" "refund_it E svc i amount reason who c w = (r, w')"
  using assms by (auto simp: ProcessRefund_def Let_def split: if_splits elim!: found_or_cases)

context transactional_store begin

lemma persistRefund_in_tx:
  assumes "gateway_contract g"
  shows "steps in_tx (persistRefund E g payment refund i amount reason c (tr_store T))"
proof (rule steps_persistRefund [OF frame_in_tx tx_store_in_tx])
  fix q w res w1
  assume "gw_ProcessRefund g q w = (res, w1)"
  from gateway_contract.refund_db [OF assms this] show "in_tx w w1" by (simp add: in_tx_def)
qed

lemma RunInTx_asks:
  assumes fn: "steps (asks_once g P) (fn (tr_store T))"
  shows "steps (asks_once g P) (RunInTx T fn)"
  unfolding RunInTx_def
proof (rule asks_bindE [OF tx_quiet(1)])
  have later: "asks_once g P a b \<Longrightarrow> quiet b c \<Longrightarrow> asks_once g P a c"
    for a b c
    unfolding asks_once_def by (blast intro: quiet_trans)
  fix u :: unit
  show "steps (asks_once g P) (\<lambda>w. case fn (tr_store T) w of
         (Inl err, w1) \<Rightarrow>
           (case tr_rollback T w1 of
              (Inl rbErr, w2) \<Rightarrow> (Inl (rollback_failed err rbErr), w2)
            | (Inr _, w2) \<Rightarrow> (Inl err, w2))
       | (Inr x, w1) \<Rightarrow> bindE (tr_commit T) (\<lambda>_. returnE x) w1)"
    unfolding steps_def
  proof (intro allI impI)
    fix w r w'
    assume run: "(case fn (tr_store T) w of
         (Inl err, w1) \<Rightarrow>
           (case tr_rollback T w1 of
              (Inl rbErr, w2) \<Rightarrow> (Inl (rollback_failed err rbErr), w2)
            | (Inr _, w2) \<Rightarrow> (Inl err, w2))
       | (Inr x, w1) \<Rightarrow> bindE (tr_commit T) (\<lambda>_. returnE x) w1) = (r, w')"
    obtain r1 w1 where f: "fn (tr_store T) w = (r1, w1)" by fastforce
    obtain rr w2 where rb: "tr_rollback T w1 = (rr, w2)" by fastforce
    have "quiet w1 w'"
      using run f rb stepsD [OF tx_quiet(3) rb]
      by (auto split: sum.splits dest: stepsD [OF commit_quiet])
    with stepsD [OF fn f] show "asks_once g P w w'" by (rule later)
  qed
qed

text \<open>A refund the ledger does not allow fails before the gateway is called.\<close>

lemma persistRefund_refused:
  assumes inv: "inv (w_db w)" and E: "E_dec E = D"
    and no: "\<not> refund_covered val (view (w_db w)) i amount"
    and run: "persistRefund E g payment refund i amount reason c (tr_store T) w = (r, w')"
  shows "(\<exists>e. r = Inl e) \<and> quiet w w'"
proof -
  note reads = readsD [OF tx.store_quiet(1), THEN stepsD]
  obtain r1 w1 where g1: "st_GetPaymentForUpdate (tr_store T) i w = (r1, w1)" by fastforce
  obtain r2 w2 where g2: "st_GetRefundsByPayment (tr_store T) i w1 = (r2, w2)" by fastforce
  have q: "quiet w w1" "quiet w w2" using quiet_trans reads(2) [OF g1] reads(8) [OF g2] by blast+
  show ?thesis
  proof (cases "\<exists>locked rs. r1 = Inr locked \<and> refund_allowed locked \<and> r2 = Inr rs")
    case True
    then obtain locked rs where r: "r1 = Inr locked" "refund_allowed locked" "r2 = Inr rs" by blast
    note locked = refund_locked [OF inv E g1 [unfolded r(1)] g2 [unfolded r(3)]]
    have "val (p_Amount locked) - refunded val (view (w_db w)) i < val amount"
      using no locked r(2) by (auto simp: refund_covered_def list_ex_iff)
    then have "dec_Cmp (E_dec E) amount (remaining_of E locked rs) > 0"
      using locked by (simp add: E Cmp_gt)
    with run g1 g2 r q show ?thesis
      by (auto simp: persistRefund_def remaining_of_def bindE_def Let_def)
  next
    case False
    with run g1 g2 q show ?thesis
      by (auto simp: persistRefund_def bindE_def split: sum.splits if_splits)
  qed
qed

text \<open>Inside a transaction, what fails without a call of a gateway leaves the ledger and the
  gateways alone.\<close>

lemma RunInTx_refused:
  assumes inv: "inv (w_db w)"
    and fn: "\<And>wa r wb. inv (w_db wa) \<Longrightarrow> view (w_db wa) = view (w_db w) \<Longrightarrow>
      fn (tr_store T) wa = (r, wb) \<Longrightarrow> (\<exists>e. r = Inl e) \<and> quiet wa wb"
    and run: "RunInTx T fn w = (r, w')"
  shows "(\<exists>e. r = Inl e) \<and> quiet w w'"
proof -
  obtain rb w1 where b: "tr_begin T w = (rb, w1)" by fastforce
  note q1 = stepsD [OF tx_quiet(1) b]
  show ?thesis
  proof (cases rb)
    case (Inl e)
    with run b q1 show ?thesis by (auto simp: RunInTx_def bindE_def)
  next
    case (Inr u)
    with b have b': "tr_begin T w = (Inr u, w1)" by simp
    obtain r2 w2 where f: "fn (tr_store T) w1 = (r2, w2)" by fastforce
    obtain e where e: "r2 = Inl e" and q2: "quiet w1 w2"
      using fn [OF _ _ f] begin_ok [OF inv b'] by auto
    obtain r3 w3 where rb: "tr_rollback T w2 = (r3, w3)" by fastforce
    note q3 = stepsD [OF tx_quiet(3) rb]
    have "w' = w3" "\<exists>e. r = Inl e" using run b' f e rb by (auto simp: RunInTx_def bindE_def split: sum.splits)
    with quiet_trans [OF quiet_trans [OF q1 q2] q3] show ?thesis by simp
  qed
qed

text \<open>The refund once the payment and its gateway are known.\<close>

lemma run_refund_outcome:
  assumes inv: "inv (w_db w)" and E: "E_dec E = D" and svc: "svc_ok svc"
    and p: "p \<in> set (l_payments (view (w_db w)))" "p_ID p = i"
    and g: "GetGateway E (svc_router svc) (p_Gateway p) = Inr g"
    and run: "run_persist svc (persistRefund E g p (new_refund p i amount reason who c now u)
      i amount reason c) w = (r, w')"
  shows "inv (w_db w') \<and> refund_outcome val ka kt E svc i amount reason c
    (view (w_db w)) w r (view (w_db w')) w'"
proof -
  let ?fn = "persistRefund E g p (new_refund p i amount reason who c now u) i amount reason c"
  let ?L = "view (w_db w)"
  have gc: "gateway_contract g" using svc g by (auto simp: svc_ok_def dest: router_okD)
  have tx: "RunInTx T ?fn w = (r, w')" using run svc by (simp add: run_persist_def svc_ok_def)
  have once: "asks_once g (\<lambda>q. rq_Amount q = amount) w w'"
    by (rule stepsD [OF RunInTx_asks tx]) (rule persistRefund_asks [OF tx.store_quiet])
  show ?thesis
  proof (cases r)
    case (Inl e)
    have same: "inv (w_db w')" "view (w_db w') = ?L"
      using RunInTx_Inl [OF inv tx [unfolded Inl] persistRefund_in_tx [OF gc]] by auto
    from once have "quiet w w' \<or>
        (\<exists>res. refund_asked E svc (p_Gateway p) (\<lambda>q. rq_Amount q = amount) w res w')"
      unfolding asks_once_def refund_asked_def using g by blast
    with same Inl p show ?thesis unfolding refund_outcome_def by auto
  next
    case (Inr x)
    obtain wa wb where a: "inv (w_db wa)" "view (w_db wa) = ?L"
      and b: "?fn (tr_store T) wa = (Inr x, wb)"
      and d: "inv (w_db w')" "view (w_db w') = view (w_db wb)" "quiet w wa" "quiet wb w'"
      by (rule RunInTx_Inr [OF inv tx [unfolded Inr]], rule persistRefund_in_tx [OF gc], rule that)
    from persist_refunds [OF a(1) E gc _ _ b] obtain p' res w0 w1 where
      p': "p' \<in> set (l_payments ?L)" "p_ID p' = i"
      and x: "r_PaymentID x = i" "r_Amount x = amount" "r_Currency x = p_Currency p"
        "r_CorrelationID x = nullString c"
      and rec: "refund_recorded val ka kt res p' x ?L (view (w_db w'))"
      and ask: "quiet wa w0" "quiet w1 wb"
        "gw_ProcessRefund g (refund_gateway_request p' amount reason c) w0 = (res, w1)"
      by (auto simp: new_refund_def a(2) d(2))
    have "p' = p" using row_unique [OF inv p'(1) p(1)] p p' by simp
    have "refund_asked E svc (p_Gateway p) (\<lambda>q. q = refund_gateway_request p amount reason c) w res w'"
      unfolding refund_asked_def using g ask d(3,4) \<open>p' = p\<close> by (blast intro: quiet_trans)
    with p x rec Inr \<open>p' = p\<close> d(1) show ?thesis unfolding refund_outcome_def by blast
  qed
qed

lemma refund_it_cases:
  assumes inv: "inv (w_db w)" and svc: "svc_ok svc"
    and run: "refund_it E svc i amount reason who c w = (r, w')"
  obtains (refused) e where "r = Inl e" "quiet w w'" "inv (w_db w')" "view (w_db w') = view (w_db w)"
  | (asked) p g now u w2 where "p \<in> set (l_payments (view (w_db w)))" "p_ID p = i"
      "GetGateway E (svc_router svc) (p_Gateway p) = Inr g"
      "quiet w w2" "inv (w_db w2)" "view (w_db w2) = view (w_db w)"
      "run_persist svc (persistRefund E g p (new_refund p i amount reason who c now u)
         i amount reason c) w2 = (r, w')"
proof -
  have S: "svc_store svc = S" using svc by (simp add: svc_ok_def)
  obtain r1 w1 where get: "st_GetPayment S i w = (r1, w1)" by fastforce
  have w1: "inv (w_db w1)" "view (w_db w1) = view (w_db w)" "quiet w w1"
    using get_view(1) [OF inv get] stepsD [OF get_quiet(1) get] by auto
  show thesis
  proof (cases "\<exists>p g. r1 = Inr p \<and> refund_allowed p \<and>
      GetGateway E (svc_router svc) (p_Gateway p) = Inr g")
    case True
    then obtain p g where p: "r1 = Inr p" "refund_allowed p"
      "GetGateway E (svc_router svc) (p_Gateway p) = Inr g" by blast
    define w2 where "w2 = w1\<lparr>w_clk := Suc (w_clk w1), w_ids := Suc (w_ids w1)\<rparr>"
    have w2: "inv (w_db w2)" "view (w_db w2) = view (w_db w)" "quiet w w2"
      using w1 by (simp_all add: w2_def quiet_def)
    have "run_persist svc (persistRefund E g p (new_refund p i amount reason who c
        (E_now E (w_clk w1)) (E_uuid E (w_ids w1))) i amount reason c) w2 = (r, w')"
      using run get S p by (simp add: bindE_def or_not_found_def with_now_def with_uuid_def w2_def)
    then show thesis
      using get_payment [OF inv get [unfolded p(1)]]
      by (intro asked [OF _ _ p(3) w2(3,1,2)]) simp_all
  next
    case False
    then have "w' = w1" "\<exists>e. r = Inl e" using run get S
      by (auto simp: bindE_def failE_def or_not_found_def split: sum.splits if_splits)
    with w1 show thesis by (elim exE) (simp add: refused)
  qed
qed

lemma refund_it_outcome:
  assumes inv: "inv (w_db w)" and E: "E_dec E = D" and svc: "svc_ok svc"
    and run: "refund_it E svc i amount reason who c w = (r, w')"
  shows "inv (w_db w') \<and> refund_outcome val ka kt E svc i amount reason c
    (view (w_db w)) w r (view (w_db w')) w'"
  using inv svc run
proof (cases rule: refund_it_cases)
  case (refused e)
  then show ?thesis by (simp add: refund_outcome_def)
next
  case (asked p g now u w2)
  from run_refund_outcome [OF asked(5) E svc _ asked(2,3,7)] asked(1,6)
  have "inv (w_db w')" and out: "refund_outcome val ka kt E svc i amount reason c
    (view (w_db w)) w2 r (view (w_db w')) w'" by simp_all
  with refund_outcome_quiet [OF asked(4) out] show ?thesis by simp
qed

lemma correlation_lookup:
  assumes inv: "inv (w_db w)" and svc: "svc_ok svc"
    and get: "st_GetRefundByCorrelationID (svc_store svc) c w = (r, w')"
  shows "inv (w_db w') \<and> view (w_db w') = view (w_db w) \<and> quiet w w' \<and>
    (\<forall>x. r = Inr x \<longrightarrow> x \<in> set (l_refunds (view (w_db w))) \<and> r_CorrelationID x = Some c) \<and>
    (\<forall>e. r = Inl e \<longrightarrow> errors_Is e ErrNoRows \<longrightarrow>
       Some c \<notin> r_CorrelationID ` set (l_refunds (view (w_db w))))"
proof -
  have g: "st_GetRefundByCorrelationID S c w = (r, w')" using get svc by (simp add: svc_ok_def)
  show ?thesis
    using get_view(7) [OF inv g] stepsD [OF get_quiet(5) g] g get_refund_by_correlation [OF inv]
      get_refund_by_correlation_none [OF inv] by blast
qed

lemma ProcessRefund_outcome:
  assumes inv: "inv (w_db w)" and E: "E_dec E = D" and svc: "svc_ok svc"
    and run: "ProcessRefund E svc i amount reason who c w = (r, w')"
  shows "inv (w_db w') \<and> refund_outcome val ka kt E svc i amount reason c
    (view (w_db w)) w r (view (w_db w')) w'"
  using run
proof (cases rule: ProcessRefund_cases)
  case (found x)
  with correlation_lookup [OF inv svc found(3)] show ?thesis by (simp add: refund_outcome_def)
next
  case (failed e)
  with correlation_lookup [OF inv svc failed(4)] show ?thesis by (simp add: refund_outcome_def)
next
  case (missing e w1)
  note look = correlation_lookup [OF inv svc missing(2)]
  with refund_it_outcome [OF _ E svc missing(4)]
  have "inv (w_db w')" and out: "refund_outcome val ka kt E svc i amount reason c
    (view (w_db w)) w1 r (view (w_db w')) w'" by simp_all
  with refund_outcome_quiet [OF _ out] look show ?thesis by simp
next
  case anonymous
  with refund_it_outcome [OF inv E svc] show ?thesis by simp
qed

text \<open>A refund the ledger does not allow is refused: no gateway is called, nothing changes.\<close>

lemma refund_it_refused:
  assumes inv: "inv (w_db w)" and E: "E_dec E = D" and svc: "svc_ok svc"
    and no: "\<not> refund_covered val (view (w_db w)) i amount"
    and run: "refund_it E svc i amount reason who c w = (r, w')"
  shows "(\<exists>e. r = Inl e) \<and> quiet w w'"
  using inv svc run
proof (cases rule: refund_it_cases)
  case (refused e)
  then show ?thesis by simp
next
  case (asked p g now u w2)
  let ?fn = "persistRefund E g p (new_refund p i amount reason who c now u) i amount reason c"
  have tx: "RunInTx T ?fn w2 = (r, w')" using asked(7) svc by (simp add: run_persist_def svc_ok_def)
  have "(\<exists>e. r = Inl e) \<and> quiet w2 w'"
  proof (rule RunInTx_refused [OF asked(5) _ tx])
    fix wa r' wb
    assume "inv (w_db wa)" "view (w_db wa) = view (w_db w2)" "?fn (tr_store T) wa = (r', wb)"
    with persistRefund_refused [OF _ E _ this(3)] no asked(6)
    show "(\<exists>e. r' = Inl e) \<and> quiet wa wb" by simp
  qed
  with asked(4) show ?thesis by (blast intro: quiet_trans)
qed

lemma ProcessRefund_refused:
  assumes inv: "inv (w_db w)" and E: "E_dec E = D" and svc: "svc_ok svc"
    and new: "blank c \<or> Some c \<notin> r_CorrelationID ` set (l_refunds (view (w_db w)))"
    and no: "\<not> refund_covered val (view (w_db w)) i amount"
    and run: "ProcessRefund E svc i amount reason who c w = (r, w')"
  shows "(\<exists>e. r = Inl e) \<and> quiet w w' \<and> view (w_db w') = view (w_db w)"
proof -
  from run have "(\<exists>e. r = Inl e) \<and> quiet w w'"
  proof (cases rule: ProcessRefund_cases)
    case (found x)
    with correlation_lookup [OF inv svc found(3)] new show ?thesis by (metis image_eqI)
  next
    case (failed e)
    with correlation_lookup [OF inv svc failed(4)] show ?thesis by simp
  next
    case (missing e w1)
    note look = correlation_lookup [OF inv svc missing(2)]
    with no refund_it_refused [OF _ E svc _ missing(4)] show ?thesis
      by (metis quiet_trans)
  next
    case anonymous
    with refund_it_refused [OF inv E svc no] show ?thesis by blast
  qed
  moreover have "view (w_db w') = view (w_db w)" if "r = Inl e" for e
    using ProcessRefund_outcome [OF inv E svc run] that by (auto simp: refund_outcome_def)
  ultimately show ?thesis by auto
qed

text \<open>A correlation id that a stored refund carries is answered from the store.\<close>

lemma ProcessRefund_replay:
  assumes svc: "svc_ok svc" and inv: "inv (w_db w)" and c: "\<not> blank c"
    and stored: "Some c \<in> r_CorrelationID ` set (l_refunds (view (w_db w)))"
    and run: "ProcessRefund E svc i amount reason who c w = (r, w')"
  shows "quiet w w' \<and> view (w_db w') = view (w_db w) \<and>
    (\<forall>x. r = Inr x \<longrightarrow> x \<in> set (l_refunds (view (w_db w))) \<and> r_CorrelationID x = Some c)"
  using run
proof (cases rule: ProcessRefund_cases)
  case (found x)
  with correlation_lookup [OF inv svc found(3)] show ?thesis by simp
next
  case (failed e)
  with correlation_lookup [OF inv svc failed(4)] show ?thesis by simp
next
  case (missing e w1)
  with correlation_lookup [OF inv svc missing(2)] stored show ?thesis by blast
next
  case anonymous
  with c show ?thesis by simp
qed

text \<open>\<open>GetTotalRefunded\<close> adds up the completed refunds.\<close>

lemma GetTotalRefunded_value:
  assumes svc: "svc_ok svc" and inv: "inv (w_db w)" and E: "E_dec E = D"
    and run: "GetTotalRefunded E svc i w = (Inr n, w')"
    and rows: "\<And>e w''. st_GetRefundsByPayment S i w = (Inl e, w'') \<Longrightarrow> \<not> errors_Is e ErrNoRows"
  shows "val n = refunded val (view (w_db w)) i"
  using run rows get_refunds_by_payment [OF inv] svc
  by (auto simp: GetTotalRefunded_def svc_ok_def E val_total_of_payment
      split: prod.splits sum.splits if_splits)

end

end
