(* ===== verification/Ledger_Invariants.thy ===== *)
theory Ledger_Invariants
  imports Refund_Service
begin

text \<open>
  The ledger of the service as a state machine.  A step records a charge or a refund, the two
  changes \<open>ProcessPayment\<close> and \<open>ProcessRefund\<close> make; the reachable ledgers satisfy
  \<open>ledger_ok\<close>: the refunds of a payment never exceed it, its status tells whether anything is
  left to refund, and the audit log has one entry for every call of a gateway that was recorded.
\<close>

section \<open>Steps\<close>

text \<open>The amounts the handler lets through: positive, and with at most four decimals, so that the
  database keeps them as they are.\<close>

inductive ledger_step :: "('d \<Rightarrow> rat) \<Rightarrow> ('d \<Rightarrow> 'd) \<Rightarrow> (time \<Rightarrow> time) \<Rightarrow> 'd ledger \<Rightarrow> 'd ledger \<Rightarrow> bool"
  for val :: "'d \<Rightarrow> rat" and ka :: "'d \<Rightarrow> 'd" and kt :: "time \<Rightarrow> time" where
  charge: "0 < val (p_Amount p) \<Longrightarrow> val (ka (p_Amount p)) = val (p_Amount p) \<Longrightarrow>
    charge_recorded ka kt result p L L' \<Longrightarrow> ledger_step val ka kt L L'"
| refund: "0 < val (r_Amount r) \<Longrightarrow> val (ka (r_Amount r)) = val (r_Amount r) \<Longrightarrow>
    refund_recorded val ka kt rresult p r L L' \<Longrightarrow> ledger_step val ka kt L L'"

inductive_cases ledger_stepE: "ledger_step val ka kt L L'"

inductive ledger_reachable :: "('d \<Rightarrow> rat) \<Rightarrow> ('d \<Rightarrow> 'd) \<Rightarrow> (time \<Rightarrow> time) \<Rightarrow> 'd ledger \<Rightarrow> bool"
  for val :: "'d \<Rightarrow> rat" and ka :: "'d \<Rightarrow> 'd" and kt :: "time \<Rightarrow> time" where
  empty: "ledger_reachable val ka kt empty_ledger"
| step: "ledger_reachable val ka kt L \<Longrightarrow> ledger_step val ka kt L L' \<Longrightarrow>
    ledger_reachable val ka kt L'"

section \<open>The invariant\<close>

definition settled_status :: "payment_status \<Rightarrow> bool" where
  "settled_status s \<longleftrightarrow> s = PaymentStatusCompleted \<or> s = PaymentStatusFailed \<or>
     s = PaymentStatusRefunded \<or> s = PaymentStatusRefundFailed"

text \<open>The status of a payment, its amount and what has been refunded of it agree.\<close>

definition payment_balanced :: "rat \<Rightarrow> payment_status \<Rightarrow> rat \<Rightarrow> bool" where
  "payment_balanced amount status refunded_amount \<longleftrightarrow>
     0 < amount \<and> 0 \<le> refunded_amount \<and> refunded_amount \<le> amount \<and> settled_status status \<and>
     (status = PaymentStatusRefunded \<longleftrightarrow> refunded_amount = amount) \<and>
     (status = PaymentStatusFailed \<longrightarrow> refunded_amount = 0)"

definition charges_of :: "'d ledger \<Rightarrow> uuid \<Rightarrow> 'd transaction list" where
  "charges_of L i =
     filter (\<lambda>t. t_Type t = TransactionTypeCharge \<and> t_PaymentID t = i) (l_txs L)"

definition refund_entries :: "'d ledger \<Rightarrow> uuid \<Rightarrow> 'd transaction list" where
  "refund_entries L i =
     filter (\<lambda>t. t_Type t = TransactionTypeRefund \<and> t_RefundID t = Some i) (l_txs L)"

definition audited :: "('d \<Rightarrow> rat) \<Rightarrow> 'd ledger \<Rightarrow> bool" where
  "audited val L \<longleftrightarrow>
     (\<forall>p \<in> set (l_payments L). \<exists>t. charges_of L (p_ID p) = [t] \<and>
        val (t_Amount t) = val (p_Amount p) \<and>
        (t_Success t \<longleftrightarrow> p_Status p \<noteq> PaymentStatusFailed)) \<and>
     (\<forall>r \<in> set (l_refunds L). \<exists>t. refund_entries L (r_ID r) = [t] \<and>
        t_PaymentID t = r_PaymentID r \<and> val (t_Amount t) = val (r_Amount r) \<and>
        (t_Success t \<longleftrightarrow> r_Status r = RefundStatusCompleted)) \<and>
     (\<forall>t \<in> set (l_txs L). t_PaymentID t \<in> p_ID ` set (l_payments L)) \<and>
     (\<forall>t \<in> set (l_txs L). \<forall>i. t_RefundID t = Some i \<longrightarrow> i \<in> r_ID ` set (l_refunds L))"

definition keys_unique :: "'d payment list \<Rightarrow> bool" where
  "keys_unique ps \<longleftrightarrow> distinct (filter (\<lambda>k. k \<noteq> None) (map p_IdempotencyKey ps))"

definition ledger_ok :: "('d \<Rightarrow> rat) \<Rightarrow> 'd ledger \<Rightarrow> bool" where
  "ledger_ok val L \<longleftrightarrow>
     distinct (map p_ID (l_payments L)) \<and> distinct (map r_ID (l_refunds L)) \<and>
     (\<forall>r \<in> set (l_refunds L). r_PaymentID r \<in> p_ID ` set (l_payments L) \<and> 0 < val (r_Amount r) \<and>
        (r_Status r = RefundStatusCompleted \<or> r_Status r = RefundStatusFailed)) \<and>
     (\<forall>p \<in> set (l_payments L).
        payment_balanced (val (p_Amount p)) (p_Status p) (refunded val L (p_ID p))) \<and>
     keys_unique (l_payments L) \<and> audited val L"

section \<open>Rows after a step\<close>

lemma replace_payment_row:
  assumes "distinct (map p_ID ps)" "p \<in> set ps" "p_ID p' = p_ID p" "p_CreatedAt p' = p_CreatedAt p"
  shows "replace_payment p' ps = map (\<lambda>q. if q = p then p' else q) ps"
  unfolding replace_payment_def
proof (rule map_cong [OF refl])
  fix q assume "q \<in> set ps"
  then have "p_ID q = p_ID p \<longleftrightarrow> q = p"
    using assms(1,2) by (auto simp: distinct_map dest: inj_onD)
  moreover have "p'\<lparr>p_CreatedAt := p_CreatedAt p\<rparr> = p'" using assms(4) by simp
  ultimately show "(if p_ID q = p_ID p' then p'\<lparr>p_CreatedAt := p_CreatedAt q\<rparr> else q) =
      (if q = p then p' else q)"
    using assms(3) by simp
qed

lemma map_replace_row: "f p' = f p \<Longrightarrow> map f (map (\<lambda>q. if q = p then p' else q) ps) = map f ps"
  by simp

lemma set_replace_row: "set (map (\<lambda>q. if q = p then p' else q) ps) \<subseteq> insert p' (set ps - {p})"
  by auto

lemma refunded_cong: "l_refunds L' = l_refunds L \<Longrightarrow> refunded val L' i = refunded val L i"
  by (simp add: refunded_def)

lemma refunded_fresh:
  "(\<And>r. r \<in> set (l_refunds L) \<Longrightarrow> r_PaymentID r \<noteq> i) \<Longrightarrow> refunded val L i = 0"
  unfolding refunded_def
  by (metis (mono_tags, lifting) filter_False list.simps(8) sum_list.Nil)

lemma refunded_append:
  "l_refunds L' = l_refunds L @ [r] \<Longrightarrow>
     refunded val L' i = refunded val L i +
       (if r_PaymentID r = i \<and> r_Status r = RefundStatusCompleted then val (r_Amount r) else 0)"
  by (simp add: refunded_def)

lemma refunded_nonneg:
  "(\<And>r. r \<in> set (l_refunds L) \<Longrightarrow> 0 < val (r_Amount r)) \<Longrightarrow> 0 \<le> refunded val L i"
  unfolding refunded_def by (rule sum_list_nonneg) (auto simp: less_imp_le)

lemma keys_unique_append:
  "keys_unique (ps @ [p]) \<longleftrightarrow> keys_unique ps \<and>
     (\<forall>k. p_IdempotencyKey p = Some k \<longrightarrow> Some k \<notin> p_IdempotencyKey ` set ps)"
  by (cases "p_IdempotencyKey p") (simp_all add: keys_unique_def)

lemma ledger_ok_empty: "ledger_ok val empty_ledger"
  by (simp add: ledger_ok_def empty_ledger_def audited_def keys_unique_def)

text \<open>A charge keeps the invariant.\<close>

lemma charge_audited:
  assumes ok: "ledger_ok val L" and new: "p_ID p \<notin> p_ID ` set (l_payments L)"
    and t: "t_PaymentID t = p_ID p" "t_RefundID t = None" "t_Type t = TransactionTypeCharge"
      "val (t_Amount t) = val (p_Amount p)"
      "t_Success t \<longleftrightarrow> p_Status p \<noteq> PaymentStatusFailed"
  shows "audited val (L\<lparr>l_payments := l_payments L @ [p], l_txs := l_txs L @ [t]\<rparr>)"
proof -
  let ?L = "L\<lparr>l_payments := l_payments L @ [p], l_txs := l_txs L @ [t]\<rparr>"
  have a: "audited val L" using ok by (simp add: ledger_ok_def)
  then have fk: "\<And>t. t \<in> set (l_txs L) \<Longrightarrow> t_PaymentID t \<noteq> p_ID p"
    using new unfolding audited_def by metis
  have c: "charges_of ?L i = (if i = p_ID p then [t] else charges_of L i)" for i
    using t(1,3) fk by (auto simp: charges_of_def filter_empty_conv)
  have e: "refund_entries ?L i = refund_entries L i" for i
    using t(2) by (simp add: refund_entries_def)
  show ?thesis
    using a t new unfolding audited_def c e by (auto simp: image_iff)
qed

lemma charge_ok:
  assumes ok: "ledger_ok val L" and rec: "charge_recorded ka kt result p L L'"
    and amount: "0 < val (p_Amount p)" "val (ka (p_Amount p)) = val (p_Amount p)"
  shows "ledger_ok val L'"
proof -
  let ?p = "keep_payment ka kt p"
  obtain t where new: "p_ID p \<notin> p_ID ` set (l_payments L)"
    and key: "\<forall>k. p_IdempotencyKey p = Some k \<longrightarrow> Some k \<notin> p_IdempotencyKey ` set (l_payments L)"
    and s: "p_Status p = (if pr_Success result then PaymentStatusCompleted else PaymentStatusFailed)"
    and t: "t_PaymentID t = p_ID p" "t_RefundID t = None" "t_Type t = TransactionTypeCharge"
      "t_Success t = pr_Success result" "t_Amount t = ka (p_Amount p)"
    and L': "L' = L\<lparr>l_payments := l_payments L @ [?p], l_txs := l_txs L @ [t]\<rparr>"
    using rec unfolding charge_recorded_def by blast
  have none: "refunded val L (p_ID p) = 0"
    using ok new unfolding ledger_ok_def by (intro refunded_fresh) metis
  have r: "refunded val L' i = refunded val L i" for i by (rule refunded_cong) (simp add: L')
  have a: "audited val L'"
    unfolding L' using ok new t amount s by (intro charge_audited) auto
  have b: "payment_balanced (val (p_Amount ?p)) (p_Status ?p) (refunded val L' (p_ID ?p))"
    using amount none s by (simp add: r payment_balanced_def settled_status_def)
  have u: "keys_unique (l_payments L')"
    using ok key by (simp add: L' keys_unique_append ledger_ok_def)
  have lists: "l_payments L' = l_payments L @ [?p]" "l_refunds L' = l_refunds L"
    by (simp_all add: L')
  show ?thesis
    using ok new a b u unfolding ledger_ok_def lists r by auto
qed

text \<open>A refund keeps it.\<close>

lemma refund_audited:
  assumes ok: "ledger_ok val L" and new: "r_ID r \<notin> r_ID ` set (l_refunds L)"
    and p: "p \<in> set (l_payments L)" and ps: "set ps \<subseteq> insert p' (set (l_payments L) - {p})"
      "p_ID ` set ps = p_ID ` set (l_payments L)"
    and p': "p_ID p' = p_ID p" "p_Amount p' = p_Amount p"
      "p_Status p' = PaymentStatusFailed \<longleftrightarrow> p_Status p = PaymentStatusFailed"
    and t: "t_PaymentID t = p_ID p" "t_RefundID t = Some (r_ID r)"
      "t_Type t = TransactionTypeRefund" "val (t_Amount t) = val (r_Amount r)"
      "t_Success t \<longleftrightarrow> r_Status r = RefundStatusCompleted" "r_PaymentID r = p_ID p"
  shows "audited val (L\<lparr>l_payments := ps, l_refunds := l_refunds L @ [r],
    l_txs := l_txs L @ [t]\<rparr>)"
proof -
  let ?L = "L\<lparr>l_payments := ps, l_refunds := l_refunds L @ [r], l_txs := l_txs L @ [t]\<rparr>"
  have a: "audited val L" using ok by (simp add: ledger_ok_def)
  then have fk: "\<And>t. t \<in> set (l_txs L) \<Longrightarrow> t_RefundID t \<noteq> Some (r_ID r)"
    using new unfolding audited_def by metis
  have c: "charges_of ?L i = charges_of L i" for i
    using t(3) by (simp add: charges_of_def)
  have e: "refund_entries ?L i = (if i = r_ID r then [t] else refund_entries L i)" for i
    using t(2,3) fk by (auto simp: refund_entries_def filter_empty_conv)
  have charged: "\<exists>t. charges_of L (p_ID q) = [t] \<and> val (t_Amount t) = val (p_Amount q) \<and>
      (t_Success t \<longleftrightarrow> p_Status q \<noteq> PaymentStatusFailed)" if "q \<in> set ps" for q
  proof (cases "q = p'")
    case True
    from a p obtain u where "charges_of L (p_ID p) = [u]" "val (t_Amount u) = val (p_Amount p)"
      "t_Success u \<longleftrightarrow> p_Status p \<noteq> PaymentStatusFailed" unfolding audited_def by blast
    with True p' show ?thesis by simp
  next
    case False
    with that ps(1) have "q \<in> set (l_payments L)" by blast
    with a show ?thesis unfolding audited_def by blast
  qed
  have refunds: "\<exists>u. refund_entries ?L (r_ID q) = [u] \<and> t_PaymentID u = r_PaymentID q \<and>
      val (t_Amount u) = val (r_Amount q) \<and> (t_Success u \<longleftrightarrow> r_Status q = RefundStatusCompleted)"
    if "q \<in> set (l_refunds L @ [r])" for q
  proof (cases "q \<in> set (l_refunds L)")
    case True
    with new have "r_ID q \<noteq> r_ID r" by (metis image_eqI)
    with a True show ?thesis unfolding audited_def e by simp
  next
    case False
    with that have "q = r" by simp
    with t show ?thesis unfolding e by simp
  qed
  have "\<forall>u \<in> set (l_txs ?L). t_PaymentID u \<in> p_ID ` set ps"
    using a t(1) p unfolding audited_def ps(2) by simp
  moreover have "\<forall>u \<in> set (l_txs ?L). \<forall>i. t_RefundID u = Some i \<longrightarrow> i \<in> r_ID ` set (l_refunds ?L)"
    using a t(2) unfolding audited_def by auto
  ultimately show ?thesis
    unfolding audited_def c using charged refunds by simp
qed

lemma refund_balanced:
  assumes old: "payment_balanced amount s done_so_far" and allowed: "s = PaymentStatusCompleted"
    and r: "0 < part" "part \<le> amount - done_so_far"
  shows "payment_balanced amount (status_after ok part (amount - done_so_far))
    (done_so_far + (if ok then part else 0))"
  using assms by (auto simp: payment_balanced_def status_after_def settled_status_def)

lemma allowed_settled:
  "refund_allowed p \<Longrightarrow> settled_status (p_Status p) \<Longrightarrow> p_Status p = PaymentStatusCompleted"
  by (auto simp: refund_allowed_def settled_status_def)

text \<open>A payment's row replaced by one with the same id, creation time and key.\<close>

lemma replaced_row:
  assumes "distinct (map p_ID ps)" "p \<in> set ps"
    and p': "p_ID p' = p_ID p" "p_CreatedAt p' = p_CreatedAt p" "p_IdempotencyKey p' = p_IdempotencyKey p"
  shows "map p_ID (replace_payment p' ps) = map p_ID ps"
    "map p_IdempotencyKey (replace_payment p' ps) = map p_IdempotencyKey ps"
    "set (replace_payment p' ps) \<subseteq> insert p' (set ps - {p})"
  unfolding replace_payment_row [OF assms(1-4)]
  by (auto intro!: map_replace_row dest: set_replace_row [THEN subsetD] simp: p')

lemma refunded_with:
  assumes "l_refunds L' = l_refunds L @ [keep_refund ka kt r]"
    and "val (ka (r_Amount r)) = val (r_Amount r)"
    and "r_Status r = (if ok then RefundStatusCompleted else RefundStatusFailed)"
  shows "refunded val L' i = refunded val L i + (if r_PaymentID r = i \<and> ok then val (r_Amount r) else 0)"
  using refunded_append [OF assms(1), of val i] assms(2,3) by simp

lemma refund_ok:
  assumes ok: "ledger_ok val L" and rec: "refund_recorded val ka kt result p r L L'"
    and amount: "0 < val (r_Amount r)" "val (ka (r_Amount r)) = val (r_Amount r)"
  shows "ledger_ok val L'"
proof -
  let ?r = "keep_refund ka kt r" and ?i = "p_ID p"
  let ?s = "status_after (rr_Success result) (val (r_Amount r)) (val (p_Amount p) - refunded val L ?i)"
  obtain u t where p: "p \<in> set (l_payments L)" "?i = r_PaymentID r" "refund_allowed p"
    and le: "val (r_Amount r) \<le> val (p_Amount p) - refunded val L ?i"
    and new: "r_ID r \<notin> r_ID ` set (l_refunds L)"
    and s: "r_Status r = (if rr_Success result then RefundStatusCompleted else RefundStatusFailed)"
    and t: "t_PaymentID t = ?i" "t_RefundID t = Some (r_ID r)" "t_Type t = TransactionTypeRefund"
      "t_Success t = rr_Success result" "t_Amount t = ka (r_Amount r)"
    and L': "L' = L\<lparr>l_payments := replace_payment (p\<lparr>p_Status := ?s, p_UpdatedAt := Some u\<rparr>)
        (l_payments L), l_refunds := l_refunds L @ [?r], l_txs := l_txs L @ [t]\<rparr>"
    using rec unfolding refund_recorded_def by blast
  define p' where "p' = p\<lparr>p_Status := ?s, p_UpdatedAt := Some u\<rparr>"
  define ps where "ps = replace_payment p' (l_payments L)"
  have p': "p_ID p' = ?i" "p_CreatedAt p' = p_CreatedAt p" "p_Amount p' = p_Amount p"
    "p_IdempotencyKey p' = p_IdempotencyKey p" "p_Status p' = ?s" by (simp_all add: p'_def)
  have dist: "distinct (map p_ID (l_payments L))" using ok by (simp add: ledger_ok_def)
  note row = replaced_row [OF dist p(1) p'(1,2,4), folded ps_def]
  have id_set: "p_ID ` set ps = p_ID ` set (l_payments L)" using arg_cong [OF row(1), of set] by simp
  have bal: "payment_balanced (val (p_Amount q)) (p_Status q) (refunded val L (p_ID q))"
    if "q \<in> set (l_payments L)" for q using ok that by (simp add: ledger_ok_def)
  have completed: "p_Status p = PaymentStatusCompleted"
    using bal [OF p(1)] allowed_settled [OF p(3)] by (simp add: payment_balanced_def)
  have lists: "l_payments L' = ps" "l_refunds L' = l_refunds L @ [?r]"
    by (simp_all add: L' ps_def p'_def)
  note r' = refunded_with [OF lists(2) amount(2) s, folded p(2)]
  have a: "audited val L'"
    unfolding L' by (fold p'_def, fold ps_def, rule refund_audited [OF ok _ p(1) row(3) id_set p'(1,3)])
      (use new p completed t s amount p' in \<open>auto simp: status_after_def\<close>)
  have balanced: "payment_balanced (val (p_Amount q)) (p_Status q) (refunded val L' (p_ID q))"
    if "q \<in> set ps" for q
  proof (cases "q = p'")
    case True
    with refund_balanced [OF bal [OF p(1)] completed amount(1) le] show ?thesis
      by (simp add: p' r' cong: if_cong)
  next
    case False
    with that row(3) have q: "q \<in> set (l_payments L)" "q \<noteq> p" by blast+
    with dist p(1) have "p_ID q \<noteq> ?i" by (auto simp: distinct_map dest: inj_onD)
    with bal [OF q(1)] show ?thesis by (simp add: r')
  qed
  have rows: "\<forall>x \<in> set (l_refunds L @ [?r]). r_PaymentID x \<in> p_ID ` set ps \<and> 0 < val (r_Amount x) \<and>
      (r_Status x = RefundStatusCompleted \<or> r_Status x = RefundStatusFailed)"
    using ok p(1) amount s imageI [OF p(1), of p_ID] unfolding p(2)
    by (simp add: ledger_ok_def id_set)
  show ?thesis
    using ok dist new rows balanced a unfolding ledger_ok_def lists
    by (simp add: keys_unique_def row(1,2))
qed

lemma step_ok: "ledger_step val ka kt L L' \<Longrightarrow> ledger_ok val L \<Longrightarrow> ledger_ok val L'"
  by (erule ledger_stepE) (auto intro: charge_ok refund_ok)

lemma reachable_ok: "ledger_reachable val ka kt L \<Longrightarrow> ledger_ok val L"
  by (induction rule: ledger_reachable.induct) (auto intro: ledger_ok_empty step_ok)

section \<open>The services take ledger steps\<close>

text \<open>The amounts the request validation lets through.\<close>

definition amount_ok :: "'d decimal_ops \<Rightarrow> 'd \<Rightarrow> bool" where
  "amount_ok D a \<longleftrightarrow> decimalCmpPositive D a \<and> \<not> dec_Exponent D a < - 4"

definition step_or_same :: "('d \<Rightarrow> rat) \<Rightarrow> ('d \<Rightarrow> 'd) \<Rightarrow> (time \<Rightarrow> time) \<Rightarrow> 'd ledger \<Rightarrow> 'd ledger \<Rightarrow> bool"
  where "step_or_same val ka kt L L' \<longleftrightarrow> L' = L \<or> ledger_step val ka kt L L'"

lemma reachable_step:
  "ledger_reachable val ka kt L \<Longrightarrow> step_or_same val ka kt L L' \<Longrightarrow> ledger_reachable val ka kt L'"
  by (auto simp: step_or_same_def intro: ledger_reachable.step)

context payment_store_contract begin

lemma kept_amount: "amount_ok D a \<Longrightarrow> 0 < val a \<and> val (ka a) = val a"
  using cents4_exact [of a] by (simp add: amount_ok_def decimalCmpPositive_iff val_ka)

end

context transactional_store begin

lemma ProcessPayment_step:
  assumes svc: "svc_ok svc" and inv: "inv (w_db w)" and a: "amount_ok D (pq_Amount req)"
    and run: "ProcessPayment E svc req c k w = (r, w')"
  shows "inv (w_db w') \<and> step_or_same val ka kt (view (w_db w)) (view (w_db w'))"
proof -
  note out = ProcessPayment_outcome [OF svc inv run]
  have "ledger_step val ka kt L L'" if "charge_recorded ka kt res q L L'"
    "payment_of_request E req c k q" for res q L L'
    using that kept_amount [OF a] by (intro ledger_step.charge) (auto simp: payment_of_request_def)
  with out show ?thesis unfolding payment_outcome_def step_or_same_def by blast
qed

lemma ProcessRefund_step:
  assumes svc: "svc_ok svc" and inv: "inv (w_db w)" and E: "E_dec E = D"
    and a: "amount_ok D amount" and run: "ProcessRefund E svc i amount reason who c w = (r, w')"
  shows "inv (w_db w') \<and> step_or_same val ka kt (view (w_db w)) (view (w_db w'))"
proof -
  note out = ProcessRefund_outcome [OF inv E svc run]
  have "ledger_step val ka kt L L'" if "refund_recorded val ka kt res p q L L'"
    "r_Amount q = amount" for res p q L L'
    using that kept_amount [OF a] by (intro ledger_step.refund) auto
  with out show ?thesis unfolding refund_outcome_def step_or_same_def by blast
qed

end

end
