(* ===== verification/Http_Handler.thy ===== *)
theory Http_Handler
  imports Ledger_Invariants
begin

text \<open>
  \<open>go/internal/payment/handler.go\<close>: the HTTP handlers.  gin is a library the repository only
  calls: what it hands a handler (path parameters, query, headers, body) is the record
  \<open>gin_context\<close>, its JSON binding the record \<open>gin\<close> of two functions, and what a handler writes
  is a \<open>response\<close>.  After the handlers come the lemmas that carry the ledger's invariant through
  any sequence of requests.
\<close>

section \<open>Requests and responses\<close>

record gin_context =
  c_Param :: "string \<Rightarrow> string"
  c_Query :: "string \<Rightarrow> string"
  c_GetHeader :: "string \<Rightarrow> string"
  c_Body :: string

record 'd gin =
  gin_bind_payment :: "string \<Rightarrow> go_error + 'd process_payment_request"
  gin_bind_refund :: "string \<Rightarrow> go_error + 'd refund_request"

datatype 'd body =
    PaymentBody "'d payment_response"
  | PaymentsBody "'d payment_response list"
  | RefundBody "'d refund_response"
  | RefundsBody "'d refund_response list"
  | ErrorBody string string

record 'd response =
  rp_Status :: int
  rp_Headers :: "(string \<times> string) list"
  rp_Body :: "'d body"
  rp_Errors :: "go_error list"

definition StatusOK :: int where "StatusOK = 200"
definition StatusCreated :: int where "StatusCreated = 201"
definition StatusAccepted :: int where "StatusAccepted = 202"
definition StatusInternalServerError :: int where "StatusInternalServerError = 500"

lemmas status_code_defs = StatusOK_def StatusCreated_def StatusAccepted_def
  StatusInternalServerError_def

definition c_JSON :: "int \<Rightarrow> 'd body \<Rightarrow> 'd response" where
  "c_JSON status b = \<lparr>rp_Status = status, rp_Headers = [], rp_Body = b, rp_Errors = []\<rparr>"

section \<open>Errors and validation\<close>

definition abortWithError :: "api_error option \<Rightarrow> 'd response" where
  "abortWithError err =
     (let apiErr = (case err of
        None \<Rightarrow> \<lparr>ae_Status = StatusInternalServerError, ae_Code = ''INTERNAL_SERVER_ERROR'',
                 ae_Message = ''unknown error'', ae_cause = None\<rparr>
      | Some e \<Rightarrow> e)
      in \<lparr>rp_Status = ae_Status apiErr, rp_Headers = [],
          rp_Body = ErrorBody (ae_Code apiErr) (ae_Message apiErr),
          rp_Errors = (case ae_cause apiErr of None \<Rightarrow> [] | Some e \<Rightarrow> [e])\<rparr>)"

definition validateProcessPaymentRequest :: "'d env \<Rightarrow> 'd process_payment_request \<Rightarrow>
    api_error option" where
  "validateProcessPaymentRequest E req =
     (if blank (pq_OrderID req)
      then Some (BadRequest ''ORDER_ID_REQUIRED'' ''Order ID is required'')
      else if blank (pq_CustomerID req)
      then Some (BadRequest ''CUSTOMER_ID_REQUIRED'' ''Customer ID is required'')
      else if \<not> decimalCmpPositive (E_dec E) (pq_Amount req)
      then Some (BadRequest ''AMOUNT_INVALID'' ''Amount must be greater than 0'')
      else if dec_Exponent (E_dec E) (pq_Amount req) < - 4
      then Some (BadRequest ''AMOUNT_SCALE_INVALID'' ''Amount supports at most 4 decimal places'')
      else if length (TrimSpace (pq_Currency req)) \<noteq> 3
      then Some (BadRequest ''CURRENCY_INVALID'' ''Currency must be 3 characters'')
      else None)"

definition validateRefundRequest :: "'d env \<Rightarrow> 'd refund_request \<Rightarrow> api_error option" where
  "validateRefundRequest E req =
     (if \<not> decimalCmpPositive (E_dec E) (fq_Amount req)
      then Some (BadRequest ''AMOUNT_INVALID'' ''Amount must be greater than 0'')
      else if dec_Exponent (E_dec E) (fq_Amount req) < - 4
      then Some (BadRequest ''AMOUNT_SCALE_INVALID'' ''Amount supports at most 4 decimal places'')
      else None)"

section \<open>Handlers\<close>

record ('d, 'db, 'x) handler =
  h_paymentService :: "('d, 'db, 'x) service"
  h_refundService :: "('d, 'db, 'x) service"

definition NewHandler :: "('d, 'db, 'x) service \<Rightarrow> ('d, 'db, 'x) service \<Rightarrow> ('d, 'db, 'x) handler"
  where
  "NewHandler paymentService refundService =
     \<lparr>h_paymentService = paymentService, h_refundService = refundService\<rparr>"

type_synonym ('d, 'db, 'x) handler_fun =
  "gin_context \<Rightarrow> ('db, 'x) world \<Rightarrow> 'd response \<times> ('db, 'x) world"

text \<open>\<open>x, err := m; if err != nil { abort(APIErrorFromErr(err)) }\<close>, then \<open>k x\<close>.\<close>

definition or_abort :: "('db, 'x, 'a) go \<Rightarrow> ('a \<Rightarrow> 'd response) \<Rightarrow> ('db, 'x) world \<Rightarrow>
    'd response \<times> ('db, 'x) world" where
  "or_abort m k w =
     (case m w of
        (Inl err, w') \<Rightarrow> (abortWithError (APIErrorFromErr (Some err)), w')
      | (Inr x, w') \<Rightarrow> (k x, w'))"

definition idempotency_key_of :: "gin_context \<Rightarrow> 'd process_payment_request \<Rightarrow> string" where
  "idempotency_key_of c req =
     (let key = c_GetHeader c ''X-Idempotency-Key'';
          key = (if blank key then c_GetHeader c ''Idempotency-Key'' else key)
      in if blank key then pq_IdempotencyKey req else key)"

definition payment_answer :: "string \<Rightarrow> 'd payment \<Rightarrow> 'd response" where
  "payment_answer correlationID payment =
     (let status = (if p_Status payment = PaymentStatusCompleted then StatusCreated
                    else StatusAccepted);
          headers = (if \<not> blank correlationID then [(''X-Correlation-ID'', correlationID)] else [])
      in (c_JSON status (PaymentBody (PaymentResponseFrom payment)))\<lparr>rp_Headers := headers\<rparr>)"

definition h_processPayment :: "'d env \<Rightarrow> 'd gin \<Rightarrow> ('d, 'db, 'x) handler \<Rightarrow>
    ('d, 'db, 'x) handler_fun" where
  "h_processPayment E G h c w =
     (case gin_bind_payment G (c_Body c) of
        Inl err \<Rightarrow> (abortWithError (Some (BadRequest ''INVALID_REQUEST'' (err_text err))), w)
      | Inr req \<Rightarrow>
          (case validateProcessPaymentRequest E req of
             Some err \<Rightarrow> (abortWithError (Some err), w)
           | None \<Rightarrow>
               (let correlationID = c_GetHeader c ''X-Correlation-ID''
                in or_abort (ProcessPayment E (h_paymentService h) req correlationID
                               (idempotency_key_of c req))
                     (payment_answer correlationID) w)))"

definition invalid_payment_id :: api_error where
  "invalid_payment_id = BadRequest ''INVALID_PAYMENT_ID'' ''paymentId must be a UUID''"

definition with_payment_id :: "'d env \<Rightarrow> gin_context \<Rightarrow>
    (uuid \<Rightarrow> ('db, 'x) world \<Rightarrow> 'd response \<times> ('db, 'x) world) \<Rightarrow> ('db, 'x) world \<Rightarrow>
    'd response \<times> ('db, 'x) world" where
  "with_payment_id E c f w =
     (case E_uuid_parse E (c_Param c ''paymentId'') of
        None \<Rightarrow> (abortWithError (Some invalid_payment_id), w)
      | Some paymentID \<Rightarrow> f paymentID w)"

definition h_getPayment :: "'d env \<Rightarrow> ('d, 'db, 'x) handler \<Rightarrow> ('d, 'db, 'x) handler_fun" where
  "h_getPayment E h c =
     with_payment_id E c (\<lambda>paymentID.
       or_abort (svc_GetPayment (h_paymentService h) paymentID)
         (\<lambda>payment. c_JSON StatusOK (PaymentBody (PaymentResponseFrom payment))))"

definition payments_answer :: "'d payment list \<Rightarrow> 'd response" where
  "payments_answer payments = c_JSON StatusOK (PaymentsBody (map PaymentResponseFrom payments))"

definition h_getPayments :: "('d, 'db, 'x) handler \<Rightarrow> ('d, 'db, 'x) handler_fun" where
  "h_getPayments h c w =
     (let orderID = TrimSpace (c_Query c ''orderId'');
          customerID = TrimSpace (c_Query c ''customerId'')
      in if orderID \<noteq> []
         then (case svc_GetPaymentByOrderID (h_paymentService h) orderID w of
                 (Inl err, w') \<Rightarrow>
                   if err = ErrPaymentNotFound then (payments_answer [], w')
                   else (abortWithError (APIErrorFromErr (Some err)), w')
               | (Inr payment, w') \<Rightarrow> (payments_answer [payment], w'))
         else if customerID \<noteq> []
         then or_abort (svc_GetPaymentsByCustomer (h_paymentService h) customerID)
                payments_answer w
         else (abortWithError (Some (BadRequest ''MISSING_QUERY_PARAMS''
                                       ''orderId or customerId is required'')), w))"

definition h_getPaymentByOrder :: "('d, 'db, 'x) handler \<Rightarrow> ('d, 'db, 'x) handler_fun" where
  "h_getPaymentByOrder h c =
     or_abort (svc_GetPaymentByOrderID (h_paymentService h) (TrimSpace (c_Param c ''orderId'')))
       (\<lambda>payment. c_JSON StatusOK (PaymentBody (PaymentResponseFrom payment)))"

definition h_getPaymentsByCustomer :: "('d, 'db, 'x) handler \<Rightarrow> ('d, 'db, 'x) handler_fun" where
  "h_getPaymentsByCustomer h c =
     or_abort (svc_GetPaymentsByCustomer (h_paymentService h) (TrimSpace (c_Param c ''customerId'')))
       payments_answer"

definition h_getRefundsForPayment :: "'d env \<Rightarrow> ('d, 'db, 'x) handler \<Rightarrow> ('d, 'db, 'x) handler_fun"
  where
  "h_getRefundsForPayment E h c =
     with_payment_id E c (\<lambda>paymentID.
       or_abort (svc_GetRefundsByPayment (h_refundService h) paymentID)
         (\<lambda>refunds. c_JSON StatusOK (RefundsBody (map RefundResponseFrom refunds))))"

definition h_refundPayment :: "'d env \<Rightarrow> 'd gin \<Rightarrow> ('d, 'db, 'x) handler \<Rightarrow>
    ('d, 'db, 'x) handler_fun" where
  "h_refundPayment E G h c =
     with_payment_id E c (\<lambda>paymentID w.
       case gin_bind_refund G (c_Body c) of
         Inl err \<Rightarrow> (abortWithError (Some (BadRequest ''INVALID_REQUEST'' (err_text err))), w)
       | Inr req \<Rightarrow>
           (case validateRefundRequest E req of
              Some err \<Rightarrow> (abortWithError (Some err), w)
            | None \<Rightarrow>
                or_abort (ProcessRefund E (h_refundService h) paymentID (fq_Amount req)
                            (fq_Reason req) (c_GetHeader c ''X-User-ID'')
                            (c_GetHeader c ''X-Correlation-ID''))
                  (\<lambda>refund. c_JSON StatusOK (RefundBody (RefundResponseFrom refund))) w))"

text \<open>\<open>Handler.Register\<close>: the routes, as gin dispatches them.\<close>

datatype endpoint =
    EP_processPayment | EP_getPayment | EP_getPayments | EP_getPaymentByOrder
  | EP_getPaymentsByCustomer | EP_getRefundsForPayment | EP_refundPayment

definition h_Register :: "(string \<times> string \<times> endpoint) list" where
  "h_Register =
     [(''POST'', ''/api/v1/payments'', EP_processPayment),
      (''GET'', ''/api/v1/payments/:paymentId'', EP_getPayment),
      (''GET'', ''/api/v1/payments'', EP_getPayments),
      (''GET'', ''/api/v1/payments/order/:orderId'', EP_getPaymentByOrder),
      (''GET'', ''/api/v1/payments/customer/:customerId'', EP_getPaymentsByCustomer),
      (''GET'', ''/api/v1/payments/:paymentId/refunds'', EP_getRefundsForPayment),
      (''POST'', ''/api/v1/payments/:paymentId/refund'', EP_refundPayment)]"

fun serve :: "'d env \<Rightarrow> 'd gin \<Rightarrow> ('d, 'db, 'x) handler \<Rightarrow> endpoint \<Rightarrow>
    ('d, 'db, 'x) handler_fun" where
  "serve E G h EP_processPayment = h_processPayment E G h"
| "serve E G h EP_getPayment = h_getPayment E h"
| "serve E G h EP_getPayments = h_getPayments h"
| "serve E G h EP_getPaymentByOrder = h_getPaymentByOrder h"
| "serve E G h EP_getPaymentsByCustomer = h_getPaymentsByCustomer h"
| "serve E G h EP_getRefundsForPayment = h_getRefundsForPayment E h"
| "serve E G h EP_refundPayment = h_refundPayment E G h"

text \<open>The server as a sequence of requests, each served to its end.\<close>

fun serve_all :: "'d env \<Rightarrow> 'd gin \<Rightarrow> ('d, 'db, 'x) handler \<Rightarrow> (endpoint \<times> gin_context) list \<Rightarrow>
    ('db, 'x) world \<Rightarrow> 'd response list \<times> ('db, 'x) world" where
  "serve_all E G h [] w = ([], w)"
| "serve_all E G h ((ep, c) # rs) w =
     (case serve E G h ep c w of
        (r, w') \<Rightarrow> (case serve_all E G h rs w' of (out, w'') \<Rightarrow> (r # out, w'')))"

section \<open>Validation\<close>

lemma validated_payment:
  "validateProcessPaymentRequest E req = None \<Longrightarrow> amount_ok (E_dec E) (pq_Amount req)"
  by (auto simp: validateProcessPaymentRequest_def amount_ok_def split: if_splits)

lemma validated_refund:
  "validateRefundRequest E req = None \<Longrightarrow> amount_ok (E_dec E) (fq_Amount req)"
  by (auto simp: validateRefundRequest_def amount_ok_def split: if_splits)

lemma validation_status:
  "validateProcessPaymentRequest E req = Some e \<Longrightarrow> ae_Status e = 400 \<and> ae_cause e = None"
  "validateRefundRequest E q = Some e' \<Longrightarrow> ae_Status e' = 400 \<and> ae_cause e' = None"
  by (auto simp: validateProcessPaymentRequest_def validateRefundRequest_def BadRequest_def
      split: if_splits)

lemma or_abort_world: "snd (or_abort m k w) = snd (m w)"
  by (simp add: or_abort_def split: prod.split sum.split)

lemma with_payment_id_world:
  "snd (with_payment_id E c f w) =
     (case E_uuid_parse E (c_Param c ''paymentId'') of None \<Rightarrow> w | Some i \<Rightarrow> snd (f i w))"
  by (simp add: with_payment_id_def split: option.split)

lemma or_not_found_world: "snd (or_not_found e m w) = snd (m w)"
  by (simp add: or_not_found_def split: prod.split sum.split)

definition is_error :: "'d response \<Rightarrow> bool" where
  "is_error r \<longleftrightarrow> (\<exists>code message. rp_Body r = ErrorBody code message)"

lemma abort_is_error [simp]: "is_error (abortWithError e)"
  by (simp add: is_error_def abortWithError_def Let_def)

lemma json_is_error [simp]:
  "\<not> is_error (c_JSON st (PaymentBody p))" "\<not> is_error (c_JSON st (PaymentsBody ps))"
  "\<not> is_error (c_JSON st (RefundBody r))" "\<not> is_error (c_JSON st (RefundsBody rs))"
  "\<not> is_error (payment_answer c q)" "\<not> is_error (payments_answer qs)"
  by (simp_all add: is_error_def c_JSON_def payment_answer_def payments_answer_def Let_def)

definition read_only :: "endpoint \<Rightarrow> bool" where
  "read_only ep \<longleftrightarrow> ep \<noteq> EP_processPayment \<and> ep \<noteq> EP_refundPayment"

section \<open>Requests and the ledger\<close>

text \<open>The keys the service stores are trimmed.\<close>

definition keys_trimmed :: "'d ledger \<Rightarrow> bool" where
  "keys_trimmed L \<longleftrightarrow> list_all (\<lambda>p. case p_IdempotencyKey p of
     None \<Rightarrow> True | Some k \<Rightarrow> TrimSpace k = k \<and> k \<noteq> []) (l_payments L)"

lemma charge_keys_trimmed:
  "charge_recorded ka kt result q L L' \<Longrightarrow> payment_of_request E req c k q \<Longrightarrow> keys_trimmed L \<Longrightarrow>
     keys_trimmed L'"
  using nullString_trimmed [of k]
  by (cases "nullString k") (auto simp: charge_recorded_def payment_of_request_def keys_trimmed_def)

lemma refund_keys_trimmed:
  "refund_recorded val ka kt result p r L L' \<Longrightarrow> keys_trimmed L \<Longrightarrow> keys_trimmed L'"
  by (auto simp: refund_recorded_def keys_trimmed_def list_all_iff replace_payment_def)


context transactional_store begin

definition handler_ok :: "('d, 'db, 'x) handler \<Rightarrow> bool" where
  "handler_ok h \<longleftrightarrow> svc_ok (h_paymentService h) \<and> svc_ok (h_refundService h)"

text \<open>What a read leaves: the ledger and the gateways' side of the world.\<close>

definition unchanged :: "('db, 'x) world_rel" where
  "unchanged w w' \<longleftrightarrow> inv (w_db w') \<and> view (w_db w') = view (w_db w) \<and> quiet w w'"

lemma unchanged_refl: "inv (w_db w) \<Longrightarrow> unchanged w w"
  by (simp add: unchanged_def)

lemma get_unchanged:
  assumes "inv (w_db w)"
  shows "unchanged w (snd (st_GetPayment S i w))"
    and "unchanged w (snd (st_GetPaymentByOrderID S x w))"
    and "unchanged w (snd (st_GetPaymentsByCustomer S x w))"
    and "unchanged w (snd (st_GetRefundsByPayment S i w))"
proof -
  show "unchanged w (snd (st_GetPayment S i w))"
    using get_view(1) [OF assms] stepsD [OF get_quiet(1)]
    by (cases "st_GetPayment S i w") (auto simp: unchanged_def)
  show "unchanged w (snd (st_GetPaymentByOrderID S x w))"
    using get_view(3) [OF assms] stepsD [OF get_quiet(2)]
    by (cases "st_GetPaymentByOrderID S x w") (auto simp: unchanged_def)
  show "unchanged w (snd (st_GetPaymentsByCustomer S x w))"
    using get_view(5) [OF assms] stepsD [OF get_quiet(4)]
    by (cases "st_GetPaymentsByCustomer S x w") (auto simp: unchanged_def)
  show "unchanged w (snd (st_GetRefundsByPayment S i w))"
    using get_view(8) [OF assms] stepsD [OF get_quiet(6)]
    by (cases "st_GetRefundsByPayment S i w") (auto simp: unchanged_def)
qed

lemmas service_reads = svc_GetPayment_def svc_GetPaymentByOrderID_def svc_GetPaymentsByCustomer_def
  svc_GetRefundsByPayment_def or_not_found_world

lemma getPayments_unchanged:
  assumes h: "handler_ok h" and inv: "inv (w_db w)"
  shows "unchanged w (snd (h_getPayments h c w))"
proof -
  have S: "svc_store (h_paymentService h) = S" using h by (simp add: handler_ok_def svc_ok_def)
  let ?m = "svc_GetPaymentByOrderID (h_paymentService h) (TrimSpace (c_Query c ''orderId''))"
  have "unchanged w (snd (?m w))" by (simp add: service_reads S get_unchanged inv)
  moreover have "unchanged w (snd (svc_GetPaymentsByCustomer (h_paymentService h) x w))" for x
    by (simp add: service_reads S get_unchanged inv)
  ultimately show ?thesis
    using unchanged_refl [OF inv]
    by (cases "?m w") (auto simp: h_getPayments_def Let_def or_abort_world split: sum.split)
qed

lemma read_only_unchanged:
  assumes h: "handler_ok h" and inv: "inv (w_db w)" and ep: "read_only ep"
  shows "unchanged w (snd (serve E G h ep c w))"
proof -
  have S: "svc_store (h_paymentService h) = S" "svc_store (h_refundService h) = S"
    using h by (simp_all add: handler_ok_def svc_ok_def)
  show ?thesis
    using ep getPayments_unchanged [OF h inv] unchanged_refl [OF inv]
    by (cases ep)
      (simp_all add: read_only_def h_getPayment_def h_getPaymentByOrder_def
        h_getPaymentsByCustomer_def h_getRefundsForPayment_def with_payment_id_world
        or_abort_world service_reads S get_unchanged inv split: option.split)
qed

lemma or_abort_cases:
  assumes "or_abort m k w = (resp, w')"
  obtains e where "m w = (Inl e, w')" "resp = abortWithError (APIErrorFromErr (Some e))"
  | x where "m w = (Inr x, w')" "resp = k x"
  using assms by (auto simp: or_abort_def split: prod.splits sum.splits)

lemma processPayment_cases:
  assumes "h_processPayment E G h c w = (resp, w')"
  obtains e where "w' = w" "resp = abortWithError e"
  | req e k where "validateProcessPaymentRequest E req = None"
    "ProcessPayment E (h_paymentService h) req (c_GetHeader c ''X-Correlation-ID'') k w = (Inl e, w')"
    "resp = abortWithError (APIErrorFromErr (Some e))"
  | req p k where "validateProcessPaymentRequest E req = None"
    "ProcessPayment E (h_paymentService h) req (c_GetHeader c ''X-Correlation-ID'') k w = (Inr p, w')"
    "resp = payment_answer (c_GetHeader c ''X-Correlation-ID'') p"
  using assms
  by (auto simp: h_processPayment_def Let_def split: sum.splits option.splits elim!: or_abort_cases)

lemma refundPayment_cases:
  assumes "h_refundPayment E G h c w = (resp, w')"
  obtains e where "w' = w" "resp = abortWithError e"
  | i req e where "validateRefundRequest E req = None"
    "ProcessRefund E (h_refundService h) i (fq_Amount req) (fq_Reason req)
       (c_GetHeader c ''X-User-ID'') (c_GetHeader c ''X-Correlation-ID'') w = (Inl e, w')"
    "resp = abortWithError (APIErrorFromErr (Some e))"
  | i req r where "validateRefundRequest E req = None"
    "ProcessRefund E (h_refundService h) i (fq_Amount req) (fq_Reason req)
       (c_GetHeader c ''X-User-ID'') (c_GetHeader c ''X-Correlation-ID'') w = (Inr r, w')"
    "resp = c_JSON StatusOK (RefundBody (RefundResponseFrom r))"
  using assms
  by (auto simp: h_refundPayment_def with_payment_id_def split: sum.splits option.splits
      elim!: or_abort_cases)

text \<open>A request takes at most one step of the ledger, and none when it is answered with an
  error.\<close>

lemma serve_step:
  assumes h: "handler_ok h" and inv: "inv (w_db w)" and E: "E_dec E = D"
    and run: "serve E G h ep c w = (resp, w')"
  shows "inv (w_db w') \<and> step_or_same val ka kt (view (w_db w)) (view (w_db w')) \<and>
    (is_error resp \<longrightarrow> view (w_db w') = view (w_db w))"
proof (cases "read_only ep")
  case True
  with read_only_unchanged [OF h inv True, of E G c] run show ?thesis
    by (simp add: unchanged_def step_or_same_def)
next
  case False
  then consider "ep = EP_processPayment" | "ep = EP_refundPayment" by (auto simp: read_only_def)
  then show ?thesis
  proof cases
    case 1
    have svc: "svc_ok (h_paymentService h)" using h by (simp add: handler_ok_def)
    have "h_processPayment E G h c w = (resp, w')" using run 1 by simp
    then show ?thesis
    proof (cases rule: processPayment_cases)
      case (1 e)
      with inv show ?thesis by (simp add: step_or_same_def)
    next
      case (2 req e k)
      with ProcessPayment_outcome [OF svc inv 2(2)] show ?thesis
        by (auto simp: payment_outcome_def step_or_same_def)
    next
      case (3 req p k)
      from ProcessPayment_step [OF svc inv _ 3(2)] validated_payment [OF 3(1)] 3(3) show ?thesis
        by (simp add: E)
    qed
  next
    case 2
    have svc: "svc_ok (h_refundService h)" using h by (simp add: handler_ok_def)
    have "h_refundPayment E G h c w = (resp, w')" using run 2 by simp
    then show ?thesis
    proof (cases rule: refundPayment_cases)
      case (1 e)
      with inv show ?thesis by (simp add: step_or_same_def)
    next
      case (2 i req e)
      with ProcessRefund_outcome [OF inv E svc 2(2)] show ?thesis
        by (auto simp: refund_outcome_def step_or_same_def)
    next
      case (3 i req r)
      from ProcessRefund_step [OF svc inv E _ 3(2)] validated_refund [OF 3(1)] 3(3) show ?thesis
        by (simp add: E)
    qed
  qed
qed

text \<open>What every request keeps, a run keeps.\<close>

lemma serve_all_keeps:
  assumes h: "handler_ok h" and E: "E_dec E = D"
    and P: "\<And>w ep c resp w'. inv (w_db w) \<Longrightarrow> P w \<Longrightarrow> serve E G h ep c w = (resp, w') \<Longrightarrow> P w'"
  shows "inv (w_db w) \<Longrightarrow> P w \<Longrightarrow>
    inv (w_db (snd (serve_all E G h rs w))) \<and> P (snd (serve_all E G h rs w))"
proof (induction rs arbitrary: w)
  case (Cons a rs)
  obtain ep c where a: "a = (ep, c)" by fastforce
  obtain resp w1 where s: "serve E G h ep c w = (resp, w1)" by fastforce
  have "inv (w_db w1)" "P w1"
    using serve_step [OF h Cons.prems(1) E s] P [OF Cons.prems s] by auto
  from Cons.IH [OF this] show ?case by (cases "serve_all E G h rs w1") (simp add: a s)
qed simp

lemma serve_all_reachable:
  assumes h: "handler_ok h" and E: "E_dec E = D"
    and "inv (w_db w)" "ledger_reachable val ka kt (view (w_db w))"
  shows "inv (w_db (snd (serve_all E G h rs w))) \<and>
    ledger_reachable val ka kt (view (w_db (snd (serve_all E G h rs w))))"
proof (rule serve_all_keeps [OF h E, where P = "\<lambda>w. ledger_reachable val ka kt (view (w_db w))"])
  fix w ep c resp w'
  assume "inv (w_db w)" "ledger_reachable val ka kt (view (w_db w))"
    and "serve E G h ep c w = (resp, w')"
  with serve_step [OF h _ E] show "ledger_reachable val ka kt (view (w_db w'))"
    by (blast intro: reachable_step)
qed (fact assms(3,4))+

text \<open>The answer to a payment or a refund request shows a row of the ledger it leaves.\<close>

lemma kept_row: "inv db \<Longrightarrow> q \<in> set (l_payments (view db)) \<Longrightarrow> keep_payment ka kt q \<in> set (l_payments (view db))"
  "inv db \<Longrightarrow> r \<in> set (l_refunds (view db)) \<Longrightarrow> keep_refund ka kt r \<in> set (l_refunds (view db))"
  using payments_kept refunds_kept by simp_all

lemma processPayment_answer:
  assumes h: "handler_ok h" and inv: "inv (w_db w)"
    and run: "h_processPayment E G h c w = (resp, w')"
  shows "is_error resp \<and> view (w_db w') = view (w_db w) \<or>
    (\<exists>p. keep_payment ka kt p \<in> set (l_payments (view (w_db w'))) \<and>
       resp = payment_answer (c_GetHeader c ''X-Correlation-ID'') p)"
  using run
proof (cases rule: processPayment_cases)
  case (2 req e k)
  have svc: "svc_ok (h_paymentService h)" using h by (simp add: handler_ok_def)
  from ProcessPayment_outcome [OF svc inv 2(2)] 2(3) show ?thesis
    by (auto simp: payment_outcome_def)
next
  case (3 req p k)
  have svc: "svc_ok (h_paymentService h)" using h by (simp add: handler_ok_def)
  from ProcessPayment_outcome [OF svc inv 3(2)]
  have "keep_payment ka kt p \<in> set (l_payments (view (w_db w')))"
    using kept_row(1) [OF inv]
    by (auto simp: payment_outcome_def earlier_payment_def charge_recorded_def)
  with 3(3) show ?thesis by blast
qed auto

lemma refund_recorded_row:
  "refund_recorded val ka kt result p r L L' \<Longrightarrow> keep_refund ka kt r \<in> set (l_refunds L')"
  by (auto simp: refund_recorded_def)

lemma refund_outcome_row:
  "refund_outcome val ka kt E svc i amount reason c L w (Inr r) L' w' \<Longrightarrow>
     r \<in> set (l_refunds L) \<and> L' = L \<or> keep_refund ka kt r \<in> set (l_refunds L')"
  unfolding refund_outcome_def using refund_recorded_row by fastforce

lemma refundPayment_answer:
  assumes h: "handler_ok h" and inv: "inv (w_db w)" and E: "E_dec E = D"
    and run: "h_refundPayment E G h c w = (resp, w')"
  shows "is_error resp \<and> view (w_db w') = view (w_db w) \<or>
    (\<exists>r. keep_refund ka kt r \<in> set (l_refunds (view (w_db w'))) \<and>
       resp = c_JSON StatusOK (RefundBody (RefundResponseFrom r)))"
  using run
proof (cases rule: refundPayment_cases)
  case (2 i req e)
  have svc: "svc_ok (h_refundService h)" using h by (simp add: handler_ok_def)
  from ProcessRefund_outcome [OF inv E svc 2(2)] 2(3) show ?thesis
    by (auto simp: refund_outcome_def)
next
  case (3 i req r)
  have svc: "svc_ok (h_refundService h)" using h by (simp add: handler_ok_def)
  note out = conjunct2 [OF ProcessRefund_outcome [OF inv E svc 3(2)]]
  have "keep_refund ka kt r \<in> set (l_refunds (view (w_db w')))"
    using refund_outcome_row [OF out] kept_row(2) [OF inv, of r] by auto
  with 3(3) show ?thesis by blast
qed auto

text \<open>Without an enabled gateway nothing is ever charged or recorded.\<close>

lemma serve_no_gateway:
  assumes h: "handler_ok h" and inv: "inv (w_db w)" and E: "E_dec E = D"
    and none: "\<And>name g. GetGateway E (svc_router (h_paymentService h)) name \<noteq> Inr g"
      "\<And>name g. GetGateway E (svc_router (h_refundService h)) name \<noteq> Inr g"
    and run: "serve E G h ep c w = (resp, w')"
  shows "unchanged w w'"
proof (cases "read_only ep")
  case True
  with read_only_unchanged [OF h inv True, of E G c] run show ?thesis by simp
next
  case False
  have d: "GetGatewayOrDefault E (svc_router (h_paymentService h)) name \<noteq> Inr g" for name g
    using none(1) by (simp add: GetGatewayOrDefault_def GetDefaultGateway_def)
  from False consider "ep = EP_processPayment" | "ep = EP_refundPayment"
    by (auto simp: read_only_def)
  then show ?thesis
  proof cases
    case 1
    have svc: "svc_ok (h_paymentService h)" using h by (simp add: handler_ok_def)
    have "unchanged w w'" if "ProcessPayment E (h_paymentService h) req x k w = (r, w')" for req x k r
      using ProcessPayment_outcome [OF svc inv that] d
      by (auto simp: payment_outcome_def gateway_charged_def unchanged_def)
    moreover have "h_processPayment E G h c w = (resp, w')" using run 1 by simp
    ultimately show ?thesis using unchanged_refl [OF inv] by (metis processPayment_cases)
  next
    case 2
    have svc: "svc_ok (h_refundService h)" using h by (simp add: handler_ok_def)
    have "unchanged w w'" if "ProcessRefund E (h_refundService h) i a x who k w = (r, w')"
      for i a x who k r
      using ProcessRefund_outcome [OF inv E svc that] none(2)
      by (auto simp: refund_outcome_def refund_asked_def unchanged_def)
    moreover have "h_refundPayment E G h c w = (resp, w')" using run 2 by simp
    ultimately show ?thesis using unchanged_refl [OF inv] by (metis refundPayment_cases)
  qed
qed

text \<open>The keys of the ledger have no white space around them.\<close>

lemma serve_keys:
  assumes h: "handler_ok h" and inv: "inv (w_db w)" and E: "E_dec E = D"
    and keys: "keys_trimmed (view (w_db w))" and run: "serve E G h ep c w = (resp, w')"
  shows "keys_trimmed (view (w_db w'))"
proof (cases "read_only ep")
  case True
  with read_only_unchanged [OF h inv True, of E G c] run keys show ?thesis
    by (simp add: unchanged_def)
next
  case False
  then consider "ep = EP_processPayment" | "ep = EP_refundPayment" by (auto simp: read_only_def)
  then show ?thesis
  proof cases
    case 1
    have svc: "svc_ok (h_paymentService h)" using h by (simp add: handler_ok_def)
    have "keys_trimmed (view (w_db w'))"
      if "ProcessPayment E (h_paymentService h) req x k w = (r, w')" for req x k r
      using ProcessPayment_outcome [OF svc inv that] keys
      by (auto simp: payment_outcome_def intro: charge_keys_trimmed)
    moreover have "h_processPayment E G h c w = (resp, w')" using run 1 by simp
    ultimately show ?thesis using keys by (metis processPayment_cases)
  next
    case 2
    have svc: "svc_ok (h_refundService h)" using h by (simp add: handler_ok_def)
    have "keys_trimmed (view (w_db w'))"
      if "ProcessRefund E (h_refundService h) i a x who k w = (r, w')" for i a x who k r
      using ProcessRefund_outcome [OF inv E svc that] keys
      by (auto simp: refund_outcome_def intro: refund_keys_trimmed)
    moreover have "h_refundPayment E G h c w = (resp, w')" using run 2 by simp
    ultimately show ?thesis using keys by (metis refundPayment_cases)
  qed
qed

end

end
