(* ===== verification/Gateways.thy ===== *)
theory Gateways
  imports Gateway_Api
begin

text \<open>
  \<open>go/internal/gateway/mock.go\<close>: the mock, Stripe and PayPal gateways as instances of the
  gateway interface.  The Stripe API client is a parameter (\<open>stripe_api\<close>), with the request the
  code builds as a record; its state is the world outside the process.
\<close>

definition mockDeclineToken :: string where
  "mockDeclineToken = ''tok_mock_decline''"

definition mockInsufficientFundsToken :: string where
  "mockInsufficientFundsToken = ''tok_mock_insufficient_funds''"

text \<open>\<open>shortID\<close>: sixteen characters of a fresh UUID's text without its dashes.\<close>

definition shortID_of :: "'d env \<Rightarrow> uuid \<Rightarrow> string" where
  "shortID_of E u = take 16 (filter (\<lambda>c. c \<noteq> CHR ''-'') (E_uuid_string E u))"

definition with_shortID :: "'d env \<Rightarrow> (string \<Rightarrow> ('db, 'x) world \<Rightarrow> 'r) \<Rightarrow> ('db, 'x) world \<Rightarrow> 'r" where
  "with_shortID E f = with_uuid E (\<lambda>u. f (shortID_of E u))"

section \<open>The mock gateway\<close>

text \<open>The token table of a mock gateway is \<open>w_tokens\<close>; the mutex that guards it makes each
  access one step.\<close>

record mock_gateway =
  mg_enabled :: bool
  mg_delayMs :: int
  mg_failureRate :: go_float

definition NewMockGateway :: "bool \<Rightarrow> int \<Rightarrow> go_float \<Rightarrow> mock_gateway" where
  "NewMockGateway enabled delayMs failureRate =
     \<lparr>mg_enabled = enabled, mg_delayMs = delayMs, mg_failureRate = failureRate\<rparr>"

definition simulateDelay :: "mock_gateway \<Rightarrow> ('db, 'x) world \<Rightarrow> ('db, 'x) world" where
  "simulateDelay g w =
     (if mg_delayMs g > 0 then w\<lparr>w_slept := w_slept w + nat (mg_delayMs g)\<rparr> else w)"

definition with_shouldFail :: "'d env \<Rightarrow> mock_gateway \<Rightarrow> (bool \<Rightarrow> ('db, 'x) world \<Rightarrow> 'r) \<Rightarrow>
    ('db, 'x) world \<Rightarrow> 'r" where
  "with_shouldFail E g f w =
     (if float_less (Finite 0) (mg_failureRate g)
      then with_rand E (\<lambda>r. f (float_less r (mg_failureRate g))) w
      else f False w)"

definition last4_or_default :: "string \<Rightarrow> string" where
  "last4_or_default cardNumber =
     (if length cardNumber \<ge> 4 then drop (length cardNumber - 4) cardNumber else ''4242'')"

definition Mock_ProcessPayment :: "'d env \<Rightarrow> mock_gateway \<Rightarrow> 'd gateway_payment_request \<Rightarrow>
    ('db, 'x) world \<Rightarrow> payment_result \<times> ('db, 'x) world" where
  "Mock_ProcessPayment E g request w0 =
     (let w = simulateDelay g w0 in
      if gq_CardNumber request \<noteq> [] \<and> gq_CardNumber request = mockDeclineToken
        then (PaymentResultFailure ''card_declined'' ''Your card was declined'', w)
      else if gq_CardNumber request \<noteq> [] \<and> gq_CardNumber request = mockInsufficientFundsToken
        then (PaymentResultFailure ''insufficient_funds'' ''Insufficient funds'', w)
      else with_shouldFail E g (\<lambda>fail.
        if fail then (\<lambda>w. (PaymentResultFailure ''processing_error''
                             ''Random mock failure for testing'', w))
        else with_shortID E (\<lambda>txn. with_shortID E (\<lambda>intent w.
          (\<lparr>pr_Success = True,
            pr_TransactionID = ''mock_txn_'' @ txn,
            pr_PaymentIntentID = ''mock_pi_'' @ intent,
            pr_Status = ''completed'',
            pr_CardLast4 = last4_or_default (gq_CardNumber request),
            pr_CardBrand = ''visa'',
            pr_ErrorCode = [], pr_ErrorMessage = [],
            pr_RawResponse = []\<rparr>, w)))) w)"

definition Mock_ProcessRefund :: "'d env \<Rightarrow> mock_gateway \<Rightarrow> 'd gateway_refund_request \<Rightarrow>
    ('db, 'x) world \<Rightarrow> refund_result \<times> ('db, 'x) world" where
  "Mock_ProcessRefund E g request w =
     with_shouldFail E g (\<lambda>fail.
       if fail then (\<lambda>w. (RefundResultFailure ''refund_failed''
                            ''Random mock failure for testing'', w))
       else with_shortID E (\<lambda>re w.
         (\<lparr>rr_Success = True, rr_RefundID = ''mock_re_'' @ re, rr_Status = ''completed'',
           rr_ErrorCode = [], rr_ErrorMessage = [], rr_RawResponse = []\<rparr>, w)))
       (simulateDelay g w)"

definition Mock_Tokenize :: "'d env \<Rightarrow> mock_gateway \<Rightarrow> tokenize_request \<Rightarrow>
    ('db, 'x) world \<Rightarrow> tokenize_result \<times> ('db, 'x) world" where
  "Mock_Tokenize E g request w =
     with_shortID E (\<lambda>u w.
       let token = ''mock_tok_'' @ u in
       (\<lparr>tr_Success = True, tr_Token = token,
         tr_Last4 = last4_or_default (tq_CardNumber request),
         tr_Brand = ''visa'',
         tr_ExpMonth = tq_CardExpMonth request, tr_ExpYear = tq_CardExpYear request,
         tr_ErrorCode = [], tr_ErrorMessage = []\<rparr>,
        w\<lparr>w_tokens := (w_tokens w)(token \<mapsto> tq_CustomerID request)\<rparr>))
       (simulateDelay g w)"

definition Mock_DeleteToken :: "string \<Rightarrow> ('db, 'x) world \<Rightarrow> bool \<times> ('db, 'x) world" where
  "Mock_DeleteToken token w =
     (case w_tokens w token of
        None \<Rightarrow> (False, w)
      | Some _ \<Rightarrow> (True, w\<lparr>w_tokens := (w_tokens w)(token := None)\<rparr>))"

definition MockGateway :: "'d env \<Rightarrow> mock_gateway \<Rightarrow> ('d, 'db, 'x) payment_gateway" where
  "MockGateway E g =
     \<lparr>gw_GetName = ''mock'', gw_IsEnabled = mg_enabled g,
      gw_ProcessPayment = Mock_ProcessPayment E g, gw_ProcessRefund = Mock_ProcessRefund E g,
      gw_Tokenize = Mock_Tokenize E g, gw_DeleteToken = Mock_DeleteToken,
      gw_SupportsRecurring = True, gw_SupportsPartialRefund = True\<rparr>"

section \<open>The Stripe gateway\<close>

record stripe_params =
  sp_Amount :: "64 word"
  sp_Currency :: string
  sp_PaymentMethod :: string
  sp_Confirm :: bool
  sp_AutomaticPaymentMethods_Enabled :: bool
  sp_AllowRedirects :: string
  sp_Description :: "string option"
  sp_IdempotencyKey :: "string option"
  sp_Expand :: "string list"

record stripe_card =
  sc_Last4 :: string
  sc_Brand :: string

record stripe_payment_method_details =
  sd_Card :: "stripe_card option"

record stripe_charge =
  ch_PaymentMethodDetails :: "stripe_payment_method_details option"

record payment_intent =
  pi_ID :: string
  pi_Status :: string
  pi_LatestCharge :: "stripe_charge option"

text \<open>The error of the client: a \<open>*stripe.Error\<close> with its code and message, or another one.\<close>

datatype stripe_error = StripeError string string | OtherStripeError

type_synonym 'x stripe_api = "string \<Rightarrow> stripe_params \<Rightarrow> 'x \<Rightarrow> (stripe_error + payment_intent) \<times> 'x"

record stripe_gateway =
  sg_enabled :: bool
  sg_apiKey :: string

definition NewStripeGateway :: "bool \<Rightarrow> string \<Rightarrow> stripe_gateway" where
  "NewStripeGateway enabled apiKey = \<lparr>sg_enabled = enabled, sg_apiKey = apiKey\<rparr>"

definition stripe_amount :: "'d env \<Rightarrow> 'd \<Rightarrow> 64 word" where
  "stripe_amount E amount = dec_IntPart (E_dec E) (dec_Shift (E_dec E) amount 2)"

definition stripe_request :: "'d env \<Rightarrow> 'd gateway_payment_request \<Rightarrow> stripe_params" where
  "stripe_request E request =
     \<lparr>sp_Amount = stripe_amount E (gq_Amount request),
      sp_Currency = ToLower (E_lower E) (gq_Currency request),
      sp_PaymentMethod = gq_PaymentMethodToken request,
      sp_Confirm = True,
      sp_AutomaticPaymentMethods_Enabled = True,
      sp_AllowRedirects = ''never'',
      sp_Description = (if \<not> blank (gq_Description request) then Some (gq_Description request)
                        else None),
      sp_IdempotencyKey = (if \<not> blank (gq_IdempotencyKey request)
                           then Some (gq_IdempotencyKey request) else None),
      sp_Expand = [''latest_charge'']\<rparr>"

definition intent_card :: "payment_intent \<Rightarrow> stripe_card option" where
  "intent_card intent =
     Option.bind (pi_LatestCharge intent) (\<lambda>ch. Option.bind (ch_PaymentMethodDetails ch) sd_Card)"

definition Stripe_ProcessPayment :: "'d env \<Rightarrow> 'x stripe_api \<Rightarrow> stripe_gateway \<Rightarrow>
    'd gateway_payment_request \<Rightarrow> ('db, 'x) world \<Rightarrow> payment_result \<times> ('db, 'x) world" where
  "Stripe_ProcessPayment E api g request w =
     (if \<not> sg_enabled g
        then (PaymentResultFailure ''gateway_disabled'' ''Stripe gateway is not enabled'', w)
      else if blank (gq_PaymentMethodToken request)
        then (PaymentResultFailure ''missing_payment_method'' ''PaymentMethod ID is required'', w)
      else
        case api (sg_apiKey g) (stripe_request E request) (w_ext w) of
          (r, x) \<Rightarrow>
            (case r of
               Inl (StripeError code msg) \<Rightarrow> PaymentResultFailure code msg
             | Inl OtherStripeError \<Rightarrow>
                 PaymentResultFailure ''stripe_error'' ''payment processing failed''
             | Inr intent \<Rightarrow>
                 if pi_Status intent \<noteq> ''succeeded''
                 then PaymentResultFailure (''payment_'' @ pi_Status intent)
                        (''Stripe payment not completed: '' @ pi_Status intent)
                 else \<lparr>pr_Success = True, pr_TransactionID = pi_ID intent,
                        pr_PaymentIntentID = pi_ID intent, pr_Status = ''completed'',
                        pr_CardLast4 = (case intent_card intent of None \<Rightarrow> [] | Some c \<Rightarrow> sc_Last4 c),
                        pr_CardBrand = (case intent_card intent of None \<Rightarrow> [] | Some c \<Rightarrow> sc_Brand c),
                        pr_ErrorCode = [], pr_ErrorMessage = [], pr_RawResponse = []\<rparr>,
             w\<lparr>w_ext := x\<rparr>))"

definition Stripe_ProcessRefund :: "stripe_gateway \<Rightarrow> 'd gateway_refund_request \<Rightarrow>
    ('db, 'x) world \<Rightarrow> refund_result \<times> ('db, 'x) world" where
  "Stripe_ProcessRefund g request w =
     (if \<not> sg_enabled g
      then (RefundResultFailure ''gateway_disabled'' ''Stripe gateway is not enabled'', w)
      else (RefundResultFailure ''not_implemented''
              ''Stripe gateway is not implemented yet (deferred to PR2)'', w))"

definition Stripe_Tokenize :: "stripe_gateway \<Rightarrow> tokenize_request \<Rightarrow> ('db, 'x) world \<Rightarrow>
    tokenize_result \<times> ('db, 'x) world" where
  "Stripe_Tokenize g request w =
     (if \<not> sg_enabled g
      then (TokenizeResultFailure ''gateway_disabled'' ''Stripe gateway is not enabled'', w)
      else (TokenizeResultFailure ''not_supported''
              ''Use Stripe Elements to create a PaymentMethod client-side'', w))"

definition Stripe_DeleteToken :: "stripe_gateway \<Rightarrow> string \<Rightarrow> ('db, 'x) world \<Rightarrow> bool \<times> ('db, 'x) world" where
  "Stripe_DeleteToken g token w = (sg_enabled g, w)"

definition StripeGateway :: "'d env \<Rightarrow> 'x stripe_api \<Rightarrow> stripe_gateway \<Rightarrow>
    ('d, 'db, 'x) payment_gateway" where
  "StripeGateway E api g =
     \<lparr>gw_GetName = ''stripe'', gw_IsEnabled = sg_enabled g,
      gw_ProcessPayment = Stripe_ProcessPayment E api g,
      gw_ProcessRefund = Stripe_ProcessRefund g,
      gw_Tokenize = Stripe_Tokenize g, gw_DeleteToken = Stripe_DeleteToken g,
      gw_SupportsRecurring = False, gw_SupportsPartialRefund = True\<rparr>"

section \<open>The PayPal gateway\<close>

record paypal_gateway =
  pg_enabled :: bool

definition NewPayPalGateway :: "bool \<Rightarrow> paypal_gateway" where
  "NewPayPalGateway enabled = \<lparr>pg_enabled = enabled\<rparr>"

definition PayPal_ProcessPayment :: "paypal_gateway \<Rightarrow> 'd gateway_payment_request \<Rightarrow>
    ('db, 'x) world \<Rightarrow> payment_result \<times> ('db, 'x) world" where
  "PayPal_ProcessPayment g request w =
     (if \<not> pg_enabled g
      then (PaymentResultFailure ''gateway_disabled'' ''PayPal gateway is not enabled'', w)
      else (PaymentResultFailure ''not_implemented''
              ''PayPal gateway is not implemented yet (deferred to PR2)'', w))"

definition PayPal_ProcessRefund :: "paypal_gateway \<Rightarrow> 'd gateway_refund_request \<Rightarrow>
    ('db, 'x) world \<Rightarrow> refund_result \<times> ('db, 'x) world" where
  "PayPal_ProcessRefund g request w =
     (if \<not> pg_enabled g
      then (RefundResultFailure ''gateway_disabled'' ''PayPal gateway is not enabled'', w)
      else (RefundResultFailure ''not_implemented''
              ''PayPal gateway is not implemented yet (deferred to PR2)'', w))"

definition PayPal_Tokenize :: "'d env \<Rightarrow> paypal_gateway \<Rightarrow> tokenize_request \<Rightarrow>
    ('db, 'x) world \<Rightarrow> tokenize_result \<times> ('db, 'x) world" where
  "PayPal_Tokenize E g request w =
     (if \<not> pg_enabled g
      then (TokenizeResultFailure ''gateway_disabled'' ''PayPal gateway is not enabled'', w)
      else with_uuid E (\<lambda>u w.
        (\<lparr>tr_Success = True, tr_Token = ''paypal_vault_'' @ take 16 (E_uuid_string E u),
          tr_Last4 = [], tr_Brand = ''paypal'', tr_ExpMonth = [], tr_ExpYear = [],
          tr_ErrorCode = [], tr_ErrorMessage = []\<rparr>, w)) w)"

definition PayPal_DeleteToken :: "paypal_gateway \<Rightarrow> string \<Rightarrow> ('db, 'x) world \<Rightarrow> bool \<times> ('db, 'x) world" where
  "PayPal_DeleteToken g token w = (pg_enabled g, w)"

definition PayPalGateway :: "'d env \<Rightarrow> paypal_gateway \<Rightarrow> ('d, 'db, 'x) payment_gateway" where
  "PayPalGateway E g =
     \<lparr>gw_GetName = ''paypal'', gw_IsEnabled = pg_enabled g,
      gw_ProcessPayment = PayPal_ProcessPayment g, gw_ProcessRefund = PayPal_ProcessRefund g,
      gw_Tokenize = PayPal_Tokenize E g, gw_DeleteToken = PayPal_DeleteToken g,
      gw_SupportsRecurring = True, gw_SupportsPartialRefund = True\<rparr>"

section \<open>The contract holds for all three\<close>

lemmas mock_defs = MockGateway_def Mock_ProcessPayment_def Mock_ProcessRefund_def
  Mock_Tokenize_def Mock_DeleteToken_def simulateDelay_def with_shouldFail_def with_shortID_def
  draw_defs Let_def

lemmas stripe_defs = StripeGateway_def Stripe_ProcessPayment_def Stripe_ProcessRefund_def
  Stripe_Tokenize_def Stripe_DeleteToken_def

lemmas paypal_defs = PayPalGateway_def PayPal_ProcessPayment_def PayPal_ProcessRefund_def
  PayPal_Tokenize_def PayPal_DeleteToken_def draw_defs

interpretation mock: gateway_contract "MockGateway E g"
  by unfold_locales
    (auto simp: mock_defs result_failure_defs split: if_splits option.splits)

interpretation stripe: gateway_contract "StripeGateway E api g"
  by unfold_locales
    (auto simp: stripe_defs result_failure_defs split: if_splits prod.splits sum.splits
      stripe_error.splits)

interpretation paypal: gateway_contract "PayPalGateway E g"
  by unfold_locales (auto simp: paypal_defs result_failure_defs split: if_splits)

section \<open>What the gateways answer\<close>

text \<open>
  The mock gateway declines its two test tokens, with the code of each, whatever its
  failure rate, and draws neither a random number nor an id.
\<close>

theorem mock_declines_tokens:
  "Mock_ProcessPayment E g (q\<lparr>gq_CardNumber := mockDeclineToken\<rparr>) w =
     (PaymentResultFailure ''card_declined'' ''Your card was declined'', simulateDelay g w) \<and>
   Mock_ProcessPayment E g (q\<lparr>gq_CardNumber := mockInsufficientFundsToken\<rparr>) w =
     (PaymentResultFailure ''insufficient_funds'' ''Insufficient funds'', simulateDelay g w)"
  by (simp_all add: Mock_ProcessPayment_def mockDeclineToken_def mockInsufficientFundsToken_def Let_def)

text \<open>
  C32.  Stripe is charged the amount in hundredths, cut off towards zero, as a signed 64-bit
  number, as long as it fits.
\<close>

theorem stripe_amount_value:
  assumes "Money.truncate (exact_val a * 100) \<in> {- (2 ^ 63) ..< 2 ^ 63}"
    and "E_dec E = exact_ops"
  shows "sint (stripe_amount E a) = Money.truncate (exact_val a * 100)"
  using exact.IntPart [of "dec_Shift exact_ops a 2"] exact.val_Shift [of a 2] assms
  by (simp add: stripe_amount_def)

theorem stripe_amount_value_witness:
  "sint (stripe_amount \<lparr>E_dec = exact_ops, E_now = (\<lambda>_. 0), E_uuid = (\<lambda>_. 0),
     E_rand = (\<lambda>_. Finite 0), E_uuid_parse = (\<lambda>_. None), E_uuid_string = (\<lambda>_. []),
     E_lower = (\<lambda>s. s), E_upper = (\<lambda>s. s)\<rparr> (Exact 12999 (- 3))) = 1299"
proof -
  have v: "exact_val (Exact 12999 (- 3)) = 12999 / 1000"
    by (simp add: exact_val_def power_int_def power_divide)
  show ?thesis
    by (subst stripe_amount_value) (simp_all add: v Money.truncate_def floor_eq_iff)
qed

text \<open>
  C33.  The Stripe gateway reports success exactly when it is enabled, the request names a payment
  method, and the API answers its request with an intent that has succeeded.
\<close>

theorem stripe_succeeds_iff:
  "pr_Success (fst (Stripe_ProcessPayment E api g request w)) \<longleftrightarrow>
     sg_enabled g \<and> \<not> blank (gq_PaymentMethodToken request) \<and>
     (\<exists>intent. fst (api (sg_apiKey g) (stripe_request E request) (w_ext w)) = Inr intent \<and>
        pi_Status intent = ''succeeded'')"
  by (auto simp: Stripe_ProcessPayment_def result_failure_defs split: prod.split sum.split
      stripe_error.split)

end
