(* ===== verification/Sql.thy ===== *)
theory Sql
  imports Runtime
begin

text \<open>
  The part of SQL the store uses: the values that cross the driver, the statements as data
  (\<open>INSERT\<close>, \<open>UPDATE ... WHERE\<close> and \<open>SELECT ... WHERE ... [ORDER BY created_at DESC] [LIMIT 1]
  [FOR UPDATE]\<close>, each with its column list), the database driver \<open>pgx\<close> as a record of functions
  (\<open>dbQuerier\<close> and the pool), and the schema of the migrations \<open>V1\<close> and \<open>V2\<close>.
\<close>

section \<open>Values and statements\<close>

datatype sql_value =
    VNull
  | VText string
  | VUuid uuid
  | VTime time
  | VBool bool
  | VNumeric int

datatype table = Payments | Refunds | Transactions

datatype column =
    C_id | C_order_id | C_customer_id | C_amount | C_currency | C_status | C_gateway
  | C_gateway_transaction_id | C_gateway_payment_intent_id | C_payment_method_id
  | C_card_last4 | C_card_brand | C_metadata | C_failure_reason | C_failure_code
  | C_created_at | C_processed_at | C_completed_at | C_updated_at | C_correlation_id
  | C_idempotency_key | C_payment_id | C_reason | C_gateway_refund_id | C_initiated_by
  | C_refund_id | C_type | C_success | C_gateway_response | C_gateway_error_code
  | C_gateway_error_message | C_ip_address | C_user_agent

text \<open>\<open>$n\<close>, \<open>$n::numeric\<close> and \<open>column::text\<close>.\<close>

datatype cast = Plain | AsNumeric | AsText

text \<open>The arguments of an \<open>Insert\<close> are the values of its columns; the first argument of an
  \<open>Update\<close> is the value its WHERE column must have, the others are the new values.\<close>

datatype statement =
    Insert table "(column \<times> cast) list"
  | Update table "(column \<times> cast) list" column

record select =
  sel_columns :: "(column \<times> cast) list"
  sel_table :: table
  sel_where :: column
  sel_newest_first :: bool
  sel_limit_one :: bool
  sel_for_update :: bool

section \<open>The driver\<close>

text \<open>\<open>q_Exec\<close> returns the number of rows affected.  \<open>q_QueryRow\<close> returns the columns of the first
  row, or the error that \<open>Scan\<close> reports (\<open>pgx.ErrNoRows\<close> when there is none); \<open>q_Query\<close> returns
  the rows in order and what \<open>rows.Err()\<close> says after the last one.\<close>

record ('db, 'x) querier =
  q_Exec :: "statement \<Rightarrow> sql_value list \<Rightarrow> ('db, 'x, nat) go"
  q_Query :: "select \<Rightarrow> sql_value list \<Rightarrow> ('db, 'x, sql_value list list \<times> go_error option) go"
  q_QueryRow :: "select \<Rightarrow> sql_value list \<Rightarrow> ('db, 'x, sql_value list) go"

record ('db, 'x) pool =
  pool_Ping :: "('db, 'x, unit) go"
  pool_querier :: "('db, 'x) querier"
  pool_Begin :: "('db, 'x, unit) go"
  pool_tx :: "('db, 'x) querier"
  tx_Commit :: "('db, 'x, unit) go"
  tx_Rollback :: "('db, 'x, unit) go"

section \<open>The schema\<close>

datatype column_type = Varchar nat | TextType | UuidType | Numeric19_4 | Timestamp | Boolean

text \<open>The type of a column and whether it is NOT NULL; \<open>None\<close> for a column the table lacks.\<close>

fun payments_schema :: "column \<Rightarrow> (column_type \<times> bool) option" where
  "payments_schema C_id = Some (UuidType, True)"
| "payments_schema C_order_id = Some (Varchar 255, True)"
| "payments_schema C_customer_id = Some (Varchar 255, True)"
| "payments_schema C_amount = Some (Numeric19_4, True)"
| "payments_schema C_currency = Some (Varchar 3, True)"
| "payments_schema C_status = Some (Varchar 20, True)"
| "payments_schema C_gateway = Some (Varchar 20, True)"
| "payments_schema C_gateway_transaction_id = Some (Varchar 255, False)"
| "payments_schema C_gateway_payment_intent_id = Some (Varchar 255, False)"
| "payments_schema C_payment_method_id = Some (UuidType, False)"
| "payments_schema C_card_last4 = Some (Varchar 4, False)"
| "payments_schema C_card_brand = Some (Varchar 20, False)"
| "payments_schema C_metadata = Some (TextType, False)"
| "payments_schema C_failure_reason = Some (Varchar 500, False)"
| "payments_schema C_failure_code = Some (Varchar 50, False)"
| "payments_schema C_created_at = Some (Timestamp, True)"
| "payments_schema C_processed_at = Some (Timestamp, False)"
| "payments_schema C_completed_at = Some (Timestamp, False)"
| "payments_schema C_updated_at = Some (Timestamp, False)"
| "payments_schema C_correlation_id = Some (Varchar 100, False)"
| "payments_schema C_idempotency_key = Some (Varchar 50, False)"
| "payments_schema _ = None"

fun refunds_schema :: "column \<Rightarrow> (column_type \<times> bool) option" where
  "refunds_schema C_id = Some (UuidType, True)"
| "refunds_schema C_payment_id = Some (UuidType, True)"
| "refunds_schema C_amount = Some (Numeric19_4, True)"
| "refunds_schema C_currency = Some (Varchar 3, True)"
| "refunds_schema C_status = Some (Varchar 20, True)"
| "refunds_schema C_reason = Some (Varchar 500, False)"
| "refunds_schema C_gateway_refund_id = Some (Varchar 255, False)"
| "refunds_schema C_failure_reason = Some (Varchar 500, False)"
| "refunds_schema C_failure_code = Some (Varchar 50, False)"
| "refunds_schema C_initiated_by = Some (Varchar 100, False)"
| "refunds_schema C_created_at = Some (Timestamp, True)"
| "refunds_schema C_processed_at = Some (Timestamp, False)"
| "refunds_schema C_completed_at = Some (Timestamp, False)"
| "refunds_schema C_updated_at = Some (Timestamp, False)"
| "refunds_schema C_correlation_id = Some (Varchar 100, False)"
| "refunds_schema _ = None"

fun transactions_schema :: "column \<Rightarrow> (column_type \<times> bool) option" where
  "transactions_schema C_id = Some (UuidType, True)"
| "transactions_schema C_payment_id = Some (UuidType, True)"
| "transactions_schema C_refund_id = Some (UuidType, False)"
| "transactions_schema C_type = Some (Varchar 20, True)"
| "transactions_schema C_amount = Some (Numeric19_4, True)"
| "transactions_schema C_currency = Some (Varchar 3, True)"
| "transactions_schema C_success = Some (Boolean, True)"
| "transactions_schema C_gateway_transaction_id = Some (Varchar 255, False)"
| "transactions_schema C_gateway_response = Some (TextType, False)"
| "transactions_schema C_gateway_error_code = Some (Varchar 50, False)"
| "transactions_schema C_gateway_error_message = Some (Varchar 500, False)"
| "transactions_schema C_created_at = Some (Timestamp, True)"
| "transactions_schema C_correlation_id = Some (Varchar 100, False)"
| "transactions_schema C_ip_address = Some (Varchar 50, False)"
| "transactions_schema C_user_agent = Some (Varchar 500, False)"
| "transactions_schema _ = None"

definition schema :: "table \<Rightarrow> column \<Rightarrow> (column_type \<times> bool) option" where
  "schema t = (case t of Payments \<Rightarrow> payments_schema | Refunds \<Rightarrow> refunds_schema
     | Transactions \<Rightarrow> transactions_schema)"

lemma schema_simps [simp]:
  "schema Payments = payments_schema" "schema Refunds = refunds_schema"
  "schema Transactions = transactions_schema"
  by (simp_all add: schema_def)

section \<open>Rows\<close>

type_synonym row = "column \<Rightarrow> sql_value"

text \<open>The text of a UUID: eight, four, four, four and twelve lower-case hexadecimal digits.\<close>

definition hex_digit :: "nat \<Rightarrow> char" where
  "hex_digit n = (if n < 10 then char_of (48 + n) else char_of (87 + n))"

fun hex_fixed :: "nat \<Rightarrow> nat \<Rightarrow> string" where
  "hex_fixed 0 n = []"
| "hex_fixed (Suc k) n = hex_fixed k (n div 16) @ [hex_digit (n mod 16)]"

definition dashed :: "string \<Rightarrow> string" where
  "dashed s = take 8 s @ ''-'' @ take 4 (drop 8 s) @ ''-'' @ take 4 (drop 12 s) @ ''-'' @
     take 4 (drop 16 s) @ ''-'' @ drop 20 s"

definition uuid_text :: "uuid \<Rightarrow> string" where
  "uuid_text u = dashed (hex_fixed 32 (unat u))"

text \<open>A NUMERIC(19,4) is a number of ten-thousandths; its text has four decimals.\<close>

fun selected :: "cast \<Rightarrow> sql_value \<Rightarrow> sql_value" where
  "selected AsText (VNumeric n) = VText (fixed_text n 4)"
| "selected AsText (VUuid u) = VText (uuid_text u)"
| "selected _ v = v"

definition select_row :: "(column \<times> cast) list \<Rightarrow> row \<Rightarrow> sql_value list" where
  "select_row cols r = map (\<lambda>(c, k). selected k (r c)) cols"

text \<open>What a column keeps of the value it is given: TIMESTAMP holds microseconds, NUMERIC(19,4)
  four decimals.\<close>

definition micros :: "time \<Rightarrow> time" where
  "micros t = t div 1000 * 1000"

fun stored :: "cast \<Rightarrow> sql_value \<Rightarrow> sql_value" where
  "stored AsNumeric (VText s) =
     (case decimal_text s of Some x \<Rightarrow> VNumeric (cents4 x) | None \<Rightarrow> VNull)"
| "stored _ (VTime t) = VTime (micros t)"
| "stored _ v = v"

text \<open>The new values of a row: the given ones for the listed columns.\<close>

fun assigned :: "(column \<times> cast) list \<Rightarrow> sql_value list \<Rightarrow> row \<Rightarrow> row" where
  "assigned ((c, k) # cols) (v # vs) r = (assigned cols vs r)(c := stored k v)"
| "assigned _ _ r = r"

end
