(* ===== verification/Sql_Store.thy ===== *)
theory Sql_Store
  imports Sql Payment_Store
begin

text \<open>
  \<open>go/internal/payment/store.go\<close>: the store over the database driver, statement by statement.
  An operation that is given a row takes a pointer, \<open>None\<close> being nil, and returns the row it has
  updated.  \<open>sql_store\<close> is the store as the services see it and \<open>sql_runner\<close> its transactions.
\<close>

section \<open>The store\<close>

record ('db, 'x) store =
  s_pool :: "('db, 'x) pool option"
  s_db :: "('db, 'x) querier"

definition NewStore :: "('db, 'x) pool \<Rightarrow> ('db, 'x) store" where
  "NewStore db = \<lparr>s_pool = Some db, s_db = pool_querier db\<rparr>"

definition not_configured :: go_error where
  "not_configured = ErrText ''database is not configured''"

text \<open>The pool of a store that is itself a pointer.\<close>

definition pool_of :: "('db, 'x) store option \<Rightarrow> ('db, 'x) pool option" where
  "pool_of s = (case s of None \<Rightarrow> None | Some st \<Rightarrow> s_pool st)"

definition Store_Ping :: "('db, 'x) store option \<Rightarrow> ('db, 'x, unit) go" where
  "Store_Ping s = (case pool_of s of None \<Rightarrow> failE not_configured | Some pl \<Rightarrow> pool_Ping pl)"

section \<open>Arguments and results\<close>

definition nullStringArg :: "string option \<Rightarrow> sql_value" where
  "nullStringArg ns = (case ns of Some s \<Rightarrow> VText s | None \<Rightarrow> VNull)"

definition nullTimeArg :: "time option \<Rightarrow> sql_value" where
  "nullTimeArg nt = (case nt of Some t \<Rightarrow> VTime t | None \<Rightarrow> VNull)"

definition nullUUIDArg :: "uuid option \<Rightarrow> sql_value" where
  "nullUUIDArg nu = (case nu of Some u \<Rightarrow> VUuid u | None \<Rightarrow> VNull)"

text \<open>\<open>row.Scan\<close> into a variable of each of the types used.\<close>

definition scan_failed :: go_error where
  "scan_failed = ErrText ''can't scan into dest''"

fun scan_uuid :: "sql_value \<Rightarrow> go_error + uuid" where
  "scan_uuid (VUuid u) = Inr u" | "scan_uuid _ = Inl scan_failed"

fun scan_string :: "sql_value \<Rightarrow> go_error + string" where
  "scan_string (VText s) = Inr s" | "scan_string _ = Inl scan_failed"

fun scan_null_string :: "sql_value \<Rightarrow> go_error + string option" where
  "scan_null_string VNull = Inr None" | "scan_null_string (VText s) = Inr (Some s)"
| "scan_null_string _ = Inl scan_failed"

fun scan_time :: "sql_value \<Rightarrow> go_error + time" where
  "scan_time (VTime t) = Inr t" | "scan_time _ = Inl scan_failed"

fun scan_null_time :: "sql_value \<Rightarrow> go_error + time option" where
  "scan_null_time VNull = Inr None" | "scan_null_time (VTime t) = Inr (Some t)"
| "scan_null_time _ = Inl scan_failed"

definition bindS :: "go_error + 'a \<Rightarrow> ('a \<Rightarrow> go_error + 'b) \<Rightarrow> go_error + 'b" where
  "bindS m f = (case m of Inl e \<Rightarrow> Inl e | Inr x \<Rightarrow> f x)"

lemma bindS_simps [simp]: "bindS (Inr x) f = f x" "bindS (Inl e) f = Inl e"
  by (simp_all add: bindS_def)

definition parse_failed :: "string \<Rightarrow> go_error \<Rightarrow> go_error" where
  "parse_failed what err = ErrWrap (''parse '' @ what @ '': '') err []"

definition parse_amount :: "'d env \<Rightarrow> string \<Rightarrow> string \<Rightarrow> go_error + 'd" where
  "parse_amount E what amountText =
     (case dec_NewFromString (E_dec E) amountText of
        Inl err \<Rightarrow> Inl (parse_failed what err)
      | Inr amount \<Rightarrow> Inr amount)"

text \<open>\<open>payment_method_id::text\<close> back to a UUID; the text of the library's parse error is not used.\<close>

definition parse_method_id :: "'d env \<Rightarrow> string option \<Rightarrow> go_error + uuid option" where
  "parse_method_id E s =
     (case s of
        None \<Rightarrow> Inr None
      | Some v \<Rightarrow>
          (case E_uuid_parse E v of
             None \<Rightarrow> Inl (parse_failed ''payment_method_id'' (ErrText ''invalid UUID''))
           | Some u \<Rightarrow> Inr (Some u)))"

fun scanPaymentRow :: "'d env \<Rightarrow> sql_value list \<Rightarrow> go_error + 'd payment" where
  "scanPaymentRow E [v1, v2, v3, v4, v5, v6, v7, v8, v9, v10, v11, v12, v13, v14, v15, v16, v17,
       v18, v19, v20, v21] =
     bindS (scan_uuid v1) (\<lambda>i. bindS (scan_string v2) (\<lambda>orderID.
     bindS (scan_string v3) (\<lambda>customerID. bindS (scan_string v4) (\<lambda>amountText.
     bindS (scan_string v5) (\<lambda>currency. bindS (scan_string v6) (\<lambda>status.
     bindS (scan_string v7) (\<lambda>gateway. bindS (scan_null_string v8) (\<lambda>gatewayTransactionID.
     bindS (scan_null_string v9) (\<lambda>gatewayPaymentIntentID.
     bindS (scan_null_string v10) (\<lambda>paymentMethodIDText.
     bindS (scan_null_string v11) (\<lambda>cardLast4. bindS (scan_null_string v12) (\<lambda>cardBrand.
     bindS (scan_null_string v13) (\<lambda>metadata. bindS (scan_null_string v14) (\<lambda>failureReason.
     bindS (scan_null_string v15) (\<lambda>failureCode. bindS (scan_time v16) (\<lambda>createdAt.
     bindS (scan_null_time v17) (\<lambda>processedAt. bindS (scan_null_time v18) (\<lambda>completedAt.
     bindS (scan_null_time v19) (\<lambda>updatedAt. bindS (scan_null_string v20) (\<lambda>correlationID.
     bindS (scan_null_string v21) (\<lambda>idempotencyKey.
     bindS (parse_amount E ''payment amount'' amountText) (\<lambda>amount.
     bindS (parse_method_id E paymentMethodIDText) (\<lambda>paymentMethodID.
     Inr \<lparr>p_ID = i, p_OrderID = orderID, p_CustomerID = customerID, p_Amount = amount,
          p_Currency = currency, p_Status = status, p_Gateway = gateway,
          p_GatewayTransactionID = gatewayTransactionID,
          p_GatewayPaymentIntentID = gatewayPaymentIntentID,
          p_PaymentMethodID = paymentMethodID, p_CardLast4 = cardLast4,
          p_CardBrand = cardBrand, p_Metadata = metadata, p_FailureReason = failureReason,
          p_FailureCode = failureCode, p_CreatedAt = createdAt, p_ProcessedAt = processedAt,
          p_CompletedAt = completedAt, p_UpdatedAt = updatedAt,
          p_CorrelationID = correlationID,
          p_IdempotencyKey = idempotencyKey\<rparr>)))))))))))))))))))))))"
| "scanPaymentRow E _ = Inl scan_failed"

fun scanRefundRow :: "'d env \<Rightarrow> sql_value list \<Rightarrow> go_error + 'd refund" where
  "scanRefundRow E [v1, v2, v3, v4, v5, v6, v7, v8, v9, v10, v11, v12, v13, v14] =
     bindS (scan_uuid v1) (\<lambda>i. bindS (scan_uuid v2) (\<lambda>paymentID.
     bindS (scan_string v3) (\<lambda>amountText. bindS (scan_string v4) (\<lambda>currency.
     bindS (scan_string v5) (\<lambda>status. bindS (scan_null_string v6) (\<lambda>reason.
     bindS (scan_null_string v7) (\<lambda>gatewayRefundID.
     bindS (scan_null_string v8) (\<lambda>failureReason. bindS (scan_null_string v9) (\<lambda>failureCode.
     bindS (scan_time v10) (\<lambda>createdAt. bindS (scan_null_time v11) (\<lambda>processedAt.
     bindS (scan_null_time v12) (\<lambda>completedAt. bindS (scan_null_string v13) (\<lambda>correlationID.
     bindS (scan_null_string v14) (\<lambda>initiatedBy.
     bindS (parse_amount E ''refund amount'' amountText) (\<lambda>amount.
     Inr \<lparr>r_ID = i, r_PaymentID = paymentID, r_Amount = amount, r_Currency = currency,
          r_Status = status, r_Reason = reason, r_GatewayRefundID = gatewayRefundID,
          r_FailureReason = failureReason, r_FailureCode = failureCode, r_CreatedAt = createdAt,
          r_ProcessedAt = processedAt, r_CompletedAt = completedAt,
          r_CorrelationID = correlationID, r_InitiatedBy = initiatedBy\<rparr>)))))))))))))))"
| "scanRefundRow E _ = Inl scan_failed"

section \<open>Payments\<close>

definition payment_columns :: "(column \<times> cast) list" where
  "payment_columns =
     [(C_id, Plain), (C_order_id, Plain), (C_customer_id, Plain), (C_amount, AsText),
      (C_currency, Plain), (C_status, Plain), (C_gateway, Plain),
      (C_gateway_transaction_id, Plain), (C_gateway_payment_intent_id, Plain),
      (C_payment_method_id, AsText), (C_card_last4, Plain), (C_card_brand, Plain),
      (C_metadata, Plain), (C_failure_reason, Plain), (C_failure_code, Plain),
      (C_created_at, Plain), (C_processed_at, Plain), (C_completed_at, Plain),
      (C_updated_at, Plain), (C_correlation_id, Plain), (C_idempotency_key, Plain)]"

definition insert_payment :: statement where
  "insert_payment = Insert Payments
     [(C_id, Plain), (C_order_id, Plain), (C_customer_id, Plain), (C_amount, AsNumeric),
      (C_currency, Plain), (C_status, Plain), (C_gateway, Plain),
      (C_gateway_transaction_id, Plain), (C_gateway_payment_intent_id, Plain),
      (C_payment_method_id, Plain), (C_card_last4, Plain), (C_card_brand, Plain),
      (C_metadata, Plain), (C_failure_reason, Plain), (C_failure_code, Plain),
      (C_created_at, Plain), (C_processed_at, Plain), (C_completed_at, Plain),
      (C_updated_at, Plain), (C_correlation_id, Plain), (C_idempotency_key, Plain)]"

definition insert_payment_args :: "'d env \<Rightarrow> 'd payment \<Rightarrow> sql_value list" where
  "insert_payment_args E p =
     [VUuid (p_ID p), VText (p_OrderID p), VText (p_CustomerID p),
      VText (dec_String (E_dec E) (p_Amount p)), VText (p_Currency p), VText (p_Status p),
      VText (p_Gateway p), nullStringArg (p_GatewayTransactionID p),
      nullStringArg (p_GatewayPaymentIntentID p), nullUUIDArg (p_PaymentMethodID p),
      nullStringArg (p_CardLast4 p), nullStringArg (p_CardBrand p), nullStringArg (p_Metadata p),
      nullStringArg (p_FailureReason p), nullStringArg (p_FailureCode p), VTime (p_CreatedAt p),
      nullTimeArg (p_ProcessedAt p), nullTimeArg (p_CompletedAt p),
      VTime (case p_UpdatedAt p of Some t \<Rightarrow> t | None \<Rightarrow> 0),
      nullStringArg (p_CorrelationID p), nullStringArg (p_IdempotencyKey p)]"

definition payment_is_nil :: go_error where "payment_is_nil = ErrText ''payment is nil''"

text \<open>The row the insert writes: a new id for \<open>uuid.Nil\<close>, the clock for a zero creation time.\<close>

definition Store_CreatePayment :: "'d env \<Rightarrow> ('db, 'x) store \<Rightarrow> 'd payment option \<Rightarrow>
    ('db, 'x, 'd payment) go" where
  "Store_CreatePayment E s arg =
     (case arg of
        None \<Rightarrow> failE payment_is_nil
      | Some p0 \<Rightarrow>
          (let rest = (\<lambda>p. with_now E (\<lambda>now.
             let p = (if p_CreatedAt p = 0 then p\<lparr>p_CreatedAt := now\<rparr> else p)
                       \<lparr>p_UpdatedAt := Some now\<rparr>
             in bindE (q_Exec (s_db s) insert_payment (insert_payment_args E p))
                  (\<lambda>_. returnE p)))
           in if p_ID p0 = 0 then with_uuid E (\<lambda>u. rest (p0\<lparr>p_ID := u\<rparr>)) else rest p0))"

definition update_payment_stmt :: statement where
  "update_payment_stmt = Update Payments
     [(C_order_id, Plain), (C_customer_id, Plain), (C_amount, AsNumeric), (C_currency, Plain),
      (C_status, Plain), (C_gateway, Plain), (C_gateway_transaction_id, Plain),
      (C_gateway_payment_intent_id, Plain), (C_payment_method_id, Plain),
      (C_card_last4, Plain), (C_card_brand, Plain), (C_metadata, Plain),
      (C_failure_reason, Plain), (C_failure_code, Plain), (C_processed_at, Plain),
      (C_completed_at, Plain), (C_updated_at, Plain), (C_correlation_id, Plain),
      (C_idempotency_key, Plain)] C_id"

definition update_payment_args :: "'d env \<Rightarrow> 'd payment \<Rightarrow> sql_value list" where
  "update_payment_args E p =
     [VUuid (p_ID p), VText (p_OrderID p), VText (p_CustomerID p),
      VText (dec_String (E_dec E) (p_Amount p)), VText (p_Currency p), VText (p_Status p),
      VText (p_Gateway p), nullStringArg (p_GatewayTransactionID p),
      nullStringArg (p_GatewayPaymentIntentID p), nullUUIDArg (p_PaymentMethodID p),
      nullStringArg (p_CardLast4 p), nullStringArg (p_CardBrand p), nullStringArg (p_Metadata p),
      nullStringArg (p_FailureReason p), nullStringArg (p_FailureCode p),
      nullTimeArg (p_ProcessedAt p), nullTimeArg (p_CompletedAt p),
      VTime (case p_UpdatedAt p of Some t \<Rightarrow> t | None \<Rightarrow> 0),
      nullStringArg (p_CorrelationID p), nullStringArg (p_IdempotencyKey p)]"

definition Store_UpdatePayment :: "'d env \<Rightarrow> ('db, 'x) store \<Rightarrow> 'd payment option \<Rightarrow>
    ('db, 'x, 'd payment) go" where
  "Store_UpdatePayment E s arg =
     (case arg of
        None \<Rightarrow> failE payment_is_nil
      | Some p0 \<Rightarrow> with_now E (\<lambda>now.
          let p = p0\<lparr>p_UpdatedAt := Some now\<rparr>
          in bindE (q_Exec (s_db s) update_payment_stmt (update_payment_args E p)) (\<lambda>affected.
               if affected = 0 then failE ErrNoRows else returnE p)))"

definition select_payment :: "column \<Rightarrow> bool \<Rightarrow> bool \<Rightarrow> bool \<Rightarrow> select" where
  "select_payment c newest one lock =
     \<lparr>sel_columns = payment_columns, sel_table = Payments, sel_where = c,
      sel_newest_first = newest, sel_limit_one = one, sel_for_update = lock\<rparr>"

text \<open>\<open>scanPaymentRow(db.QueryRow(...))\<close>.\<close>

definition query_row :: "('db, 'x) store \<Rightarrow> (sql_value list \<Rightarrow> go_error + 'a) \<Rightarrow> select \<Rightarrow>
    sql_value \<Rightarrow> ('db, 'x, 'a) go" where
  "query_row s scan q arg =
     bindE (q_QueryRow (s_db s) q [arg]) (\<lambda>row w. (scan row, w))"

definition Store_GetPayment :: "'d env \<Rightarrow> ('db, 'x) store \<Rightarrow> uuid \<Rightarrow> ('db, 'x, 'd payment) go" where
  "Store_GetPayment E s i =
     query_row s (scanPaymentRow E) (select_payment C_id False False False) (VUuid i)"

definition Store_GetPaymentForUpdate :: "'d env \<Rightarrow> ('db, 'x) store \<Rightarrow> uuid \<Rightarrow>
    ('db, 'x, 'd payment) go" where
  "Store_GetPaymentForUpdate E s i =
     query_row s (scanPaymentRow E) (select_payment C_id False False True) (VUuid i)"

definition Store_GetPaymentByOrderID :: "'d env \<Rightarrow> ('db, 'x) store \<Rightarrow> string \<Rightarrow>
    ('db, 'x, 'd payment) go" where
  "Store_GetPaymentByOrderID E s orderID =
     query_row s (scanPaymentRow E) (select_payment C_order_id True True False) (VText orderID)"

definition Store_GetPaymentByIdempotencyKey :: "'d env \<Rightarrow> ('db, 'x) store \<Rightarrow> string \<Rightarrow>
    ('db, 'x, 'd payment) go" where
  "Store_GetPaymentByIdempotencyKey E s idempotencyKey =
     query_row s (scanPaymentRow E) (select_payment C_idempotency_key True True False)
       (VText idempotencyKey)"

text \<open>\<open>for rows.Next() { ... }\<close>, then \<open>rows.Err()\<close>.\<close>

fun scan_rows :: "(sql_value list \<Rightarrow> go_error + 'a) \<Rightarrow> 'a list \<Rightarrow> sql_value list list \<Rightarrow>
    go_error option \<Rightarrow> go_error + 'a list" where
  "scan_rows scan got [] err = (case err of None \<Rightarrow> Inr got | Some e \<Rightarrow> Inl e)"
| "scan_rows scan got (row # rows) err =
     (case scan row of Inl e \<Rightarrow> Inl e | Inr x \<Rightarrow> scan_rows scan (got @ [x]) rows err)"

definition query_rows :: "('db, 'x) store \<Rightarrow> (sql_value list \<Rightarrow> go_error + 'a) \<Rightarrow> select \<Rightarrow>
    sql_value \<Rightarrow> ('db, 'x, 'a list) go" where
  "query_rows s scan q arg =
     bindE (q_Query (s_db s) q [arg]) (\<lambda>(rows, err) w. (scan_rows scan [] rows err, w))"

definition Store_GetPaymentsByCustomer :: "'d env \<Rightarrow> ('db, 'x) store \<Rightarrow> string \<Rightarrow>
    ('db, 'x, 'd payment list) go" where
  "Store_GetPaymentsByCustomer E s customerID =
     query_rows s (scanPaymentRow E) (select_payment C_customer_id True False False)
       (VText customerID)"

section \<open>Refunds\<close>

definition refund_is_nil :: go_error where "refund_is_nil = ErrText ''refund is nil''"

definition insert_refund :: statement where
  "insert_refund = Insert Refunds
     [(C_id, Plain), (C_payment_id, Plain), (C_amount, AsNumeric), (C_currency, Plain),
      (C_status, Plain), (C_reason, Plain), (C_gateway_refund_id, Plain),
      (C_failure_reason, Plain), (C_failure_code, Plain), (C_initiated_by, Plain),
      (C_created_at, Plain), (C_processed_at, Plain), (C_completed_at, Plain),
      (C_correlation_id, Plain)]"

definition insert_refund_args :: "'d env \<Rightarrow> 'd refund \<Rightarrow> sql_value list" where
  "insert_refund_args E r =
     [VUuid (r_ID r), VUuid (r_PaymentID r), VText (dec_String (E_dec E) (r_Amount r)),
      VText (r_Currency r), VText (r_Status r), nullStringArg (r_Reason r),
      nullStringArg (r_GatewayRefundID r), nullStringArg (r_FailureReason r),
      nullStringArg (r_FailureCode r), nullStringArg (r_InitiatedBy r), VTime (r_CreatedAt r),
      nullTimeArg (r_ProcessedAt r), nullTimeArg (r_CompletedAt r),
      nullStringArg (r_CorrelationID r)]"

definition Store_CreateRefund :: "'d env \<Rightarrow> ('db, 'x) store \<Rightarrow> 'd refund option \<Rightarrow>
    ('db, 'x, 'd refund) go" where
  "Store_CreateRefund E s arg =
     (case arg of
        None \<Rightarrow> failE refund_is_nil
      | Some r0 \<Rightarrow>
          (let rest = (\<lambda>r. with_now E (\<lambda>now.
             let r = (if r_CreatedAt r = 0 then r\<lparr>r_CreatedAt := now\<rparr> else r)
             in bindE (q_Exec (s_db s) insert_refund (insert_refund_args E r)) (\<lambda>_. returnE r)))
           in if r_ID r0 = 0 then with_uuid E (\<lambda>u. rest (r0\<lparr>r_ID := u\<rparr>)) else rest r0))"

definition update_refund_stmt :: statement where
  "update_refund_stmt = Update Refunds
     [(C_payment_id, Plain), (C_amount, AsNumeric), (C_currency, Plain), (C_status, Plain),
      (C_reason, Plain), (C_gateway_refund_id, Plain), (C_failure_reason, Plain),
      (C_failure_code, Plain), (C_initiated_by, Plain), (C_processed_at, Plain),
      (C_completed_at, Plain), (C_correlation_id, Plain)] C_id"

definition update_refund_args :: "'d env \<Rightarrow> 'd refund \<Rightarrow> sql_value list" where
  "update_refund_args E r =
     [VUuid (r_ID r), VUuid (r_PaymentID r), VText (dec_String (E_dec E) (r_Amount r)),
      VText (r_Currency r), VText (r_Status r), nullStringArg (r_Reason r),
      nullStringArg (r_GatewayRefundID r), nullStringArg (r_FailureReason r),
      nullStringArg (r_FailureCode r), nullStringArg (r_InitiatedBy r),
      nullTimeArg (r_ProcessedAt r), nullTimeArg (r_CompletedAt r),
      nullStringArg (r_CorrelationID r)]"

definition Store_UpdateRefund :: "'d env \<Rightarrow> ('db, 'x) store \<Rightarrow> 'd refund option \<Rightarrow>
    ('db, 'x, 'd refund) go" where
  "Store_UpdateRefund E s arg =
     (case arg of
        None \<Rightarrow> failE refund_is_nil
      | Some r \<Rightarrow>
          bindE (q_Exec (s_db s) update_refund_stmt (update_refund_args E r)) (\<lambda>affected.
            if affected = 0 then failE ErrNoRows else returnE r))"

definition refund_columns :: "(column \<times> cast) list" where
  "refund_columns =
     [(C_id, Plain), (C_payment_id, Plain), (C_amount, AsText), (C_currency, Plain),
      (C_status, Plain), (C_reason, Plain), (C_gateway_refund_id, Plain),
      (C_failure_reason, Plain), (C_failure_code, Plain), (C_created_at, Plain),
      (C_processed_at, Plain), (C_completed_at, Plain), (C_correlation_id, Plain),
      (C_initiated_by, Plain)]"

definition select_refund :: "column \<Rightarrow> bool \<Rightarrow> bool \<Rightarrow> select" where
  "select_refund c newest one =
     \<lparr>sel_columns = refund_columns, sel_table = Refunds, sel_where = c,
      sel_newest_first = newest, sel_limit_one = one, sel_for_update = False\<rparr>"

definition Store_GetRefund :: "'d env \<Rightarrow> ('db, 'x) store \<Rightarrow> uuid \<Rightarrow> ('db, 'x, 'd refund) go" where
  "Store_GetRefund E s i = query_row s (scanRefundRow E) (select_refund C_id False False) (VUuid i)"

definition Store_GetRefundByCorrelationID :: "'d env \<Rightarrow> ('db, 'x) store \<Rightarrow> string \<Rightarrow>
    ('db, 'x, 'd refund) go" where
  "Store_GetRefundByCorrelationID E s correlationID =
     query_row s (scanRefundRow E) (select_refund C_correlation_id True True)
       (VText correlationID)"

definition Store_GetRefundsByPayment :: "'d env \<Rightarrow> ('db, 'x) store \<Rightarrow> uuid \<Rightarrow>
    ('db, 'x, 'd refund list) go" where
  "Store_GetRefundsByPayment E s paymentID =
     query_rows s (scanRefundRow E) (select_refund C_payment_id True False) (VUuid paymentID)"

section \<open>The audit log\<close>

definition transaction_is_nil :: go_error where
  "transaction_is_nil = ErrText ''transaction is nil''"

definition insert_transaction :: statement where
  "insert_transaction = Insert Transactions
     [(C_id, Plain), (C_payment_id, Plain), (C_refund_id, Plain), (C_type, Plain),
      (C_amount, AsNumeric), (C_currency, Plain), (C_success, Plain),
      (C_gateway_transaction_id, Plain), (C_gateway_response, Plain),
      (C_gateway_error_code, Plain), (C_gateway_error_message, Plain), (C_created_at, Plain),
      (C_correlation_id, Plain), (C_ip_address, Plain), (C_user_agent, Plain)]"

definition insert_transaction_args :: "'d env \<Rightarrow> 'd transaction \<Rightarrow> sql_value list" where
  "insert_transaction_args E t =
     [VUuid (t_ID t), VUuid (t_PaymentID t), nullUUIDArg (t_RefundID t), VText (t_Type t),
      VText (dec_String (E_dec E) (t_Amount t)), VText (t_Currency t), VBool (t_Success t),
      nullStringArg (t_GatewayTransactionID t), nullStringArg (t_GatewayResponse t),
      nullStringArg (t_GatewayErrorCode t), nullStringArg (t_GatewayErrorMessage t),
      VTime (t_CreatedAt t), nullStringArg (t_CorrelationID t), nullStringArg (t_IPAddress t),
      nullStringArg (t_UserAgent t)]"

definition Store_CreateTransaction :: "'d env \<Rightarrow> ('db, 'x) store \<Rightarrow> 'd transaction option \<Rightarrow>
    ('db, 'x, 'd transaction) go" where
  "Store_CreateTransaction E s arg =
     (case arg of
        None \<Rightarrow> failE transaction_is_nil
      | Some t0 \<Rightarrow>
          (let save = (\<lambda>t. bindE (q_Exec (s_db s) insert_transaction (insert_transaction_args E t))
                         (\<lambda>_. returnE t));
               dated = (\<lambda>t. if t_CreatedAt t = 0 then with_now E (\<lambda>now. save (t\<lparr>t_CreatedAt := now\<rparr>))
                            else save t)
           in if t_ID t0 = 0 then with_uuid E (\<lambda>u. dated (t0\<lparr>t_ID := u\<rparr>)) else dated t0))"

section \<open>The store as an interface\<close>

definition sql_store :: "'d env \<Rightarrow> ('db, 'x) store \<Rightarrow> ('d, 'db, 'x) payment_store" where
  "sql_store E s =
     \<lparr>st_CreatePayment = (\<lambda>p. Store_CreatePayment E s (Some p)),
      st_UpdatePayment = (\<lambda>p. Store_UpdatePayment E s (Some p)),
      st_GetPayment = Store_GetPayment E s,
      st_GetPaymentForUpdate = Store_GetPaymentForUpdate E s,
      st_GetPaymentByOrderID = Store_GetPaymentByOrderID E s,
      st_GetPaymentByIdempotencyKey = Store_GetPaymentByIdempotencyKey E s,
      st_GetPaymentsByCustomer = Store_GetPaymentsByCustomer E s,
      st_CreateRefund = (\<lambda>r. Store_CreateRefund E s (Some r)),
      st_UpdateRefund = (\<lambda>r. Store_UpdateRefund E s (Some r)),
      st_GetRefund = Store_GetRefund E s,
      st_GetRefundByCorrelationID = Store_GetRefundByCorrelationID E s,
      st_GetRefundsByPayment = Store_GetRefundsByPayment E s,
      st_CreateTransaction = (\<lambda>t. Store_CreateTransaction E s (Some t))\<rparr>"

text \<open>\<open>Store.RunInTx\<close> begins a transaction on the pool and runs over a store on it; without a pool
  nothing begins.\<close>

definition sql_runner :: "'d env \<Rightarrow> ('db, 'x) pool \<Rightarrow> ('d, 'db, 'x) tx_runner" where
  "sql_runner E pl =
     \<lparr>tr_begin = pool_Begin pl, tr_commit = tx_Commit pl, tr_rollback = tx_Rollback pl,
      tr_store = sql_store E \<lparr>s_pool = Some pl, s_db = pool_tx pl\<rparr>\<rparr>"

definition Store_RunInTx :: "'d env \<Rightarrow> ('db, 'x) store option \<Rightarrow>
    (('d, 'db, 'x) payment_store \<Rightarrow> ('db, 'x, 'a) go) \<Rightarrow> ('db, 'x, 'a) go" where
  "Store_RunInTx E s fn =
     (case pool_of s of
        None \<Rightarrow> failE not_configured
      | Some pl \<Rightarrow> RunInTx (sql_runner E pl) fn)"

end
