(* ===== verification/Sql_Contract.thy ===== *)
theory Sql_Contract
  imports Sql_Store Ledger_Invariants
begin

text \<open>
  What the store relies on in the database, and that this is enough.  The locale \<open>sql_database\<close>
  states the documented behaviour of the statements (a table is a list of rows in insertion
  order); \<open>sql_library\<close> that of the decimal and UUID libraries.  The store of \<open>Sql_Store\<close> over
  any such database keeps \<open>payment_store_contract\<close>, and with transactions
  \<open>transactional_store\<close>: every column is written where it is read, and a row that is read back is
  the row that was written, up to the resolution of its columns.
\<close>

section \<open>Typed rows\<close>

fun has_type :: "column_type \<Rightarrow> sql_value \<Rightarrow> bool" where
  "has_type _ VNull = True"
| "has_type (Varchar n) (VText s) = (length s \<le> n)"
| "has_type TextType (VText s) = True"
| "has_type UuidType (VUuid u) = True"
| "has_type Numeric19_4 (VNumeric n) = (\<bar>n\<bar> < 10 ^ 19)"
| "has_type Timestamp (VTime t) = (micros t = t)"
| "has_type Boolean (VBool b) = True"
| "has_type _ _ = False"

definition row_ok :: "table \<Rightarrow> row \<Rightarrow> bool" where
  "row_ok t r \<longleftrightarrow> (\<forall>c. case schema t c of
     None \<Rightarrow> r c = VNull
   | Some (ty, notnull) \<Rightarrow> has_type ty (r c) \<and> (notnull \<longrightarrow> r c \<noteq> VNull))"

lemma row_okD:
  "row_ok t r \<Longrightarrow> schema t c = Some (ty, notnull) \<Longrightarrow> has_type ty (r c) \<and> (notnull \<longrightarrow> r c \<noteq> VNull)"
  by (auto simp: row_ok_def split: option.splits prod.splits)

fun as_uuid :: "sql_value \<Rightarrow> uuid option" where
  "as_uuid (VUuid u) = Some u" | "as_uuid _ = None"

fun as_text :: "sql_value \<Rightarrow> string option" where
  "as_text (VText s) = Some s" | "as_text _ = None"

fun as_time :: "sql_value \<Rightarrow> time option" where
  "as_time (VTime t) = Some t" | "as_time _ = None"

fun as_numeric :: "sql_value \<Rightarrow> int" where
  "as_numeric (VNumeric n) = n" | "as_numeric _ = 0"

definition uuid_of :: "sql_value \<Rightarrow> uuid" where
  "uuid_of v = (case as_uuid v of Some u \<Rightarrow> u | None \<Rightarrow> 0)"

definition text_of :: "sql_value \<Rightarrow> string" where
  "text_of v = (case as_text v of Some s \<Rightarrow> s | None \<Rightarrow> [])"

definition time_of :: "sql_value \<Rightarrow> time" where
  "time_of v = (case as_time v of Some t \<Rightarrow> t | None \<Rightarrow> 0)"

lemma value_simps [simp]:
  "uuid_of (VUuid u) = u" "text_of (VText s) = s" "time_of (VTime t) = t"
  by (simp_all add: uuid_of_def text_of_def time_of_def)

section \<open>The row a model row stands for\<close>

definition amount4 :: "'d decimal_ops \<Rightarrow> int \<Rightarrow> 'd" where
  "amount4 D n = (case dec_NewFromString D (fixed_text n 4) of Inr a \<Rightarrow> a | Inl _ \<Rightarrow> dec_Zero D)"

definition payment_of_row :: "'d decimal_ops \<Rightarrow> row \<Rightarrow> 'd payment" where
  "payment_of_row D r =
     \<lparr>p_ID = uuid_of (r C_id), p_OrderID = text_of (r C_order_id),
      p_CustomerID = text_of (r C_customer_id), p_Amount = amount4 D (as_numeric (r C_amount)),
      p_Currency = text_of (r C_currency), p_Status = text_of (r C_status),
      p_Gateway = text_of (r C_gateway),
      p_GatewayTransactionID = as_text (r C_gateway_transaction_id),
      p_GatewayPaymentIntentID = as_text (r C_gateway_payment_intent_id),
      p_PaymentMethodID = as_uuid (r C_payment_method_id),
      p_CardLast4 = as_text (r C_card_last4), p_CardBrand = as_text (r C_card_brand),
      p_Metadata = as_text (r C_metadata), p_FailureReason = as_text (r C_failure_reason),
      p_FailureCode = as_text (r C_failure_code), p_CreatedAt = time_of (r C_created_at),
      p_ProcessedAt = as_time (r C_processed_at), p_CompletedAt = as_time (r C_completed_at),
      p_UpdatedAt = as_time (r C_updated_at), p_CorrelationID = as_text (r C_correlation_id),
      p_IdempotencyKey = as_text (r C_idempotency_key)\<rparr>"

definition refund_of_row :: "'d decimal_ops \<Rightarrow> row \<Rightarrow> 'd refund" where
  "refund_of_row D r =
     \<lparr>r_ID = uuid_of (r C_id), r_PaymentID = uuid_of (r C_payment_id),
      r_Amount = amount4 D (as_numeric (r C_amount)), r_Currency = text_of (r C_currency),
      r_Status = text_of (r C_status), r_Reason = as_text (r C_reason),
      r_GatewayRefundID = as_text (r C_gateway_refund_id),
      r_FailureReason = as_text (r C_failure_reason), r_FailureCode = as_text (r C_failure_code),
      r_CreatedAt = time_of (r C_created_at), r_ProcessedAt = as_time (r C_processed_at),
      r_CompletedAt = as_time (r C_completed_at),
      r_CorrelationID = as_text (r C_correlation_id),
      r_InitiatedBy = as_text (r C_initiated_by)\<rparr>"

definition transaction_of_row :: "'d decimal_ops \<Rightarrow> row \<Rightarrow> 'd transaction" where
  "transaction_of_row D r =
     \<lparr>t_ID = uuid_of (r C_id), t_PaymentID = uuid_of (r C_payment_id),
      t_RefundID = as_uuid (r C_refund_id), t_Type = text_of (r C_type),
      t_Amount = amount4 D (as_numeric (r C_amount)), t_Currency = text_of (r C_currency),
      t_Success = (r C_success = VBool True),
      t_GatewayTransactionID = as_text (r C_gateway_transaction_id),
      t_GatewayResponse = as_text (r C_gateway_response),
      t_GatewayErrorCode = as_text (r C_gateway_error_code),
      t_GatewayErrorMessage = as_text (r C_gateway_error_message),
      t_CreatedAt = time_of (r C_created_at), t_CorrelationID = as_text (r C_correlation_id),
      t_IPAddress = as_text (r C_ip_address), t_UserAgent = as_text (r C_user_agent)\<rparr>"

lemma row_ids [simp]:
  "p_ID (payment_of_row D r) = uuid_of (r C_id)" "r_ID (refund_of_row D r) = uuid_of (r C_id)"
  "r_PaymentID (refund_of_row D r) = uuid_of (r C_payment_id)"
  "p_CreatedAt (payment_of_row D r) = time_of (r C_created_at)"
  "r_CreatedAt (refund_of_row D r) = time_of (r C_created_at)"
  "p_IdempotencyKey (payment_of_row D r) = as_text (r C_idempotency_key)"
  "r_CorrelationID (refund_of_row D r) = as_text (r C_correlation_id)"
  "p_OrderID (payment_of_row D r) = text_of (r C_order_id)"
  "p_CustomerID (payment_of_row D r) = text_of (r C_customer_id)"
  by (simp_all add: payment_of_row_def refund_of_row_def)

section \<open>Writing and reading a column\<close>

lemma typed_cases:
  "has_type UuidType v \<Longrightarrow> v \<noteq> VNull \<Longrightarrow> v = VUuid (uuid_of v)"
  "has_type (Varchar n) v \<Longrightarrow> v \<noteq> VNull \<Longrightarrow> v = VText (text_of v)"
  "has_type Timestamp v \<Longrightarrow> v \<noteq> VNull \<Longrightarrow> v = VTime (time_of v)"
  "has_type Numeric19_4 v \<Longrightarrow> v \<noteq> VNull \<Longrightarrow> v = VNumeric (as_numeric v)"
  by (cases v; simp)+

text \<open>Scanning a column of a typed row.\<close>

lemma row_scan:
  assumes "row_ok t r"
  shows "schema t c = Some (UuidType, True) \<Longrightarrow> scan_uuid (r c) = Inr (uuid_of (r c))"
    and "schema t c = Some (Varchar n, True) \<Longrightarrow> scan_string (r c) = Inr (text_of (r c))"
    and "schema t c = Some (Varchar n, False) \<Longrightarrow> scan_null_string (r c) = Inr (as_text (r c))"
    and "schema t c = Some (TextType, False) \<Longrightarrow> scan_null_string (r c) = Inr (as_text (r c))"
    and "schema t c = Some (Timestamp, True) \<Longrightarrow> scan_time (r c) = Inr (time_of (r c))"
    and "schema t c = Some (Timestamp, False) \<Longrightarrow> scan_null_time (r c) = Inr (as_time (r c))"
    and "schema t c = Some (Numeric19_4, True) \<Longrightarrow>
      scan_string (selected AsText (r c)) = Inr (fixed_text (as_numeric (r c)) 4)"
    and "schema t c = Some (UuidType, False) \<Longrightarrow>
      scan_null_string (selected AsText (r c)) = Inr (map_option uuid_text (as_uuid (r c)))"
  by (drule row_okD [OF assms]; cases "r c"; simp)+

lemma row_micros:
  assumes "row_ok t r"
  shows "schema t c = Some (Timestamp, True) \<Longrightarrow> micros (time_of (r c)) = time_of (r c)"
    and "schema t c = Some (Timestamp, False) \<Longrightarrow>
      map_option micros (as_time (r c)) = as_time (r c)"
  by (drule row_okD [OF assms]; cases "r c"; simp)+

lemma stored_nullStringArg [simp]: "stored Plain (nullStringArg s) = nullStringArg s"
  by (simp add: nullStringArg_def split: option.split)

lemma nullStringArg_Some [simp]: "nullStringArg (Some k) = VText k"
  by (simp add: nullStringArg_def)

lemma as_text_Some: "as_text v = Some k \<longleftrightarrow> v = VText k"
  by (cases v) simp_all

lemma stored_args [simp]:
  "as_text (nullStringArg s) = s"
  "as_uuid (stored Plain (nullUUIDArg u)) = u"
  "as_time (stored Plain (nullTimeArg t)) = map_option micros t"
  by (simp_all add: nullStringArg_def nullUUIDArg_def nullTimeArg_def split: option.split)

lemma micros_idem [simp]: "micros (micros t) = micros t"
  by (simp add: micros_def)

text \<open>The libraries.\<close>

locale sql_library = decimal_laws D val
  for D :: "'d decimal_ops" and val +
  fixes E :: "'d env"
  assumes E_dec: "E_dec E = D"
    and uuid_parse: "E_uuid_parse E (uuid_text u) = Some u"
begin

lemma parse_amount4: "dec_NewFromString D (fixed_text n 4) = Inr (amount4 D n)"
  using NewFromString [OF decimal_text_fixed [of n 4]] by (auto simp: amount4_def)

lemma val_amount4: "val (amount4 D n) = of_int n / 10 ^ 4"
  using NewFromString [OF decimal_text_fixed [of n 4]] by (auto simp: amount4_def)

lemma stored_amount: "stored AsNumeric (VText (dec_String D a)) = VNumeric (cents4 (val a))"
  by (simp add: String)

lemma cents4_amount4: "cents4 (val (amount4 D n)) = n"
  by (simp add: val_amount4 cents4_def)

lemma parse_method_typed:
  "parse_method_id E (map_option uuid_text u) = Inr u"
  by (cases u) (simp_all add: parse_method_id_def uuid_parse)

lemma scan_payment:
  assumes "row_ok Payments r"
  shows "scanPaymentRow E (select_row payment_columns r) = Inr (payment_of_row D r)"
  by (simp add: payment_columns_def select_row_def row_scan [OF assms] parse_amount_def E_dec
      parse_amount4 parse_method_typed payment_of_row_def)

lemma scan_refund:
  assumes "row_ok Refunds r"
  shows "scanRefundRow E (select_row refund_columns r) = Inr (refund_of_row D r)"
  by (simp add: refund_columns_def select_row_def row_scan [OF assms] parse_amount_def E_dec
      parse_amount4 refund_of_row_def)

abbreviation ka :: "'d \<Rightarrow> 'd" where
  "ka a \<equiv> amount4 D (cents4 (val a))"

text \<open>The row an INSERT or UPDATE leaves is the row it was given, as far as its columns keep it.\<close>

lemma inserted_payment:
  assumes "insert_payment = Insert t cols" "p_UpdatedAt p \<noteq> None"
  shows "t = Payments"
    and "payment_of_row D (assigned cols (insert_payment_args E p) (\<lambda>_. VNull)) =
      keep_payment ka micros p"
  using assms
  by ((cases p; auto simp: insert_payment_def insert_payment_args_def payment_of_row_def keep_payment_def
      E_dec String)+)

lemma inserted_refund:
  assumes "insert_refund = Insert t cols"
  shows "t = Refunds"
    and "refund_of_row D (assigned cols (insert_refund_args E r) (\<lambda>_. VNull)) =
      keep_refund ka micros r"
  using assms
  by ((cases r; auto simp: insert_refund_def insert_refund_args_def refund_of_row_def keep_refund_def
      E_dec String)+)

lemma inserted_transaction:
  assumes "insert_transaction = Insert t cols"
  shows "t = Transactions"
    and "transaction_of_row D (assigned cols (insert_transaction_args E x) (\<lambda>_. VNull)) =
      keep_transaction ka micros x"
  using assms
  by ((cases x; auto simp: insert_transaction_def insert_transaction_args_def transaction_of_row_def
      keep_transaction_def E_dec String)+)

lemma updated_payment:
  assumes "update_payment_stmt = Update t cols c" "p_UpdatedAt p \<noteq> None"
    and "r C_id = VUuid (p_ID p)"
  shows "t = Payments" "c = C_id" "hd (update_payment_args E p) = VUuid (p_ID p)"
    and "payment_of_row D (assigned cols (tl (update_payment_args E p)) r) =
      (keep_payment ka micros p)\<lparr>p_CreatedAt := time_of (r C_created_at)\<rparr>"
  using assms
  by ((cases p; auto simp: update_payment_stmt_def update_payment_args_def payment_of_row_def
      keep_payment_def E_dec String)+)

lemma updated_refund:
  assumes "update_refund_stmt = Update t cols c" "r C_id = VUuid (r_ID x)"
  shows "t = Refunds" "c = C_id" "hd (update_refund_args E x) = VUuid (r_ID x)"
    and "refund_of_row D (assigned cols (tl (update_refund_args E x)) r) =
      (keep_refund ka micros x)\<lparr>r_CreatedAt := time_of (r C_created_at)\<rparr>"
  using assms
  by ((cases x; auto simp: update_refund_stmt_def update_refund_args_def refund_of_row_def
      keep_refund_def E_dec String)+)

text \<open>A stored row is kept as it is.\<close>

lemma kept_payment:
  assumes "row_ok Payments r"
  shows "keep_payment ka micros (payment_of_row D r) = payment_of_row D r"
  by (simp add: keep_payment_def payment_of_row_def cents4_amount4 row_micros [OF assms])

lemma kept_refund:
  assumes "row_ok Refunds r"
  shows "keep_refund ka micros (refund_of_row D r) = refund_of_row D r"
  by (simp add: keep_refund_def refund_of_row_def cents4_amount4 row_micros [OF assms])

end

section \<open>The database\<close>

text \<open>The constraints of the schema an inserted row meets: the primary key, the partial unique
  index on the idempotency key, and the foreign keys.\<close>

definition insert_allowed :: "(table \<Rightarrow> row list) \<Rightarrow> table \<Rightarrow> row \<Rightarrow> bool" where
  "insert_allowed T t r \<longleftrightarrow>
     r C_id \<notin> (\<lambda>q. q C_id) ` set (T t) \<and>
     (t = Payments \<longrightarrow> r C_idempotency_key = VNull \<or>
        r C_idempotency_key \<notin> (\<lambda>q. q C_idempotency_key) ` set (T Payments)) \<and>
     (t \<noteq> Payments \<longrightarrow> r C_payment_id \<in> (\<lambda>q. q C_id) ` set (T Payments)) \<and>
     (t = Transactions \<longrightarrow> r C_refund_id = VNull \<or>
        r C_refund_id \<in> (\<lambda>q. q C_id) ` set (T Refunds))"

lemma insert_allowedD:
  "insert_allowed T t r \<Longrightarrow> q \<in> set (T t) \<Longrightarrow> q C_id \<noteq> r C_id"
  "insert_allowed T Payments r \<Longrightarrow> r C_idempotency_key = v \<Longrightarrow> v \<noteq> VNull \<Longrightarrow>
     q \<in> set (T Payments) \<Longrightarrow> q C_idempotency_key \<noteq> v"
  "insert_allowed T t r \<Longrightarrow> t \<noteq> Payments \<Longrightarrow> \<exists>q \<in> set (T Payments). q C_id = r C_payment_id"
  unfolding insert_allowed_def by (metis image_eqI) (metis image_eqI, metis imageE)

definition same_tables :: "('db \<Rightarrow> table \<Rightarrow> row list) \<Rightarrow> ('db \<Rightarrow> bool) \<Rightarrow> ('db, 'x) world_rel" where
  "same_tables tables good w w' \<longleftrightarrow>
     (good (w_db w) \<longrightarrow> good (w_db w') \<and> tables (w_db w') = tables (w_db w))"

locale sql_tables =
  fixes q :: "('db, 'x) querier"
    and tables :: "'db \<Rightarrow> table \<Rightarrow> row list"
    and inv :: "'db \<Rightarrow> bool"
  assumes rows_typed: "inv db \<Longrightarrow> r \<in> set (tables db t) \<Longrightarrow> row_ok t r"
    and ids_distinct: "inv db \<Longrightarrow> distinct (map (\<lambda>r. r C_id) (tables db t))"
    and query_same: "steps (same_tables tables inv) (q_Query q sel args)"
      "steps (same_tables tables inv) (q_QueryRow q sel args)"
    and sql_quiet: "steps quiet (q_Exec q st args)" "steps quiet (q_Query q sel args)"
      "steps quiet (q_QueryRow q sel args)"

locale sql_executes = sql_tables q tables inv
  for q :: "('db, 'x) querier" and tables and inv +
  assumes exec_inv: "inv (w_db w) \<Longrightarrow> q_Exec q st args w = (res, w') \<Longrightarrow> inv (w_db w')"
    and exec_error: "inv (w_db w) \<Longrightarrow> q_Exec q st args w = (Inl e, w') \<Longrightarrow>
      tables (w_db w') = tables (w_db w)"
    and exec_insert: "inv (w_db w) \<Longrightarrow> q_Exec q (Insert t cols) args w = (Inr n, w') \<Longrightarrow>
      insert_allowed (tables (w_db w)) t (assigned cols args (\<lambda>_. VNull)) \<and>
      tables (w_db w') = (tables (w_db w))(t := tables (w_db w) t @
        [assigned cols args (\<lambda>_. VNull)])"
    and exec_update: "inv (w_db w) \<Longrightarrow> q_Exec q (Update t cols c) (key # args) w = (Inr n, w') \<Longrightarrow>
      n = length (filter (\<lambda>r. r c = key) (tables (w_db w) t)) \<and>
      tables (w_db w') = (tables (w_db w))(t :=
        map (\<lambda>r. if r c = key then assigned cols args r else r) (tables (w_db w) t))"

locale sql_queries = sql_tables q tables inv
  for q :: "('db, 'x) querier" and tables and inv +
  assumes query_rows: "inv (w_db w) \<Longrightarrow> q_Query q sel [arg] w = (Inr (vals, None), w') \<Longrightarrow>
      arg \<noteq> VNull \<Longrightarrow> \<not> sel_limit_one sel \<Longrightarrow>
      \<exists>rs. vals = map (select_row (sel_columns sel)) rs \<and>
        mset rs = mset (filter (\<lambda>r. r (sel_where sel) = arg) (tables (w_db w) (sel_table sel))) \<and>
        (sel_newest_first sel \<longrightarrow>
           sorted_wrt (\<lambda>r r'. time_of (r' C_created_at) \<le> time_of (r C_created_at)) rs)"
    and query_row: "inv (w_db w) \<Longrightarrow> q_QueryRow q sel [arg] w = (Inr v, w') \<Longrightarrow> arg \<noteq> VNull \<Longrightarrow>
      \<exists>r \<in> set (tables (w_db w) (sel_table sel)). r (sel_where sel) = arg \<and>
        v = select_row (sel_columns sel) r \<and>
        (sel_newest_first sel \<longrightarrow> (\<forall>r' \<in> set (tables (w_db w) (sel_table sel)).
           r' (sel_where sel) = arg \<longrightarrow> time_of (r' C_created_at) \<le> time_of (r C_created_at)))"
    and query_row_none: "inv (w_db w) \<Longrightarrow> q_QueryRow q sel [arg] w = (Inl e, w') \<Longrightarrow>
      arg \<noteq> VNull \<Longrightarrow> errors_Is e ErrNoRows \<Longrightarrow>
      r \<in> set (tables (w_db w) (sel_table sel)) \<Longrightarrow> r (sel_where sel) \<noteq> arg"

locale sql_database = sql_executes q tables inv + sql_queries q tables inv
  for q :: "('db, 'x) querier" and tables and inv
begin

lemma id_value: "inv db \<Longrightarrow> r \<in> set (tables db t) \<Longrightarrow> r C_id = VUuid (uuid_of (r C_id))"
  using row_okD [OF rows_typed, of db r t C_id UuidType True]
  by (cases t; cases "r C_id") auto

lemma uuids_distinct: "inv db \<Longrightarrow> distinct (map (\<lambda>r. uuid_of (r C_id)) (tables db t))"
  using ids_distinct [of db t] id_value [of db _ t]
  by (auto simp: distinct_map inj_on_def) metis

lemma id_matches: "inv db \<Longrightarrow> r \<in> set (tables db t) \<Longrightarrow> r C_id = VUuid i \<longleftrightarrow> uuid_of (r C_id) = i"
  using id_value [of db r t] by auto

end

section \<open>The store over the database\<close>

text \<open>What each writing operation executes.\<close>

lemma exec_result:
  assumes "bindE m (\<lambda>_. returnE p) w = (res, w')"
  shows "(\<exists>n. res = Inr p \<and> m w = (Inr n, w')) \<or> (\<exists>e. res = Inl e \<and> m w = (Inl e, w'))"
  using assms by (auto simp: bindE_def returnE_def split: prod.splits sum.splits)

lemma update_result:
  assumes "bindE m (\<lambda>affected. if affected = 0 then failE ErrNoRows else returnE p) w = (res, w')"
  shows "(\<exists>n. n \<noteq> 0 \<and> res = Inr p \<and> m w = (Inr n, w')) \<or>
    (\<exists>e. res = Inl e \<and> (m w = (Inl e, w') \<or> m w = (Inr (0 :: nat), w')))"
  using assms by (auto simp: bindE_def returnE_def failE_def split: prod.splits sum.splits if_splits)

definition created_as :: "'d payment \<Rightarrow> 'd payment \<Rightarrow> bool" where
  "created_as p p' \<longleftrightarrow> (\<exists>i c u. p' = p\<lparr>p_ID := i, p_CreatedAt := c, p_UpdatedAt := Some u\<rparr> \<and>
     (p_ID p \<noteq> 0 \<longrightarrow> i = p_ID p) \<and> (p_CreatedAt p \<noteq> 0 \<longrightarrow> c = p_CreatedAt p))"

lemma created_asI:
  "(p_ID p \<noteq> 0 \<Longrightarrow> i = p_ID p) \<Longrightarrow> (p_CreatedAt p \<noteq> 0 \<Longrightarrow> c = p_CreatedAt p) \<Longrightarrow>
     created_as p (p\<lparr>p_ID := i, p_CreatedAt := c, p_UpdatedAt := Some u\<rparr>)"
  unfolding created_as_def by blast

lemma create_payment_trace:
  assumes "Store_CreatePayment E s (Some p) w = (res, w')"
  obtains p' w1 where "created_as p p'" "w_db w1 = w_db w"
    "(\<exists>n. res = Inr p' \<and> q_Exec (s_db s) insert_payment (insert_payment_args E p') w1 = (Inr n, w')) \<or>
     (\<exists>e. res = Inl e \<and> q_Exec (s_db s) insert_payment (insert_payment_args E p') w1 = (Inl e, w'))"
proof -
  define wu where "wu = (if p_ID p = 0 then w\<lparr>w_ids := Suc (w_ids w)\<rparr> else w)"
  define i where "i = (if p_ID p = 0 then E_uuid E (w_ids w) else p_ID p)"
  define u where "u = E_now E (w_clk wu)"
  define c where "c = (if p_CreatedAt p = 0 then u else p_CreatedAt p)"
  define p' where "p' = p\<lparr>p_ID := i, p_CreatedAt := c, p_UpdatedAt := Some u\<rparr>"
  define w1 where "w1 = wu\<lparr>w_clk := Suc (w_clk wu)\<rparr>"
  have "bindE (q_Exec (s_db s) insert_payment (insert_payment_args E p')) (\<lambda>_. returnE p') w1 = (res, w')"
    using assms
    by (cases p; cases "p_ID p = 0"; cases "p_CreatedAt p = 0")
      (simp_all add: Store_CreatePayment_def Let_def draw_defs p'_def w1_def wu_def i_def c_def u_def)
  from exec_result [OF this] that [of p' w1] show thesis
    by (simp add: w1_def wu_def p'_def created_asI i_def c_def)
qed

definition refund_created_as :: "'d refund \<Rightarrow> 'd refund \<Rightarrow> bool" where
  "refund_created_as r r' \<longleftrightarrow> (\<exists>i c. r' = r\<lparr>r_ID := i, r_CreatedAt := c\<rparr> \<and>
     (r_ID r \<noteq> 0 \<longrightarrow> i = r_ID r) \<and> (r_CreatedAt r \<noteq> 0 \<longrightarrow> c = r_CreatedAt r))"

lemma refund_created_asI:
  "(r_ID r \<noteq> 0 \<Longrightarrow> i = r_ID r) \<Longrightarrow> (r_CreatedAt r \<noteq> 0 \<Longrightarrow> c = r_CreatedAt r) \<Longrightarrow>
     refund_created_as r (r\<lparr>r_ID := i, r_CreatedAt := c\<rparr>)"
  unfolding refund_created_as_def by blast

lemma create_refund_trace:
  assumes "Store_CreateRefund E s (Some r) w = (res, w')"
  obtains r' w1 where "refund_created_as r r'" "w_db w1 = w_db w"
    "(\<exists>n. res = Inr r' \<and> q_Exec (s_db s) insert_refund (insert_refund_args E r') w1 = (Inr n, w')) \<or>
     (\<exists>e. res = Inl e \<and> q_Exec (s_db s) insert_refund (insert_refund_args E r') w1 = (Inl e, w'))"
proof -
  define wu where "wu = (if r_ID r = 0 then w\<lparr>w_ids := Suc (w_ids w)\<rparr> else w)"
  define i where "i = (if r_ID r = 0 then E_uuid E (w_ids w) else r_ID r)"
  define c where "c = (if r_CreatedAt r = 0 then E_now E (w_clk wu) else r_CreatedAt r)"
  define r' where "r' = r\<lparr>r_ID := i, r_CreatedAt := c\<rparr>"
  define w1 where "w1 = wu\<lparr>w_clk := Suc (w_clk wu)\<rparr>"
  have "bindE (q_Exec (s_db s) insert_refund (insert_refund_args E r')) (\<lambda>_. returnE r') w1 = (res, w')"
    using assms
    by (cases r; cases "r_ID r = 0"; cases "r_CreatedAt r = 0")
      (simp_all add: Store_CreateRefund_def Let_def draw_defs r'_def w1_def wu_def i_def c_def)
  from exec_result [OF this] that [of r' w1] show thesis
    by (simp add: w1_def wu_def r'_def refund_created_asI i_def c_def)
qed

lemma create_transaction_trace:
  assumes "Store_CreateTransaction E s (Some t) w = (res, w')"
  obtains i c w1 where "w_db w1 = w_db w"
    "(\<exists>n. res = Inr (t\<lparr>t_ID := i, t_CreatedAt := c\<rparr>) \<and>
       q_Exec (s_db s) insert_transaction
         (insert_transaction_args E (t\<lparr>t_ID := i, t_CreatedAt := c\<rparr>)) w1 = (Inr n, w')) \<or>
     (\<exists>e. res = Inl e \<and> q_Exec (s_db s) insert_transaction
         (insert_transaction_args E (t\<lparr>t_ID := i, t_CreatedAt := c\<rparr>)) w1 = (Inl e, w'))"
proof -
  define wu where "wu = (if t_ID t = 0 then w\<lparr>w_ids := Suc (w_ids w)\<rparr> else w)"
  define i where "i = (if t_ID t = 0 then E_uuid E (w_ids w) else t_ID t)"
  define c where "c = (if t_CreatedAt t = 0 then E_now E (w_clk wu) else t_CreatedAt t)"
  define w1 where "w1 = (if t_CreatedAt t = 0 then wu\<lparr>w_clk := Suc (w_clk wu)\<rparr> else wu)"
  let ?t = "t\<lparr>t_ID := i, t_CreatedAt := c\<rparr>"
  have "bindE (q_Exec (s_db s) insert_transaction (insert_transaction_args E ?t)) (\<lambda>_. returnE ?t)
      w1 = (res, w')"
    using assms
    by (cases t; cases "t_ID t = 0"; cases "t_CreatedAt t = 0")
      (simp_all add: Store_CreateTransaction_def Let_def draw_defs w1_def wu_def i_def c_def)
  note run = exec_result [OF this]
  show thesis by (rule that [OF _ run]) (simp add: w1_def wu_def)
qed

lemma update_payment_trace:
  assumes "Store_UpdatePayment E s (Some p) w = (res, w')"
  obtains p' w1 where "\<exists>u. p' = p\<lparr>p_UpdatedAt := Some u\<rparr>" "w_db w1 = w_db w"
    "(\<exists>n. n \<noteq> 0 \<and> res = Inr p' \<and>
       q_Exec (s_db s) update_payment_stmt (update_payment_args E p') w1 = (Inr n, w')) \<or>
     (\<exists>e. res = Inl e \<and>
       (q_Exec (s_db s) update_payment_stmt (update_payment_args E p') w1 = (Inl e, w') \<or>
        q_Exec (s_db s) update_payment_stmt (update_payment_args E p') w1 = (Inr 0, w')))"
proof -
  let ?p = "p\<lparr>p_UpdatedAt := Some (E_now E (w_clk w))\<rparr>"
  from assms have "bindE (q_Exec (s_db s) update_payment_stmt (update_payment_args E ?p))
      (\<lambda>affected. if affected = 0 then failE ErrNoRows else returnE ?p)
      (w\<lparr>w_clk := Suc (w_clk w)\<rparr>) = (res, w')"
    by (simp add: Store_UpdatePayment_def Let_def with_now_def)
  note run = update_result [OF this]
  show thesis by (rule that [OF _ _ run]) (blast, simp)
qed

lemma update_refund_trace:
  assumes "Store_UpdateRefund E s (Some r) w = (res, w')"
  shows "(\<exists>n. n \<noteq> 0 \<and> res = Inr r \<and>
       q_Exec (s_db s) update_refund_stmt (update_refund_args E r) w = (Inr n, w')) \<or>
     (\<exists>e. res = Inl e \<and>
       (q_Exec (s_db s) update_refund_stmt (update_refund_args E r) w = (Inl e, w') \<or>
        q_Exec (s_db s) update_refund_stmt (update_refund_args E r) w = (Inr 0, w')))"
proof -
  from assms have "bindE (q_Exec (s_db s) update_refund_stmt (update_refund_args E r))
      (\<lambda>affected. if affected = 0 then failE ErrNoRows else returnE r) w = (res, w')"
    by (simp add: Store_UpdateRefund_def)
  from update_result [OF this] show ?thesis .
qed

definition ledger_of :: "'d decimal_ops \<Rightarrow> (table \<Rightarrow> row list) \<Rightarrow> 'd ledger" where
  "ledger_of D T =
     \<lparr>l_payments = map (payment_of_row D) (T Payments),
      l_refunds = map (refund_of_row D) (T Refunds),
      l_txs = map (transaction_of_row D) (T Transactions)\<rparr>"

lemma steps_scan: "frame_rel R \<Longrightarrow> steps R (\<lambda>w. (f x, w))"
  by (simp add: steps_def frame_rel_def)

lemma steps_query_row:
  "frame_rel R \<Longrightarrow> steps R (q_QueryRow (s_db s) sel [v]) \<Longrightarrow> steps R (query_row s scan sel v)"
  unfolding query_row_def by (rule steps_bindE) (auto simp: steps_def frame_rel_def)

lemma steps_query_rows:
  "frame_rel R \<Longrightarrow> steps R (q_Query (s_db s) sel [v]) \<Longrightarrow> steps R (query_rows s scan sel v)"
  unfolding query_rows_def by (rule steps_bindE) (auto simp: steps_def frame_rel_def)

lemmas sql_store_defs = sql_store_def Store_GetPayment_def Store_GetPaymentForUpdate_def
  Store_GetPaymentByOrderID_def Store_GetPaymentByIdempotencyKey_def
  Store_GetPaymentsByCustomer_def Store_GetRefund_def Store_GetRefundByCorrelationID_def
  Store_GetRefundsByPayment_def

lemma sql_store_reads:
  assumes "frame_rel R" "\<And>sel v. steps R (q_QueryRow (s_db s) sel v)"
    "\<And>sel v. steps R (q_Query (s_db s) sel v)"
  shows "reads R (sql_store E s)"
  unfolding reads_def sql_store_defs payment_store.simps
  by (intro conjI allI steps_query_row steps_query_rows assms)

lemma sql_store_writes:
  assumes R: "frame_rel R" and q: "\<And>st v. steps R (q_Exec (s_db s) st v)"
  shows "writes R (sql_store E s)"
  unfolding writes_def sql_store_def payment_store.simps Store_CreatePayment_def
    Store_UpdatePayment_def Store_CreateRefund_def Store_UpdateRefund_def
    Store_CreateTransaction_def option.case Let_def
  by (intro conjI allI steps_intros R q)

lemma frame_same_tables [simp]: "frame_rel (same_tables tables good)"
  by (auto simp: frame_rel_def same_tables_def)

lemma frame_keeps [simp]: "frame_rel (\<lambda>w w'. good (w_db w) \<longrightarrow> good (w_db w'))"
  by (auto simp: frame_rel_def)

lemma scan_rows_all:
  "list_all (\<lambda>v. \<exists>x. scan v = Inr x) vs \<Longrightarrow>
     scan_rows scan got vs None = Inr (got @ map (\<lambda>v. projr (scan v)) vs)"
  by (induction vs arbitrary: got) auto

lemma scan_rows_Inr: "scan_rows scan got vs err = Inr xs \<Longrightarrow> err = None"
  by (induction vs arbitrary: got) (auto split: option.splits sum.splits)

locale sql_backed = sql_library D val E + sql_database "s_db s" tables inv
  for D :: "'d decimal_ops" and val and E :: "'d env" and s :: "('db, 'x) store"
    and tables :: "'db \<Rightarrow> table \<Rightarrow> row list" and inv
begin

definition view :: "'db \<Rightarrow> 'd ledger" where
  "view db = ledger_of D (tables db)"

lemma view_lists [simp]:
  "l_payments (view db) = map (payment_of_row D) (tables db Payments)"
  "l_refunds (view db) = map (refund_of_row D) (tables db Refunds)"
  "l_txs (view db) = map (transaction_of_row D) (tables db Transactions)"
  by (simp_all add: view_def ledger_of_def)

lemma view_cong: "tables db = tables db' \<Longrightarrow> view db = view db'"
  by (simp add: view_def)

text \<open>Single rows.\<close>

lemma query_row_found:
  assumes "inv (w_db w)" "query_row s scan sel v w = (Inr x, w')" "v \<noteq> VNull"
  obtains r where "r \<in> set (tables (w_db w) (sel_table sel))" "r (sel_where sel) = v"
    "scan (select_row (sel_columns sel) r) = Inr x"
    "sel_newest_first sel \<longrightarrow> (\<forall>r' \<in> set (tables (w_db w) (sel_table sel)).
       r' (sel_where sel) = v \<longrightarrow> time_of (r' C_created_at) \<le> time_of (r C_created_at))"
  using assms query_row [OF assms(1) _ assms(3)]
  by (fastforce simp: query_row_def bindE_Inr)

lemma query_row_missing:
  assumes "inv (w_db w)" "query_row s scan sel v w = (Inl e, w')" "v \<noteq> VNull"
    and "errors_Is e ErrNoRows" and "\<And>r. r \<in> set (tables (w_db w) (sel_table sel)) \<Longrightarrow>
      \<exists>x. scan (select_row (sel_columns sel) r) = Inr x"
    and r: "r \<in> set (tables (w_db w) (sel_table sel))"
  shows "r (sel_where sel) \<noteq> v"
proof -
  from assms(2) consider "q_QueryRow (s_db s) sel [v] w = (Inl e, w')"
    | u where "q_QueryRow (s_db s) sel [v] w = (Inr u, w')" "scan u = Inl e"
    by (auto simp: query_row_def bindE_Inl)
  then show ?thesis
  proof cases
    case 1
    from query_row_none [OF assms(1) 1 assms(3,4) r] show ?thesis .
  next
    case (2 u)
    with query_row [OF assms(1) 2(1) assms(3)] assms(5) show ?thesis by fastforce
  qed
qed

lemma query_rows_found:
  assumes i: "inv (w_db w)" and run: "query_rows s scan sel v w = (Inr xs, w')" and v: "v \<noteq> VNull"
    and sel: "\<not> sel_limit_one sel" "sel_newest_first sel"
    and scan: "\<And>r. r \<in> set (tables (w_db w) (sel_table sel)) \<Longrightarrow>
      scan (select_row (sel_columns sel) r) = Inr (f r)"
  obtains rs where "xs = map f rs"
    "mset rs = mset (filter (\<lambda>r. r (sel_where sel) = v) (tables (w_db w) (sel_table sel)))"
    "sorted_wrt (\<lambda>r r'. time_of (r' C_created_at) \<le> time_of (r C_created_at)) rs"
proof -
  from run obtain vals err where q: "q_Query (s_db s) sel [v] w = (Inr (vals, err), w')"
    and x: "scan_rows scan [] vals err = Inr xs"
    by (auto simp: query_rows_def bindE_Inr)
  from scan_rows_Inr [OF x] have e: "err = None" .
  from query_rows [OF i q [unfolded e] v sel(1)] sel(2) obtain rs where
    rs: "vals = map (select_row (sel_columns sel)) rs"
      "mset rs = mset (filter (\<lambda>r. r (sel_where sel) = v) (tables (w_db w) (sel_table sel)))"
      "sorted_wrt (\<lambda>r r'. time_of (r' C_created_at) \<le> time_of (r C_created_at)) rs" by auto
  from mset_eq_setD [OF rs(2)] have "set rs \<subseteq> set (tables (w_db w) (sel_table sel))" by auto
  with scan have all: "\<forall>r \<in> set rs. scan (select_row (sel_columns sel) r) = Inr (f r)" by blast
  then have "list_all (\<lambda>v. \<exists>x. scan v = Inr x) vals" by (auto simp: rs(1) list_all_iff)
  from scan_rows_all [OF this, of "[]"] x e all have "xs = map f rs"
    by (simp add: rs(1) cong: map_cong)
  with rs that show thesis by blast
qed

text \<open>The writes.\<close>

lemma insert_payment_view:
  assumes i: "inv (w_db w)" and run: "Store_CreatePayment E s (Some p) w = (Inr p', w')"
  shows "created_as p p' \<and> p_ID p' \<notin> p_ID ` set (l_payments (view (w_db w))) \<and>
    (\<forall>k. p_IdempotencyKey p = Some k \<longrightarrow>
       (\<forall>q \<in> set (l_payments (view (w_db w))). p_IdempotencyKey q \<noteq> Some k)) \<and>
    view (w_db w') = (view (w_db w))\<lparr>l_payments := l_payments (view (w_db w)) @
      [keep_payment ka micros p']\<rparr>"
proof -
  obtain w1 n where c: "created_as p p'" and w1: "w_db w1 = w_db w"
    and x: "q_Exec (s_db s) insert_payment (insert_payment_args E p') w1 = (Inr n, w')"
    using run by (rule create_payment_trace) auto
  obtain t cols where st: "insert_payment = Insert t cols" by (simp add: insert_payment_def)
  have u: "p_UpdatedAt p' \<noteq> None" using c by (auto simp: created_as_def)
  let ?r = "assigned cols (insert_payment_args E p') (\<lambda>_. VNull)"
  note row = inserted_payment [OF st u]
  from exec_insert [OF _ x [unfolded st]] i w1 have
    ok: "insert_allowed (tables (w_db w)) Payments ?r"
    and T: "tables (w_db w') = (tables (w_db w))(Payments := tables (w_db w) Payments @ [?r])"
    by (simp_all add: row(1))
  have r: "?r C_id = VUuid (p_ID p')" "?r C_idempotency_key = nullStringArg (p_IdempotencyKey p')"
    using st by (auto simp: insert_payment_def insert_payment_args_def)
  have "uuid_of (q C_id) \<noteq> p_ID p'" if "q \<in> set (tables (w_db w) Payments)" for q
    using insert_allowedD(1) [OF ok that] unfolding r(1) by (simp add: id_matches [OF i that])
  moreover have "as_text (q C_idempotency_key) \<noteq> Some k"
    if "p_IdempotencyKey p = Some k" "q \<in> set (tables (w_db w) Payments)" for k q
  proof -
    have "p_IdempotencyKey p' = Some k" using that(1) c by (auto simp: created_as_def)
    with insert_allowedD(2) [OF ok r(2) _ that(2)] show ?thesis by (simp add: as_text_Some)
  qed
  moreover have "view (w_db w') = (view (w_db w))\<lparr>l_payments := l_payments (view (w_db w)) @
      [keep_payment ka micros p']\<rparr>"
    using row(2) by (simp add: T view_def ledger_of_def)
  ultimately show ?thesis using c by (simp add: image_iff) metis
qed

lemma insert_refund_view:
  assumes i: "inv (w_db w)" and run: "Store_CreateRefund E s (Some p) w = (Inr p', w')"
  shows "refund_created_as p p' \<and> r_ID p' \<notin> r_ID ` set (l_refunds (view (w_db w))) \<and>
    r_PaymentID p \<in> p_ID ` set (l_payments (view (w_db w))) \<and>
    view (w_db w') = (view (w_db w))\<lparr>l_refunds := l_refunds (view (w_db w)) @
      [keep_refund ka micros p']\<rparr>"
proof -
  obtain w1 n where c: "refund_created_as p p'" and w1: "w_db w1 = w_db w"
    and x: "q_Exec (s_db s) insert_refund (insert_refund_args E p') w1 = (Inr n, w')"
    using run by (rule create_refund_trace) auto
  obtain t cols where st: "insert_refund = Insert t cols" by (simp add: insert_refund_def)
  let ?r = "assigned cols (insert_refund_args E p') (\<lambda>_. VNull)"
  note row = inserted_refund [OF st]
  from exec_insert [OF _ x [unfolded st]] i w1 have
    ok: "insert_allowed (tables (w_db w)) Refunds ?r"
    and T: "tables (w_db w') = (tables (w_db w))(Refunds := tables (w_db w) Refunds @ [?r])"
    by (simp_all add: row(1))
  have r: "?r C_id = VUuid (r_ID p')" "?r C_payment_id = VUuid (r_PaymentID p')"
    using st by (auto simp: insert_refund_def insert_refund_args_def)
  have "uuid_of (q C_id) \<noteq> r_ID p'" if "q \<in> set (tables (w_db w) Refunds)" for q
    using insert_allowedD(1) [OF ok that] unfolding r(1) by (simp add: id_matches [OF i that])
  moreover have "r_PaymentID p \<in> p_ID ` set (l_payments (view (w_db w)))"
  proof -
    have "r_PaymentID p' = r_PaymentID p" using c by (auto simp: refund_created_as_def)
    with insert_allowedD(3) [OF ok] r(2) obtain q where
      "q \<in> set (tables (w_db w) Payments)" "q C_id = VUuid (r_PaymentID p)" by auto
    then show ?thesis by (force simp: image_iff id_matches [OF i])
  qed
  moreover have "view (w_db w') = (view (w_db w))\<lparr>l_refunds := l_refunds (view (w_db w)) @
      [keep_refund ka micros p']\<rparr>"
    using row(2) by (simp add: T view_def ledger_of_def)
  ultimately show ?thesis using c by (simp add: image_iff) metis
qed

lemma insert_transaction_view:
  assumes i: "inv (w_db w)" and run: "Store_CreateTransaction E s (Some x) w = (Inr x', w')"
  shows "(\<exists>i c. x' = x\<lparr>t_ID := i, t_CreatedAt := c\<rparr>) \<and>
    view (w_db w') = (view (w_db w))\<lparr>l_txs := l_txs (view (w_db w)) @
      [keep_transaction ka micros x']\<rparr>"
proof -
  obtain n w1 where c: "\<exists>i c. x' = x\<lparr>t_ID := i, t_CreatedAt := c\<rparr>" and w1: "w_db w1 = w_db w"
    and e: "q_Exec (s_db s) insert_transaction (insert_transaction_args E x') w1 = (Inr n, w')"
    using run by (rule create_transaction_trace) blast
  obtain t cols where st: "insert_transaction = Insert t cols" by (simp add: insert_transaction_def)
  note row = inserted_transaction [OF st]
  from exec_insert [OF _ e [unfolded st]] i w1 have
    T: "tables (w_db w') = (tables (w_db w))(Transactions := tables (w_db w) Transactions @
      [assigned cols (insert_transaction_args E x') (\<lambda>_. VNull)])"
    by (simp add: row(1))
  with c row(2) show ?thesis by (simp add: T view_def ledger_of_def)
qed

lemma update_payment_view:
  assumes i: "inv (w_db w)" and run: "Store_UpdatePayment E s (Some p) w = (Inr p', w')"
  shows "(\<exists>u. p' = p\<lparr>p_UpdatedAt := Some u\<rparr>) \<and>
    p_ID p \<in> p_ID ` set (l_payments (view (w_db w))) \<and>
    view (w_db w') = (view (w_db w))\<lparr>l_payments := replace_payment (keep_payment ka micros p')
      (l_payments (view (w_db w)))\<rparr>"
proof -
  obtain w1 n where u: "\<exists>u. p' = p\<lparr>p_UpdatedAt := Some u\<rparr>" and w1: "w_db w1 = w_db w" and n: "n \<noteq> 0"
    and x: "q_Exec (s_db s) update_payment_stmt (update_payment_args E p') w1 = (Inr n, w')"
    using run by (rule update_payment_trace) auto
  have p': "p_UpdatedAt p' \<noteq> None" "p_ID p' = p_ID p" using u by auto
  obtain t cols c where st: "update_payment_stmt = Update t cols c"
    by (simp add: update_payment_stmt_def)
  have "t = Payments" "c = C_id" using st by (simp_all add: update_payment_stmt_def)
  note st = st [unfolded this]
  let ?T = "tables (w_db w) Payments"
  obtain args where args: "update_payment_args E p' = VUuid (p_ID p') # args"
    by (simp add: update_payment_args_def)
  from exec_update [OF _ x [unfolded st, unfolded args]] i w1 have
    cnt: "n = length (filter (\<lambda>r. r C_id = VUuid (p_ID p')) ?T)"
    and T: "tables (w_db w') = (tables (w_db w))(Payments :=
      map (\<lambda>r. if r C_id = VUuid (p_ID p') then assigned cols args r else r) ?T)" by auto
  from cnt n obtain r where "r \<in> set ?T" "r C_id = VUuid (p_ID p')"
    by (metis (mono_tags, lifting) filter_False list.size(3))
  then have "p_ID p \<in> p_ID ` set (l_payments (view (w_db w)))"
    by (force simp: image_iff id_matches [OF i] p'(2))
  moreover have "map (payment_of_row D)
      (map (\<lambda>r. if r C_id = VUuid (p_ID p') then assigned cols args r else r) ?T) =
      replace_payment (keep_payment ka micros p') (map (payment_of_row D) ?T)"
    unfolding replace_payment_def map_map comp_def
    using updated_payment(4) [OF st p'(1), unfolded args list.sel] id_matches [OF i] by (intro map_cong refl) simp
  ultimately show ?thesis using u by (simp add: T view_def ledger_of_def)
qed

lemma update_refund_view:
  assumes i: "inv (w_db w)" and run: "Store_UpdateRefund E s (Some p) w = (Inr p', w')"
  shows "p' = p \<and> r_ID p \<in> r_ID ` set (l_refunds (view (w_db w))) \<and>
    view (w_db w') = (view (w_db w))\<lparr>l_refunds := replace_refund (keep_refund ka micros p)
      (l_refunds (view (w_db w)))\<rparr>"
proof -
  obtain n where same: "p' = p" and n: "n \<noteq> 0"
    and x: "q_Exec (s_db s) update_refund_stmt (update_refund_args E p) w = (Inr n, w')"
    using update_refund_trace [OF run] by auto
  obtain t cols c where st: "update_refund_stmt = Update t cols c"
    by (simp add: update_refund_stmt_def)
  have "t = Refunds" "c = C_id" using st by (simp_all add: update_refund_stmt_def)
  note st = st [unfolded this]
  let ?T = "tables (w_db w) Refunds"
  obtain args where args: "update_refund_args E p = VUuid (r_ID p) # args"
    by (simp add: update_refund_args_def)
  from exec_update [OF i x [unfolded st, unfolded args]] have
    cnt: "n = length (filter (\<lambda>r. r C_id = VUuid (r_ID p)) ?T)"
    and T: "tables (w_db w') = (tables (w_db w))(Refunds :=
      map (\<lambda>r. if r C_id = VUuid (r_ID p) then assigned cols args r else r) ?T)" by auto
  from cnt n obtain r where "r \<in> set ?T" "r C_id = VUuid (r_ID p)"
    by (metis (mono_tags, lifting) filter_False list.size(3))
  then have "r_ID p \<in> r_ID ` set (l_refunds (view (w_db w)))"
    by (force simp: image_iff id_matches [OF i])
  moreover have "map (refund_of_row D)
      (map (\<lambda>r. if r C_id = VUuid (r_ID p) then assigned cols args r else r) ?T) =
      replace_refund (keep_refund ka micros p) (map (refund_of_row D) ?T)"
    unfolding replace_refund_def map_map comp_def
    using updated_refund(4) [OF st, where x = p, unfolded args list.sel] id_matches [OF i] by (intro map_cong refl) simp
  ultimately show ?thesis using same by (simp add: T view_def ledger_of_def)
qed

text \<open>A write that fails leaves the tables alone.\<close>

lemma exec_none:
  assumes i: "inv (w_db w)"
    and x: "q_Exec (s_db s) (Update t cols c) (key # args) w = (Inr 0, w')"
  shows "tables (w_db w') = tables (w_db w)"
proof -
  have "filter (\<lambda>r. r c = key) (tables (w_db w) t) = []"
    using exec_update [OF i x] by (metis length_0_conv)
  then have "map (\<lambda>r. if r c = key then assigned cols args r else r) (tables (w_db w) t) =
      tables (w_db w) t"
    by (auto simp: filter_empty_conv intro: map_idI)
  then show ?thesis using exec_update [OF i x] by simp
qed

lemma write_fails:
  assumes i: "inv (w_db w)"
  shows "Store_CreatePayment E s (Some p) w = (Inl e, w') \<Longrightarrow> tables (w_db w') = tables (w_db w)"
    and "Store_UpdatePayment E s (Some p) w = (Inl e, w') \<Longrightarrow> tables (w_db w') = tables (w_db w)"
    and "Store_CreateRefund E s (Some r) w = (Inl e, w') \<Longrightarrow> tables (w_db w') = tables (w_db w)"
    and "Store_UpdateRefund E s (Some r) w = (Inl e, w') \<Longrightarrow> tables (w_db w') = tables (w_db w)"
    and "Store_CreateTransaction E s (Some t) w = (Inl e, w') \<Longrightarrow>
      tables (w_db w') = tables (w_db w)"
proof -
  assume "Store_CreatePayment E s (Some p) w = (Inl e, w')"
  then show "tables (w_db w') = tables (w_db w)"
    by (rule create_payment_trace) (use i exec_error in \<open>metis Inl_Inr_False\<close>)
next
  assume "Store_UpdatePayment E s (Some p) w = (Inl e, w')"
  then obtain p' w1 where w1: "w_db w1 = w_db w" and
    x: "(\<exists>e. q_Exec (s_db s) update_payment_stmt (update_payment_args E p') w1 = (Inl e, w')) \<or>
      q_Exec (s_db s) update_payment_stmt (update_payment_args E p') w1 = (Inr 0, w')"
    by (rule update_payment_trace) auto
  have "\<exists>cols args. update_payment_stmt = Update Payments cols C_id \<and>
      update_payment_args E p' = VUuid (p_ID p') # args"
    by (simp add: update_payment_stmt_def update_payment_args_def)
  with x i w1 exec_none exec_error show "tables (w_db w') = tables (w_db w)" by metis
next
  assume "Store_CreateRefund E s (Some r) w = (Inl e, w')"
  then show "tables (w_db w') = tables (w_db w)"
    by (rule create_refund_trace) (use i exec_error in \<open>metis Inl_Inr_False\<close>)
next
  assume run: "Store_UpdateRefund E s (Some r) w = (Inl e, w')"
  have "\<exists>cols args. update_refund_stmt = Update Refunds cols C_id \<and>
      update_refund_args E r = VUuid (r_ID r) # args"
    by (simp add: update_refund_stmt_def update_refund_args_def)
  with update_refund_trace [OF run] i exec_none exec_error
  show "tables (w_db w') = tables (w_db w)" by (metis Inl_Inr_False)
next
  assume "Store_CreateTransaction E s (Some t) w = (Inl e, w')"
  then show "tables (w_db w') = tables (w_db w)"
    by (rule create_transaction_trace) (use i exec_error in \<open>metis Inl_Inr_False\<close>)
qed

text \<open>The reads.\<close>

lemma get_payment_view:
  assumes i: "inv (w_db w)"
    and run: "query_row s (scanPaymentRow E) (select_payment c newest one lock) v w = (Inr p, w')"
    and v: "v \<noteq> VNull"
  shows "\<exists>r \<in> set (tables (w_db w) Payments). p = payment_of_row D r \<and> r c = v \<and>
    (newest \<longrightarrow> (\<forall>r' \<in> set (tables (w_db w) Payments). r' c = v \<longrightarrow>
       time_of (r' C_created_at) \<le> time_of (r C_created_at)))"
  by (rule query_row_found [OF i run v])
    (auto simp: select_payment_def scan_payment [OF rows_typed [OF i]])

lemma get_refund_view:
  assumes i: "inv (w_db w)"
    and run: "query_row s (scanRefundRow E) (select_refund c newest one) v w = (Inr p, w')"
    and v: "v \<noteq> VNull"
  shows "\<exists>r \<in> set (tables (w_db w) Refunds). p = refund_of_row D r \<and> r c = v"
  by (rule query_row_found [OF i run v])
    (auto simp: select_refund_def scan_refund [OF rows_typed [OF i]])

lemma get_payment_missing:
  assumes i: "inv (w_db w)"
    and run: "query_row s (scanPaymentRow E) (select_payment c newest one lock) v w = (Inl e, w')"
    and v: "v \<noteq> VNull" and e: "errors_Is e ErrNoRows"
    and r: "r \<in> set (tables (w_db w) Payments)"
  shows "r c \<noteq> v"
proof -
  have "r (sel_where (select_payment c newest one lock)) \<noteq> v"
    by (rule query_row_missing [OF i run v e])
      (use r scan_payment [OF rows_typed [OF i]] in \<open>auto simp: select_payment_def\<close>)
  then show ?thesis by (simp add: select_payment_def)
qed

lemma get_refund_missing:
  assumes i: "inv (w_db w)"
    and run: "query_row s (scanRefundRow E) (select_refund c newest one) v w = (Inl e, w')"
    and v: "v \<noteq> VNull" and e: "errors_Is e ErrNoRows"
    and r: "r \<in> set (tables (w_db w) Refunds)"
  shows "r c \<noteq> v"
proof -
  have "r (sel_where (select_refund c newest one)) \<noteq> v"
    by (rule query_row_missing [OF i run v e])
      (use r scan_refund [OF rows_typed [OF i]] in \<open>auto simp: select_refund_def\<close>)
  then show ?thesis by (simp add: select_refund_def)
qed

lemma text_value:
  "inv db \<Longrightarrow> r \<in> set (tables db t) \<Longrightarrow> schema t c = Some (Varchar n, True) \<Longrightarrow>
     r c = VText x \<longleftrightarrow> text_of (r c) = x"
  using row_okD [OF rows_typed, of db r t c "Varchar n" True] by (cases "r c") auto

lemma payment_id_value:
  "inv db \<Longrightarrow> r \<in> set (tables db Refunds) \<Longrightarrow>
     r C_payment_id = VUuid i \<longleftrightarrow> uuid_of (r C_payment_id) = i"
  using row_okD [OF rows_typed, of db r Refunds C_payment_id UuidType True]
  by (cases "r C_payment_id") auto

lemma get_payments_view:
  assumes i: "inv (w_db w)" and run: "Store_GetPaymentsByCustomer E s x w = (Inr ps, w')"
  shows "mset ps = mset (filter (\<lambda>p. p_CustomerID p = x) (l_payments (view (w_db w)))) \<and>
    sorted_wrt (\<lambda>p q. p_CreatedAt q \<le> p_CreatedAt p) ps"
proof -
  let ?T = "tables (w_db w) Payments"
  obtain rs where ps: "ps = map (payment_of_row D) rs"
    and m: "mset rs = mset (filter (\<lambda>r. r C_customer_id = VText x) ?T)"
    and sorted: "sorted_wrt (\<lambda>r r'. time_of (r' C_created_at) \<le> time_of (r C_created_at)) rs"
    by (rule query_rows_found [OF i run [unfolded Store_GetPaymentsByCustomer_def],
          where f = "payment_of_row D"])
      (auto simp: select_payment_def scan_payment [OF rows_typed [OF i]])
  have "filter (\<lambda>r. r C_customer_id = VText x) ?T = filter (\<lambda>r. text_of (r C_customer_id) = x) ?T"
    using text_value [OF i, of _ Payments C_customer_id] by (intro filter_cong) auto
  with m have "image_mset (payment_of_row D) (mset rs) =
      image_mset (payment_of_row D) (mset (filter (\<lambda>r. text_of (r C_customer_id) = x) ?T))" by simp
  moreover have "filter (\<lambda>p. p_CustomerID p = x) (map (payment_of_row D) ?T) =
      map (payment_of_row D) (filter (\<lambda>r. text_of (r C_customer_id) = x) ?T)"
    by (simp add: filter_map comp_def)
  ultimately show ?thesis using sorted by (simp add: ps sorted_wrt_map)
qed

lemma get_refunds_view:
  assumes i: "inv (w_db w)" and run: "Store_GetRefundsByPayment E s x w = (Inr ps, w')"
  shows "mset ps = mset (filter (\<lambda>r. r_PaymentID r = x) (l_refunds (view (w_db w)))) \<and>
    sorted_wrt (\<lambda>p q. r_CreatedAt q \<le> r_CreatedAt p) ps"
proof -
  let ?T = "tables (w_db w) Refunds"
  obtain rs where ps: "ps = map (refund_of_row D) rs"
    and m: "mset rs = mset (filter (\<lambda>r. r C_payment_id = VUuid x) ?T)"
    and sorted: "sorted_wrt (\<lambda>r r'. time_of (r' C_created_at) \<le> time_of (r C_created_at)) rs"
    by (rule query_rows_found [OF i run [unfolded Store_GetRefundsByPayment_def],
          where f = "refund_of_row D"])
      (auto simp: select_refund_def scan_refund [OF rows_typed [OF i]])
  have "filter (\<lambda>r. r C_payment_id = VUuid x) ?T = filter (\<lambda>r. uuid_of (r C_payment_id) = x) ?T"
    using payment_id_value [OF i] by (intro filter_cong) auto
  with m have "image_mset (refund_of_row D) (mset rs) =
      image_mset (refund_of_row D) (mset (filter (\<lambda>r. uuid_of (r C_payment_id) = x) ?T))" by simp
  moreover have "filter (\<lambda>r. r_PaymentID r = x) (map (refund_of_row D) ?T) =
      map (refund_of_row D) (filter (\<lambda>r. uuid_of (r C_payment_id) = x) ?T)"
    by (simp add: filter_map comp_def)
  ultimately show ?thesis using sorted by (simp add: ps sorted_wrt_map)
qed

lemma exec_keeps: "steps (\<lambda>w w'. inv (w_db w) \<longrightarrow> inv (w_db w')) (q_Exec (s_db s) st v)"
  unfolding steps_def using exec_inv by blast

lemma reads_same: "reads (same_tables tables inv) (sql_store E s)"
  by (intro sql_store_reads frame_same_tables query_same)

lemma reads_same_view:
  "reads (\<lambda>w w'. inv (w_db w) \<longrightarrow> inv (w_db w') \<and> view (w_db w') = view (w_db w)) (sql_store E s)"
  by (rule reads_both [OF reads_same reads_same]) (auto simp: same_tables_def intro: view_cong)

lemma payment_created:
  assumes "inv (w_db w)" "st_CreatePayment (sql_store E s) p w = (Inr p', w')"
  shows "(\<exists>i c u. p' = p\<lparr>p_ID := i, p_CreatedAt := c, p_UpdatedAt := Some u\<rparr> \<and>
       (p_ID p \<noteq> 0 \<longrightarrow> i = p_ID p) \<and> (p_CreatedAt p \<noteq> 0 \<longrightarrow> c = p_CreatedAt p)) \<and>
    p_ID p' \<notin> p_ID ` set (l_payments (view (w_db w))) \<and>
    (\<forall>k. p_IdempotencyKey p = Some k \<longrightarrow>
       (\<forall>q \<in> set (l_payments (view (w_db w))). p_IdempotencyKey q \<noteq> Some k)) \<and>
    view (w_db w') = (view (w_db w))\<lparr>l_payments := l_payments (view (w_db w)) @
      [keep_payment ka micros p']\<rparr>"
  using assms insert_payment_view [of w p p' w'] by (simp add: sql_store_def created_as_def)

lemma payment_updated:
  assumes "inv (w_db w)" "st_UpdatePayment (sql_store E s) p w = (Inr p', w')"
  shows "(\<exists>u. p' = p\<lparr>p_UpdatedAt := Some u\<rparr>) \<and> p_ID p \<in> p_ID ` set (l_payments (view (w_db w))) \<and>
    view (w_db w') = (view (w_db w))\<lparr>l_payments := replace_payment
      (keep_payment ka micros p') (l_payments (view (w_db w)))\<rparr>"
  using assms update_payment_view [of w p p' w'] by (simp add: sql_store_def)

lemma payment_found:
  assumes "inv (w_db w)" "st_GetPayment (sql_store E s) i w = (Inr p, w')"
  shows "p \<in> set (l_payments (view (w_db w))) \<and> p_ID p = i"
  using assms get_payment_view [of w C_id False False False "VUuid i" p w'] id_matches [of "w_db w"]
  by (auto simp: sql_store_defs)

lemma payment_missing:
  assumes "inv (w_db w)" "st_GetPayment (sql_store E s) i w = (Inl e, w')" "errors_Is e ErrNoRows"
  shows "i \<notin> p_ID ` set (l_payments (view (w_db w)))"
  using assms get_payment_missing [of w C_id False False False "VUuid i" e w'] id_matches [of "w_db w"]
  by (fastforce simp: sql_store_defs)

lemma locked_found:
  assumes "inv (w_db w)" "st_GetPaymentForUpdate (sql_store E s) i w = (Inr p, w')"
  shows "p \<in> set (l_payments (view (w_db w))) \<and> p_ID p = i"
  using assms get_payment_view [of w C_id False False True "VUuid i" p w'] id_matches [of "w_db w"]
  by (auto simp: sql_store_defs)

lemma customer_found:
  assumes "inv (w_db w)" "st_GetPaymentsByCustomer (sql_store E s) x w = (Inr ps, w')"
  shows "mset ps = mset (filter (\<lambda>p. p_CustomerID p = x) (l_payments (view (w_db w)))) \<and>
    sorted_wrt (\<lambda>p q. p_CreatedAt q \<le> p_CreatedAt p) ps"
  using assms get_payments_view [of w x ps w'] by (simp add: sql_store_def)

lemma order_found:
  assumes i: "inv (w_db w)" and run: "st_GetPaymentByOrderID (sql_store E s) x w = (Inr p, w')"
  shows "p \<in> set (l_payments (view (w_db w))) \<and> p_OrderID p = x \<and>
    (\<forall>q \<in> set (l_payments (view (w_db w))). p_OrderID q = x \<longrightarrow> p_CreatedAt q \<le> p_CreatedAt p)"
proof -
  from i run have "\<exists>r \<in> set (tables (w_db w) Payments). p = payment_of_row D r \<and>
    r C_order_id = VText x \<and> (\<forall>r' \<in> set (tables (w_db w) Payments).
      r' C_order_id = VText x \<longrightarrow> time_of (r' C_created_at) \<le> time_of (r C_created_at))"
    using get_payment_view [of w C_order_id True True False "VText x" p w']
    by (auto simp: sql_store_defs)
  then show ?thesis using text_value [OF i, of _ Payments C_order_id] by auto
qed

lemma order_missing:
  assumes i: "inv (w_db w)" and "st_GetPaymentByOrderID (sql_store E s) x w = (Inl e, w')"
    and "errors_Is e ErrNoRows"
  shows "x \<notin> p_OrderID ` set (l_payments (view (w_db w)))"
  using assms get_payment_missing [of w C_order_id True True False "VText x" e w']
    text_value [OF i, of _ Payments C_order_id] by (fastforce simp: sql_store_defs)

lemma key_found:
  assumes "inv (w_db w)" "st_GetPaymentByIdempotencyKey (sql_store E s) x w = (Inr p, w')"
  shows "p \<in> set (l_payments (view (w_db w))) \<and> p_IdempotencyKey p = Some x"
  using assms get_payment_view [of w C_idempotency_key True True False "VText x" p w']
  by (auto simp: sql_store_defs)

lemma key_missing:
  assumes "inv (w_db w)" "st_GetPaymentByIdempotencyKey (sql_store E s) x w = (Inl e, w')"
    and "errors_Is e ErrNoRows"
  shows "Some x \<notin> p_IdempotencyKey ` set (l_payments (view (w_db w)))"
  using assms get_payment_missing [of w C_idempotency_key True True False "VText x" e w']
  by (auto simp: sql_store_defs as_text_Some dest: sym)

lemma refund_created:
  assumes "inv (w_db w)" "st_CreateRefund (sql_store E s) r w = (Inr r', w')"
  shows "(\<exists>i c. r' = r\<lparr>r_ID := i, r_CreatedAt := c\<rparr> \<and>
       (r_ID r \<noteq> 0 \<longrightarrow> i = r_ID r) \<and> (r_CreatedAt r \<noteq> 0 \<longrightarrow> c = r_CreatedAt r)) \<and>
    r_ID r' \<notin> r_ID ` set (l_refunds (view (w_db w))) \<and>
    r_PaymentID r \<in> p_ID ` set (l_payments (view (w_db w))) \<and>
    view (w_db w') = (view (w_db w))\<lparr>l_refunds := l_refunds (view (w_db w)) @
      [keep_refund ka micros r']\<rparr>"
  using assms insert_refund_view [of w r r' w'] by (simp add: sql_store_def refund_created_as_def)

lemma refund_updated:
  assumes "inv (w_db w)" "st_UpdateRefund (sql_store E s) r w = (Inr r', w')"
  shows "r' = r \<and> r_ID r \<in> r_ID ` set (l_refunds (view (w_db w))) \<and>
    view (w_db w') = (view (w_db w))\<lparr>l_refunds := replace_refund
      (keep_refund ka micros r) (l_refunds (view (w_db w)))\<rparr>"
  using assms update_refund_view [of w r r' w'] by (simp add: sql_store_def)

lemma refund_found:
  assumes "inv (w_db w)" "st_GetRefund (sql_store E s) i w = (Inr r, w')"
  shows "r \<in> set (l_refunds (view (w_db w))) \<and> r_ID r = i"
  using assms get_refund_view [of w C_id False False "VUuid i" r w'] id_matches [of "w_db w"]
  by (auto simp: sql_store_defs)

lemma refund_missing:
  assumes "inv (w_db w)" "st_GetRefund (sql_store E s) i w = (Inl e, w')" "errors_Is e ErrNoRows"
  shows "i \<notin> r_ID ` set (l_refunds (view (w_db w)))"
  using assms get_refund_missing [of w C_id False False "VUuid i" e w'] id_matches [of "w_db w"]
  by (fastforce simp: sql_store_defs)

lemma correlation_found:
  assumes "inv (w_db w)" "st_GetRefundByCorrelationID (sql_store E s) x w = (Inr r, w')"
  shows "r \<in> set (l_refunds (view (w_db w))) \<and> r_CorrelationID r = Some x"
  using assms get_refund_view [of w C_correlation_id True True "VText x" r w']
  by (auto simp: sql_store_defs)

lemma correlation_missing:
  assumes "inv (w_db w)" "st_GetRefundByCorrelationID (sql_store E s) x w = (Inl e, w')"
    and "errors_Is e ErrNoRows"
  shows "Some x \<notin> r_CorrelationID ` set (l_refunds (view (w_db w)))"
  using assms get_refund_missing [of w C_correlation_id True True "VText x" e w']
  by (auto simp: sql_store_defs as_text_Some dest: sym)

lemma refunds_found:
  assumes "inv (w_db w)" "st_GetRefundsByPayment (sql_store E s) i w = (Inr rs, w')"
  shows "mset rs = mset (filter (\<lambda>r. r_PaymentID r = i) (l_refunds (view (w_db w)))) \<and>
    sorted_wrt (\<lambda>p q. r_CreatedAt q \<le> r_CreatedAt p) rs"
  using assms get_refunds_view [of w i rs w'] by (simp add: sql_store_def)

end

sublocale sql_backed \<subseteq> contract: ledger_view D val "sql_store E s" view inv "amount4 D" micros
proof
  fix n show "val (amount4 D n) = of_int n / 10 ^ 4" by (rule val_amount4)
next
  fix tm show "micros (micros tm) = micros tm" by simp
next
  fix db assume "inv db"
  then show "distinct (map p_ID (l_payments (view db))) \<and> distinct (map r_ID (l_refunds (view db)))"
    using uuids_distinct [of db] by (simp add: comp_def)
next
  fix db p assume "inv db" "p \<in> set (l_payments (view db))"
  then show "keep_payment ka micros p = p"
    by (auto intro: kept_payment rows_typed)
next
  fix db r assume "inv db" "r \<in> set (l_refunds (view db))"
  then show "keep_refund ka micros r = r"
    by (auto intro: kept_refund rows_typed)
next
  show "writes (\<lambda>w w'. inv (w_db w) \<longrightarrow> inv (w_db w')) (sql_store E s)"
    by (intro sql_store_writes frame_keeps exec_keeps)
next
  show "reads (\<lambda>w w'. inv (w_db w) \<longrightarrow> inv (w_db w') \<and> view (w_db w') = view (w_db w))
      (sql_store E s)" by (rule reads_same_view)
next
  show "write_failures (\<lambda>w w'. inv (w_db w) \<longrightarrow> view (w_db w') = view (w_db w)) (sql_store E s)"
    by (auto simp: write_failures_def failures_def sql_store_def intro!: view_cong dest: write_fails)
next
  show "reads quiet (sql_store E s)" "writes quiet (sql_store E s)"
    by (intro sql_store_reads sql_store_writes frame_quiet sql_quiet)+
qed

text \<open>The laws of the two contracts are the lemmas above.\<close>

sublocale sql_backed \<subseteq> contract: payments_contract D val "sql_store E s" view inv "amount4 D" micros
  by (unfold_locales; (rule payment_created payment_updated payment_found payment_missing locked_found
      order_found order_missing key_found key_missing customer_found; assumption))

sublocale sql_backed \<subseteq> contract: refunds_contract D val "sql_store E s" view inv "amount4 D" micros
  by (unfold_locales; (rule refund_created refund_updated refund_found refund_missing correlation_found
      correlation_missing refunds_found; assumption))

sublocale sql_backed \<subseteq> contract: payment_store_contract D val "sql_store E s" view inv "amount4 D" micros
proof
  fix w t t' w' assume "inv (w_db w)" "st_CreateTransaction (sql_store E s) t w = (Inr t', w')"
  then show "(\<exists>i c. t' = t\<lparr>t_ID := i, t_CreatedAt := c\<rparr>) \<and>
      view (w_db w') = (view (w_db w))\<lparr>l_txs := l_txs (view (w_db w)) @
        [keep_transaction ka micros t']\<rparr>"
    using insert_transaction_view [of w t t' w'] by (simp add: sql_store_def)
qed

section \<open>Transactions\<close>

text \<open>\<open>saved\<close> is the tables as the running transaction found them.\<close>

locale sql_pool =
  db: sql_database "pool_querier pl" tables inv + tx: sql_database "pool_tx pl" tables inv
  for pl :: "('db, 'x) pool" and tables :: "'db \<Rightarrow> table \<Rightarrow> row list" and inv +
  fixes saved :: "'db \<Rightarrow> table \<Rightarrow> row list"
  assumes tx_saved: "steps (\<lambda>w w'. saved (w_db w') = saved (w_db w)) (q_Exec (pool_tx pl) st v)"
      "steps (\<lambda>w w'. saved (w_db w') = saved (w_db w)) (q_Query (pool_tx pl) sel v)"
      "steps (\<lambda>w w'. saved (w_db w') = saved (w_db w)) (q_QueryRow (pool_tx pl) sel v)"
    and Begin_ok: "inv (w_db w) \<Longrightarrow> pool_Begin pl w = (Inr u, w') \<Longrightarrow>
      inv (w_db w') \<and> tables (w_db w') = tables (w_db w) \<and> saved (w_db w') = tables (w_db w)"
    and Begin_fail: "inv (w_db w) \<Longrightarrow> pool_Begin pl w = (Inl e, w') \<Longrightarrow>
      inv (w_db w') \<and> tables (w_db w') = tables (w_db w)"
    and Commit_ok: "inv (w_db w) \<Longrightarrow> tx_Commit pl w = (Inr u, w') \<Longrightarrow>
      inv (w_db w') \<and> tables (w_db w') = tables (w_db w)"
    and Commit_fail: "inv (w_db w) \<Longrightarrow> tx_Commit pl w = (Inl e, w') \<Longrightarrow>
      inv (w_db w') \<and> tables (w_db w') = saved (w_db w)"
    and Rollback: "inv (w_db w) \<Longrightarrow> tx_Rollback pl w = (res, w') \<Longrightarrow>
      inv (w_db w') \<and> tables (w_db w') = saved (w_db w)"
    and pool_quiet: "steps quiet (pool_Begin pl)" "steps quiet (tx_Commit pl)"
      "steps quiet (tx_Rollback pl)" "steps quiet (pool_Ping pl)"

locale sql_service = sql_library D val E + sql_pool pl tables inv saved
  for D :: "'d decimal_ops" and val and E :: "'d env" and pl :: "('db, 'x) pool"
    and tables :: "'db \<Rightarrow> table \<Rightarrow> row list" and inv and saved

sublocale sql_service \<subseteq> main: sql_backed D val E "NewStore pl" tables inv
  by (simp add: sql_backed_def sql_library_axioms NewStore_def db.sql_database_axioms)

sublocale sql_service \<subseteq> inside: sql_backed D val E "\<lparr>s_pool = Some pl, s_db = pool_tx pl\<rparr>"
    tables inv
  by (simp add: sql_backed_def sql_library_axioms tx.sql_database_axioms)

context sql_service begin

definition saved_view :: "'db \<Rightarrow> 'd ledger" where
  "saved_view db = ledger_of D (saved db)"

lemma view_main: "main.view = (\<lambda>db. ledger_of D (tables db))"
  by (rule ext) (simp add: main.view_def)

lemma view_inside: "inside.view = (\<lambda>db. ledger_of D (tables db))"
  by (rule ext) (simp add: inside.view_def)

lemma frame_saved: "frame_rel (\<lambda>w w'. saved_view (w_db w') = saved_view (w_db w))"
  by (simp add: frame_rel_def)

lemma tx_saved_view:
  "steps (\<lambda>w w'. saved_view (w_db w') = saved_view (w_db w)) (q_Exec (pool_tx pl) st v)"
  "steps (\<lambda>w w'. saved_view (w_db w') = saved_view (w_db w)) (q_Query (pool_tx pl) sel v)"
  "steps (\<lambda>w w'. saved_view (w_db w') = saved_view (w_db w)) (q_QueryRow (pool_tx pl) sel v)"
  using tx_saved by (auto simp: steps_def saved_view_def)

end

sublocale sql_service \<subseteq> txs: transactional_store D val "sql_store E (NewStore pl)"
    "\<lambda>db. ledger_of D (tables db)" inv "amount4 D" micros "sql_runner E pl" saved_view
proof (intro transactional_store.intro transactional_store_axioms.intro)
  show "payment_store_contract D val (sql_store E (NewStore pl)) (\<lambda>db. ledger_of D (tables db))
      inv (amount4 D) micros"
    using main.contract.payment_store_contract_axioms by (simp add: view_main)
  show "payment_store_contract D val (tr_store (sql_runner E pl)) (\<lambda>db. ledger_of D (tables db))
      inv (amount4 D) micros"
    using inside.contract.payment_store_contract_axioms by (simp add: view_inside sql_runner_def)
  show "reads (\<lambda>w w'. saved_view (w_db w') = saved_view (w_db w)) (tr_store (sql_runner E pl))"
    "writes (\<lambda>w w'. saved_view (w_db w') = saved_view (w_db w)) (tr_store (sql_runner E pl))"
    unfolding sql_runner_def tx_runner.simps
    by (intro sql_store_reads sql_store_writes frame_saved, simp_all add: tx_saved_view)+
  show "steps quiet (tr_begin (sql_runner E pl))" "steps quiet (tr_commit (sql_runner E pl))"
    "steps quiet (tr_rollback (sql_runner E pl))"
    by (simp_all add: sql_runner_def pool_quiet)
next
  fix w u w' assume "inv (w_db w)" "tr_begin (sql_runner E pl) w = (Inr u, w')"
  then show "inv (w_db w') \<and> ledger_of D (tables (w_db w')) = ledger_of D (tables (w_db w)) \<and>
      saved_view (w_db w') = ledger_of D (tables (w_db w))"
    using Begin_ok [of w u w'] by (simp add: sql_runner_def saved_view_def)
next
  fix w e w' assume "inv (w_db w)" "tr_begin (sql_runner E pl) w = (Inl e, w')"
  then show "inv (w_db w') \<and> ledger_of D (tables (w_db w')) = ledger_of D (tables (w_db w))"
    using Begin_fail [of w e w'] by (simp add: sql_runner_def)
next
  fix w u w' assume "inv (w_db w)" "tr_commit (sql_runner E pl) w = (Inr u, w')"
  then show "inv (w_db w') \<and> ledger_of D (tables (w_db w')) = ledger_of D (tables (w_db w))"
    using Commit_ok [of w u w'] by (simp add: sql_runner_def)
next
  fix w e w' assume "inv (w_db w)" "tr_commit (sql_runner E pl) w = (Inl e, w')"
  then show "inv (w_db w') \<and> ledger_of D (tables (w_db w')) = saved_view (w_db w)"
    using Commit_fail [of w e w'] by (simp add: sql_runner_def saved_view_def)
next
  fix w ru w' assume "inv (w_db w)" "tr_rollback (sql_runner E pl) w = (ru, w')"
  then show "inv (w_db w') \<and> ledger_of D (tables (w_db w')) = saved_view (w_db w)"
    using Rollback [of w ru w'] by (simp add: sql_runner_def saved_view_def)
qed

end
