(* ===== verification/Postgres.thy ===== *)
theory Postgres
  imports Sql_Contract Http_Handler
begin

text \<open>
  A concrete database and concrete libraries that keep the laws of \<open>Sql_Contract\<close>: the
  statements of \<open>Sql\<close> executed on tables of rows under the schema of the migrations (types,
  NOT NULL, primary keys, the partial unique index on \<open>idempotency_key\<close>, foreign keys), with
  transactions, and a schedule of connection failures that may strike any call; and the textual
  form of a UUID.  A value that is too long is refused (PostgreSQL would still take it when the
  excess is only spaces); lengths are counted in bytes, and text is taken to be valid UTF-8 without
  the character NUL, which PostgreSQL refuses.  The store's locales are interpreted here, so that what was proved of
  any database holds of this one.
\<close>

section \<open>The text of a UUID\<close>

definition hex_value :: "char \<Rightarrow> nat option" where
  "hex_value c = (let n = of_char c :: nat in
     if 48 \<le> n \<and> n \<le> 57 then Some (n - 48)
     else if 97 \<le> n \<and> n \<le> 102 then Some (n - 87)
     else if 65 \<le> n \<and> n \<le> 70 then Some (n - 55) else None)"

fun hex_number :: "nat \<Rightarrow> string \<Rightarrow> nat option" where
  "hex_number n [] = Some n"
| "hex_number n (c # cs) =
     (case hex_value c of None \<Rightarrow> None | Some d \<Rightarrow> hex_number (16 * n + d) cs)"

definition undashed :: "string \<Rightarrow> string" where
  "undashed s = take 8 s @ take 4 (drop 9 s) @ take 4 (drop 14 s) @ take 4 (drop 19 s) @ drop 24 s"

definition uuid_parse :: "string \<Rightarrow> uuid option" where
  "uuid_parse s =
     (if length s = 36 \<and> s ! 8 = CHR ''-'' \<and> s ! 13 = CHR ''-'' \<and> s ! 18 = CHR ''-'' \<and>
         s ! 23 = CHR ''-''
      then map_option of_nat (hex_number 0 (undashed s)) else None)"

lemma length_hex_fixed [simp]: "length (hex_fixed k n) = k"
  by (induction k arbitrary: n) simp_all

lemma hex_value_digit: "d < 16 \<Longrightarrow> hex_value (hex_digit d) = Some d"
  by (simp add: hex_value_def hex_digit_def Let_def of_char_of take_bit_eq_mod)

lemma hex_number_append:
  "hex_number n (xs @ ys) = (case hex_number n xs of None \<Rightarrow> None | Some m \<Rightarrow> hex_number m ys)"
  by (induction xs arbitrary: n) (simp_all split: option.split)

lemma hex_number_fixed: "hex_number m (hex_fixed k n) = Some (m * 16 ^ k + n mod 16 ^ k)"
proof (induction k arbitrary: n)
  case (Suc k)
  have "n mod (16 * 16 ^ k) = 16 * (n div 16 mod 16 ^ k) + n mod 16"
    by (rule mod_mult2_eq)
  with Suc show ?case by (simp add: hex_number_append hex_value_digit)
qed simp

lemma dashed_parts:
  assumes "length s = 32"
  shows "length (dashed s) = 36" "dashed s ! 8 = CHR ''-''" "dashed s ! 13 = CHR ''-''"
    "dashed s ! 18 = CHR ''-''" "dashed s ! 23 = CHR ''-''" "undashed (dashed s) = s"
proof -
  obtain a b c d e where s: "s = a @ b @ c @ d @ e" and len: "length a = 8" "length b = 4"
    "length c = 4" "length d = 4" "length e = 12"
    by (rule that [of "take 8 s" "take 4 (drop 8 s)" "take 4 (drop 12 s)" "take 4 (drop 16 s)"
          "drop 20 s"])
      (use assms in \<open>simp_all flip: append_assoc take_add\<close>)
  have d: "dashed s = a @ ''-'' @ b @ ''-'' @ c @ ''-'' @ d @ ''-'' @ e"
    unfolding dashed_def s using len by simp
  show "length (dashed s) = 36" "dashed s ! 8 = CHR ''-''" "dashed s ! 13 = CHR ''-''"
    "dashed s ! 18 = CHR ''-''" "dashed s ! 23 = CHR ''-''"
    using len by (simp_all add: d nth_append)
  show "undashed (dashed s) = s"
    unfolding d undashed_def using len by (simp add: s)
qed

lemma uuid_parse_text: "uuid_parse (uuid_text u) = Some u"
proof -
  have "unat u < 16 ^ 32" using unsigned_less [of u, where ?'a = nat] by simp
  then show ?thesis
    by (simp add: uuid_parse_def uuid_text_def dashed_parts hex_number_fixed)
qed

section \<open>Column values\<close>

definition overlong :: "nat \<Rightarrow> go_error" where
  "overlong n = PgError ''22001''
     (''value too long for type character varying('' @ nat_text n @ '')'')"

fun coerce :: "column_type \<Rightarrow> cast \<Rightarrow> sql_value \<Rightarrow> go_error + sql_value" where
  "coerce ty k VNull = Inr VNull"
| "coerce (Varchar n) Plain (VText s) = (if length s \<le> n then Inr (VText s) else Inl (overlong n))"
| "coerce TextType Plain (VText s) = Inr (VText s)"
| "coerce UuidType Plain (VUuid u) = Inr (VUuid u)"
| "coerce Numeric19_4 AsNumeric (VText s) =
     (case decimal_text s of
        None \<Rightarrow> Inl (PgError ''22P02'' ''invalid input syntax for type numeric'')
      | Some x \<Rightarrow> if \<bar>cents4 x\<bar> < 10 ^ 19 then Inr (VNumeric (cents4 x))
                  else Inl (PgError ''22003'' ''numeric field overflow''))"
| "coerce Timestamp Plain (VTime t) = Inr (VTime (micros t))"
| "coerce Boolean Plain (VBool b) = Inr (VBool b)"
| "coerce ty k v = Inl (PgError ''42804'' ''datatype mismatch'')"

lemma coerce_stored: "coerce ty k v = Inr v' \<Longrightarrow> v' = stored k v \<and> has_type ty v'"
  by (induction ty k v rule: coerce.induct) (auto split: if_splits option.splits)

text \<open>The listed columns must exist and take their values.\<close>

fun check_values :: "table \<Rightarrow> (column \<times> cast) list \<Rightarrow> sql_value list \<Rightarrow> go_error option" where
  "check_values t [] [] = None"
| "check_values t ((c, k) # cols) (v # vs) =
     (case schema t c of
        None \<Rightarrow> Some (PgError ''42703'' ''column does not exist'')
      | Some (ty, _) \<Rightarrow>
          (case coerce ty k v of Inl e \<Rightarrow> Some e | Inr _ \<Rightarrow> check_values t cols vs))"
| "check_values t _ _ = Some (PgError ''08P01'' ''wrong number of parameters'')"

definition all_columns :: "column list" where
  "all_columns =
     [C_id, C_order_id, C_customer_id, C_amount, C_currency, C_status, C_gateway,
      C_gateway_transaction_id, C_gateway_payment_intent_id, C_payment_method_id, C_card_last4,
      C_card_brand, C_metadata, C_failure_reason, C_failure_code, C_created_at, C_processed_at,
      C_completed_at, C_updated_at, C_correlation_id, C_idempotency_key, C_payment_id, C_reason,
      C_gateway_refund_id, C_initiated_by, C_refund_id, C_type, C_success, C_gateway_response,
      C_gateway_error_code, C_gateway_error_message, C_ip_address, C_user_agent]"

lemma all_columns: "c \<in> set all_columns"
  by (cases c) (simp_all add: all_columns_def)

definition not_null_ok :: "table \<Rightarrow> row \<Rightarrow> bool" where
  "not_null_ok t r \<longleftrightarrow> list_all (\<lambda>c. case schema t c of
     Some (_, True) \<Rightarrow> r c \<noteq> VNull | _ \<Rightarrow> True) all_columns"

definition values_typed :: "table \<Rightarrow> row \<Rightarrow> bool" where
  "values_typed t r \<longleftrightarrow> (\<forall>c. case schema t c of None \<Rightarrow> r c = VNull | Some (ty, _) \<Rightarrow> has_type ty (r c))"

lemma row_ok_split: "row_ok t r \<longleftrightarrow> values_typed t r \<and> not_null_ok t r"
proof -
  have "not_null_ok t r \<longleftrightarrow> (\<forall>c. case schema t c of Some (_, True) \<Rightarrow> r c \<noteq> VNull | _ \<Rightarrow> True)"
    using all_columns by (auto simp: not_null_ok_def list_all_iff)
  then show ?thesis
    by (auto simp: row_ok_def values_typed_def split: option.splits prod.splits bool.splits)
qed

lemma assigned_typed:
  "check_values t cols vs = None \<Longrightarrow> values_typed t r \<Longrightarrow> values_typed t (assigned cols vs r)"
proof (induction t cols vs rule: check_values.induct)
  case (2 t c k cols v vs)
  then obtain ty n v' where c: "schema t c = Some (ty, n)" "coerce ty k v = Inr v'"
    "check_values t cols vs = None"
    by (auto split: option.splits sum.splits)
  with 2 have "values_typed t (assigned cols vs r)" by auto
  moreover have "has_type ty (stored k v)" using coerce_stored [OF c(2)] by auto
  ultimately show ?case using c(1) by (simp add: values_typed_def)
qed simp_all

section \<open>Constraints\<close>

definition unique_ok :: "table \<Rightarrow> row list \<Rightarrow> bool" where
  "unique_ok t rows \<longleftrightarrow> distinct (map (\<lambda>r. r C_id) rows) \<and>
     (t = Payments \<longrightarrow>
        distinct (filter (\<lambda>v. v \<noteq> VNull) (map (\<lambda>r. r C_idempotency_key) rows)))"

definition foreign_keys_ok :: "(table \<Rightarrow> row list) \<Rightarrow> bool" where
  "foreign_keys_ok T \<longleftrightarrow>
     list_all (\<lambda>r. r C_payment_id \<in> set (map (\<lambda>q. q C_id) (T Payments))) (T Refunds) \<and>
     list_all (\<lambda>r. r C_payment_id \<in> set (map (\<lambda>q. q C_id) (T Payments)) \<and>
       (r C_refund_id = VNull \<or> r C_refund_id \<in> set (map (\<lambda>q. q C_id) (T Refunds))))
       (T Transactions)"

definition tables_ok :: "(table \<Rightarrow> row list) \<Rightarrow> bool" where
  "tables_ok T \<longleftrightarrow> (\<forall>t. (\<forall>r \<in> set (T t). row_ok t r) \<and> unique_ok t (T t)) \<and> foreign_keys_ok T"

text \<open>A table gets new rows; what the statement is refused for, if anything.\<close>

definition check_rows :: "table \<Rightarrow> row list \<Rightarrow> (table \<Rightarrow> row list) \<Rightarrow> go_error option" where
  "check_rows t rows T =
     (if \<not> list_all (not_null_ok t) rows
      then Some (PgError ''23502'' ''null value violates not-null constraint'')
      else if \<not> unique_ok t rows
      then Some (PgError ''23505'' ''duplicate key value violates unique constraint'')
      else if \<not> foreign_keys_ok (T(t := rows))
      then Some (PgError ''23503'' ''violates foreign key constraint'')
      else None)"

lemma check_rows_ok:
  assumes "tables_ok T" "check_rows t rows T = None" "\<And>r. r \<in> set rows \<Longrightarrow> values_typed t r"
  shows "tables_ok (T(t := rows))"
  using assms
  by (auto simp: tables_ok_def check_rows_def row_ok_split list_all_iff split: if_splits)

fun run_statement :: "statement \<Rightarrow> sql_value list \<Rightarrow> (table \<Rightarrow> row list) \<Rightarrow>
    go_error + nat \<times> (table \<Rightarrow> row list)" where
  "run_statement (Insert t cols) args T =
     (case check_values t cols args of
        Some e \<Rightarrow> Inl e
      | None \<Rightarrow>
          (let rows = T t @ [assigned cols args (\<lambda>_. VNull)]
           in case check_rows t rows T of Some e \<Rightarrow> Inl e | None \<Rightarrow> Inr (1, T(t := rows))))"
| "run_statement (Update t cols c) (key # args) T =
     (case check_values t cols args of
        Some e \<Rightarrow> Inl e
      | None \<Rightarrow>
          (let rows = map (\<lambda>r. if r c = key then assigned cols args r else r) (T t)
           in case check_rows t rows T of
                Some e \<Rightarrow> Inl e
              | None \<Rightarrow> Inr (length (filter (\<lambda>r. r c = key) (T t)), T(t := rows))))"
| "run_statement (Update t cols c) [] T = Inl (PgError ''08P01'' ''wrong number of parameters'')"

lemma null_row_typed: "values_typed t (\<lambda>_. VNull)"
  by (simp add: values_typed_def split: option.split)

lemma run_statement_ok:
  "tables_ok T \<Longrightarrow> run_statement st args T = Inr (n, T') \<Longrightarrow> tables_ok T'"
proof (induction st args T rule: run_statement.induct)
  case (1 t cols args T)
  then have "check_values t cols args = None"
    and c: "check_rows t (T t @ [assigned cols args (\<lambda>_. VNull)]) T = None"
      "T' = T(t := T t @ [assigned cols args (\<lambda>_. VNull)])"
    by (auto simp: Let_def split: option.splits)
  then have "values_typed t (assigned cols args (\<lambda>_. VNull))"
    by (intro assigned_typed null_row_typed)
  with 1(1) show ?case unfolding c(2)
    by (intro check_rows_ok c(1)) (auto simp: tables_ok_def row_ok_split)
next
  case (2 t cols c key args T)
  let ?rows = "map (\<lambda>r. if r c = key then assigned cols args r else r) (T t)"
  from 2 have v: "check_values t cols args = None" and c: "check_rows t ?rows T = None"
    "T' = T(t := ?rows)"
    by (auto simp: Let_def split: option.splits)
  have "\<And>r. r \<in> set (T t) \<Longrightarrow> values_typed t r" using 2(1) by (auto simp: tables_ok_def row_ok_split)
  with 2(1) v show ?case unfolding c(2)
    by (intro check_rows_ok c(1)) (auto intro: assigned_typed)
qed simp

section \<open>The server\<close>

text \<open>\<open>pg_faults n\<close> is the failure that strikes the \<open>n\<close>-th call, if any; after an error a
  transaction only takes a ROLLBACK.  \<open>pg_locks\<close> are the rows the running transaction has locked with
  SELECT ... FOR UPDATE, by table and id.\<close>

record pg =
  pg_tables :: "table \<Rightarrow> row list"
  pg_saved :: "table \<Rightarrow> row list"
  pg_aborted :: bool
  pg_faults :: "nat \<Rightarrow> string option"
  pg_calls :: nat
  pg_locks :: "(table \<times> sql_value) list"

definition pg_empty :: pg where
  "pg_empty = \<lparr>pg_tables = (\<lambda>_. []), pg_saved = (\<lambda>_. []), pg_aborted = False,
     pg_faults = (\<lambda>_. None), pg_calls = 0, pg_locks = []\<rparr>"

definition pg_ok :: "pg \<Rightarrow> bool" where
  "pg_ok db \<longleftrightarrow> tables_ok (pg_tables db) \<and> tables_ok (pg_saved db)"

lemma pg_empty_ok: "pg_ok pg_empty"
  by (simp add: pg_ok_def pg_empty_def tables_ok_def unique_ok_def foreign_keys_ok_def)

definition on_db :: "(pg \<Rightarrow> (go_error + 'a) \<times> pg) \<Rightarrow> (pg, 'x, 'a) go" where
  "on_db f w = (case f (w_db w) of (r, db) \<Rightarrow> (r, w\<lparr>w_db := db\<rparr>))"

lemma on_db_quiet: "steps quiet (on_db f)"
  by (auto simp: steps_def on_db_def quiet_def split: prod.splits)

lemma on_db_steps: "(\<And>db. P db (snd (f db))) \<Longrightarrow> steps (\<lambda>w w'. P (w_db w) (w_db w')) (on_db f)"
  by (auto simp: steps_def on_db_def split: prod.splits) (metis snd_conv)

lemma on_db_eq: "on_db f w = (r, w') \<longleftrightarrow> (\<exists>db. f (w_db w) = (r, db) \<and> w' = w\<lparr>w_db := db\<rparr>)"
  by (auto simp: on_db_def split: prod.splits)

text \<open>A call of the server: the failure scheduled for it, or what it does.\<close>

definition pg_call :: "bool \<Rightarrow> (pg \<Rightarrow> (go_error + 'a) \<times> pg) \<Rightarrow> pg \<Rightarrow> (go_error + 'a) \<times> pg" where
  "pg_call in_tx f db0 =
     (let db = db0\<lparr>pg_calls := Suc (pg_calls db0)\<rparr>
      in case pg_faults db0 (pg_calls db0) of
           Some m \<Rightarrow> (Inl (ErrText m), db\<lparr>pg_aborted := True\<rparr>)
         | None \<Rightarrow>
             if in_tx \<and> pg_aborted db0
             then (Inl (PgError ''25P02'' ''current transaction is aborted''), db)
             else f db)"

definition pg_exec :: "statement \<Rightarrow> sql_value list \<Rightarrow> pg \<Rightarrow> (go_error + nat) \<times> pg" where
  "pg_exec st args db =
     (case run_statement st args (pg_tables db) of
        Inl e \<Rightarrow> (Inl e, db\<lparr>pg_aborted := True\<rparr>)
      | Inr (n, T) \<Rightarrow> (Inr n, db\<lparr>pg_tables := T\<rparr>))"

definition select_rows :: "select \<Rightarrow> sql_value \<Rightarrow> (table \<Rightarrow> row list) \<Rightarrow> row list" where
  "select_rows sel arg T =
     (let found = filter (\<lambda>r. arg \<noteq> VNull \<and> r (sel_where sel) = arg) (T (sel_table sel));
          sorted = (if sel_newest_first sel
                    then sort_key (\<lambda>r. - time_of (r C_created_at)) found else found)
      in if sel_limit_one sel then take 1 sorted else sorted)"

text \<open>A row that is read FOR UPDATE stays locked to the end of the transaction; outside of one the
  lock ends with the statement.  (INSERT and UPDATE lock the rows they write as well, but only then, when
  the transaction has already read; such a lock does not protect what was read.)\<close>

definition lock_rows :: "bool \<Rightarrow> select \<Rightarrow> row list \<Rightarrow> pg \<Rightarrow> pg" where
  "lock_rows in_tx sel rows db =
     (if in_tx \<and> sel_for_update sel
      then db\<lparr>pg_locks := map (\<lambda>r. (sel_table sel, r C_id)) rows @ pg_locks db\<rparr> else db)"

definition pg_select :: "bool \<Rightarrow> select \<Rightarrow> sql_value list \<Rightarrow> pg \<Rightarrow> (go_error + row list) \<times> pg" where
  "pg_select in_tx sel args db =
     (case args of
        [arg] \<Rightarrow> (let rows = select_rows sel arg (pg_tables db) in (Inr rows, lock_rows in_tx sel rows db))
      | _ \<Rightarrow> (Inl (PgError ''08P01'' ''wrong number of parameters''), db\<lparr>pg_aborted := True\<rparr>))"

definition pg_query :: "bool \<Rightarrow> select \<Rightarrow> sql_value list \<Rightarrow> pg \<Rightarrow>
    (go_error + sql_value list list \<times> go_error option) \<times> pg" where
  "pg_query in_tx sel args db =
     (case pg_select in_tx sel args db of
        (Inl e, db') \<Rightarrow> (Inl e, db')
      | (Inr rows, db') \<Rightarrow> (Inr (map (select_row (sel_columns sel)) rows, None), db'))"

definition pg_query_row :: "bool \<Rightarrow> select \<Rightarrow> sql_value list \<Rightarrow> pg \<Rightarrow> (go_error + sql_value list) \<times> pg" where
  "pg_query_row in_tx sel args db =
     (case pg_select in_tx sel args db of
        (Inl e, db') \<Rightarrow> (Inl e, db')
      | (Inr [], db') \<Rightarrow> (Inl ErrNoRows, db')
      | (Inr (r # _), db') \<Rightarrow> (Inr (select_row (sel_columns sel) r), db'))"

definition pg_querier :: "bool \<Rightarrow> (pg, 'x) querier" where
  "pg_querier in_tx =
     \<lparr>q_Exec = (\<lambda>st args. on_db (pg_call in_tx (pg_exec st args))),
      q_Query = (\<lambda>sel args. on_db (pg_call in_tx (pg_query in_tx sel args))),
      q_QueryRow = (\<lambda>sel args. on_db (pg_call in_tx (pg_query_row in_tx sel args)))\<rparr>"

text \<open>BEGIN remembers the tables; a COMMIT that fails, or finds the transaction aborted, and a
  ROLLBACK put them back.\<close>

definition pg_begin :: "pg \<Rightarrow> (go_error + unit) \<times> pg" where
  "pg_begin db = (Inr (), db\<lparr>pg_saved := pg_tables db, pg_aborted := False, pg_locks := []\<rparr>)"

definition pg_commit :: "pg \<Rightarrow> (go_error + unit) \<times> pg" where
  "pg_commit db =
     (if pg_aborted db \<or> pg_faults db (pg_calls db) \<noteq> None
      then (Inl (ErrText ''commit unexpectedly resulted in rollback''),
            db\<lparr>pg_tables := pg_saved db, pg_aborted := False, pg_calls := Suc (pg_calls db), pg_locks := []\<rparr>)
      else (Inr (), db\<lparr>pg_calls := Suc (pg_calls db), pg_locks := []\<rparr>))"

definition pg_rollback :: "pg \<Rightarrow> (go_error + unit) \<times> pg" where
  "pg_rollback db =
     (case pg_faults db (pg_calls db) of Some m \<Rightarrow> Inl (ErrText m) | None \<Rightarrow> Inr (),
      db\<lparr>pg_tables := pg_saved db, pg_aborted := False, pg_calls := Suc (pg_calls db), pg_locks := []\<rparr>)"

definition pg_ping :: "pg \<Rightarrow> (go_error + unit) \<times> pg" where
  "pg_ping db = (Inr (), db)"

definition pg_pool :: "(pg, 'x) pool" where
  "pg_pool =
     \<lparr>pool_Ping = on_db (pg_call False pg_ping), pool_querier = pg_querier False,
      pool_Begin = on_db (pg_call False pg_begin), pool_tx = pg_querier True,
      tx_Commit = on_db pg_commit, tx_Rollback = on_db pg_rollback\<rparr>"

section \<open>The server keeps the contract\<close>

lemma pg_call_cases:
  assumes "pg_call in_tx f db = (r, db')"
  obtains m where "r = Inl (ErrText m)" "db' = db\<lparr>pg_calls := Suc (pg_calls db), pg_aborted := True\<rparr>"
  | "r = Inl (PgError ''25P02'' ''current transaction is aborted'')"
    "db' = db\<lparr>pg_calls := Suc (pg_calls db)\<rparr>"
  | "f (db\<lparr>pg_calls := Suc (pg_calls db)\<rparr>) = (r, db')"
proof (cases "pg_faults db (pg_calls db)")
  case (Some m)
  show thesis by (rule that(1) [of m]) (use assms Some in \<open>simp_all add: pg_call_def Let_def\<close>)
next
  case None
  show thesis
  proof (cases "in_tx \<and> pg_aborted db")
    case True
    show thesis by (rule that(2)) (use assms None True in \<open>simp_all add: pg_call_def Let_def\<close>)
  next
    case False
    show thesis
      by (rule that(3)) (use assms None False in \<open>simp add: pg_call_def Let_def split: if_splits\<close>)
  qed
qed

lemma pg_exec_cases:
  assumes "pg_exec st args db = (r, db')"
  obtains e where "r = Inl e" "db' = db\<lparr>pg_aborted := True\<rparr>"
  | n T where "run_statement st args (pg_tables db) = Inr (n, T)" "r = Inr n"
    "db' = db\<lparr>pg_tables := T\<rparr>"
  using assms by (auto simp: pg_exec_def split: sum.splits prod.splits)

lemma pg_exec_result:
  assumes "pg_call b (pg_exec st args) db = (r, db')"
  shows "pg_saved db' = pg_saved db \<and>
    ((\<exists>e. r = Inl e \<and> pg_tables db' = pg_tables db) \<or>
     (\<exists>n. r = Inr n \<and> run_statement st args (pg_tables db) = Inr (n, pg_tables db')))"
  using assms by (rule pg_call_cases) (auto elim!: pg_exec_cases)

lemma pg_select_cases:
  "pg_select in_tx sel args db = (r, db') \<Longrightarrow> pg_tables db' = pg_tables db \<and> pg_saved db' = pg_saved db \<and>
     ((\<exists>e. r = Inl e \<and> \<not> errors_Is e ErrNoRows) \<or>
      (\<exists>arg. args = [arg] \<and> r = Inr (select_rows sel arg (pg_tables db))))"
  by (auto simp: pg_select_def lock_rows_def Let_def split: list.splits)

lemma pg_query_result:
  assumes "pg_call b (pg_query b sel args) db = (r, db')"
  shows "pg_tables db' = pg_tables db \<and> pg_saved db' = pg_saved db \<and>
    ((\<exists>e. r = Inl e) \<or>
     (\<exists>arg. args = [arg] \<and>
       r = Inr (map (select_row (sel_columns sel)) (select_rows sel arg (pg_tables db)), None)))"
  using assms
  by (rule pg_call_cases)
    (auto simp: pg_query_def split: prod.splits sum.splits dest!: pg_select_cases)

lemma pg_query_row_result:
  assumes "pg_call b (pg_query_row b sel args) db = (r, db')"
  shows "pg_tables db' = pg_tables db \<and> pg_saved db' = pg_saved db \<and>
    ((\<exists>e. r = Inl e \<and> \<not> errors_Is e ErrNoRows) \<or>
     (\<exists>arg. args = [arg] \<and>
       r = (case select_rows sel arg (pg_tables db) of
              [] \<Rightarrow> Inl ErrNoRows | x # _ \<Rightarrow> Inr (select_row (sel_columns sel) x))))"
  using assms
  by (rule pg_call_cases)
    (auto simp: pg_query_row_def split: prod.splits sum.splits list.splits dest!: pg_select_cases)

lemma select_rows_newest:
  assumes "\<not> sel_limit_one sel" "sel_newest_first sel"
  shows "sorted_wrt (\<lambda>r r'. time_of (r' C_created_at) \<le> time_of (r C_created_at))
    (select_rows sel arg T)"
proof -
  have "sorted (map (\<lambda>r. - time_of (r C_created_at))
      (sort_key (\<lambda>r. - time_of (r C_created_at)) xs))" for xs :: "row list" by simp
  then show ?thesis using assms by (simp add: select_rows_def Let_def sorted_wrt_map)
qed

lemma select_rows_mset:
  "\<not> sel_limit_one sel \<Longrightarrow> arg \<noteq> VNull \<Longrightarrow>
     mset (select_rows sel arg T) = mset (filter (\<lambda>r. r (sel_where sel) = arg) (T (sel_table sel)))"
  by (simp add: select_rows_def Let_def)

lemma select_rows_first:
  assumes "select_rows sel arg T = r # rs"
  shows "r \<in> set (T (sel_table sel)) \<and> r (sel_where sel) = arg \<and>
    (sel_newest_first sel \<longrightarrow> (\<forall>r' \<in> set (T (sel_table sel)). r' (sel_where sel) = arg \<longrightarrow>
       time_of (r' C_created_at) \<le> time_of (r C_created_at)))"
proof -
  let ?found = "filter (\<lambda>r. arg \<noteq> VNull \<and> r (sel_where sel) = arg) (T (sel_table sel))"
  let ?key = "\<lambda>r :: row. - time_of (r C_created_at)"
  define ys where "ys = (if sel_newest_first sel then sort_key ?key ?found else ?found)"
  have "\<exists>rs'. ys = r # rs'"
    using assms by (cases ys) (auto simp: select_rows_def Let_def ys_def split: if_splits)
  then obtain rs' where ys: "ys = r # rs'" ..
  have set: "set ys = set ?found" by (simp add: ys_def)
  from ys set have "r \<in> set ?found" by (metis list.set_intros(1))
  moreover have "?key r \<le> ?key r'" if "sel_newest_first sel" "r' \<in> set ?found" for r'
  proof -
    have "sorted (map ?key ys)" using that(1) by (simp add: ys_def)
    with ys set that(2) show ?thesis by auto
  qed
  ultimately show ?thesis by auto
qed

lemma select_rows_empty:
  assumes "select_rows sel arg T = []" "arg \<noteq> VNull" "r \<in> set (T (sel_table sel))"
  shows "r (sel_where sel) \<noteq> arg"
proof -
  have e: "sort_key f xs = [] \<longleftrightarrow> xs = []" for f :: "row \<Rightarrow> int" and xs
    by (metis length_0_conv length_sort)
  have "filter (\<lambda>r. arg \<noteq> VNull \<and> r (sel_where sel) = arg) (T (sel_table sel)) = []"
    using assms(1) by (auto simp: select_rows_def Let_def e split: if_splits)
  with assms(2,3) show ?thesis by (auto simp: filter_empty_conv)
qed

lemma insert_allowed_pg:
  assumes T: "tables_ok T" and run: "run_statement (Insert t cols) args T = Inr (n, T')"
  shows "insert_allowed T t (assigned cols args (\<lambda>_. VNull)) \<and>
    T' = T(t := T t @ [assigned cols args (\<lambda>_. VNull)])"
proof -
  let ?r = "assigned cols args (\<lambda>_. VNull)"
  from run have T': "T' = T(t := T t @ [?r])"
    by (auto simp: Let_def split: option.splits)
  from run_statement_ok [OF T run] have u: "unique_ok t (T t @ [?r])" and f: "foreign_keys_ok T'"
    unfolding T' tables_ok_def by (metis fun_upd_same, metis T')
  have "?r C_id \<notin> (\<lambda>q. q C_id) ` set (T t)" using u by (auto simp: unique_ok_def)
  moreover have "t = Payments \<longrightarrow> ?r C_idempotency_key = VNull \<or>
      ?r C_idempotency_key \<notin> (\<lambda>q. q C_idempotency_key) ` set (T Payments)"
    using u by (auto simp: unique_ok_def)
  moreover have "t \<noteq> Payments \<longrightarrow> ?r C_payment_id \<in> (\<lambda>q. q C_id) ` set (T Payments)"
    using f by (cases t) (auto simp: foreign_keys_ok_def T')
  moreover have "t = Transactions \<longrightarrow> ?r C_refund_id = VNull \<or>
      ?r C_refund_id \<in> (\<lambda>q. q C_id) ` set (T Refunds)"
    using f by (auto simp: foreign_keys_ok_def T')
  ultimately show ?thesis using T' by (simp add: insert_allowed_def)
qed

lemma pg_sql_tables: "sql_tables (pg_querier b) pg_tables pg_ok"
proof
  fix db r t assume "pg_ok db" "r \<in> set (pg_tables db t)"
  then show "row_ok t r" by (auto simp: pg_ok_def tables_ok_def)
next
  fix db t assume "pg_ok db"
  then show "distinct (map (\<lambda>r. r C_id) (pg_tables db t))"
    by (auto simp: pg_ok_def tables_ok_def unique_ok_def)
next
  fix sel args
  show "steps (same_tables pg_tables pg_ok) (q_Query (pg_querier b :: (pg, 'x) querier) sel args)"
    by (auto simp: steps_def pg_querier_def on_db_eq same_tables_def pg_ok_def
        dest!: pg_query_result)
  show "steps (same_tables pg_tables pg_ok) (q_QueryRow (pg_querier b :: (pg, 'x) querier) sel args)"
    by (auto simp: steps_def pg_querier_def on_db_eq same_tables_def pg_ok_def
        dest!: pg_query_row_result)
next
  fix st args sel
  show "steps quiet (q_Exec (pg_querier b :: (pg, 'x) querier) st args)"
    "steps quiet (q_Query (pg_querier b :: (pg, 'x) querier) sel args)"
    "steps quiet (q_QueryRow (pg_querier b :: (pg, 'x) querier) sel args)"
    by (simp_all add: pg_querier_def on_db_quiet)
qed

lemma pg_executes: "sql_executes (pg_querier b) pg_tables pg_ok"
proof (intro sql_executes.intro pg_sql_tables sql_executes_axioms.intro)
  fix w :: "(pg, 'x) world" and st args res w'
  assume "pg_ok (w_db w)" "q_Exec (pg_querier b) st args w = (res, w')"
  then show "pg_ok (w_db w')"
    by (auto simp: pg_querier_def on_db_eq pg_ok_def dest!: pg_exec_result
        dest: run_statement_ok)
next
  fix w :: "(pg, 'x) world" and st args e w'
  assume "q_Exec (pg_querier b) st args w = (Inl e, w')"
  then show "pg_tables (w_db w') = pg_tables (w_db w)"
    by (auto simp: pg_querier_def on_db_eq dest!: pg_exec_result)
next
  fix w :: "(pg, 'x) world" and t cols args n w'
  assume "pg_ok (w_db w)" "q_Exec (pg_querier b) (Insert t cols) args w = (Inr n, w')"
  then have "tables_ok (pg_tables (w_db w))"
    "run_statement (Insert t cols) args (pg_tables (w_db w)) = Inr (n, pg_tables (w_db w'))"
    by (auto simp: pg_querier_def on_db_eq pg_ok_def dest!: pg_exec_result)
  then show "insert_allowed (pg_tables (w_db w)) t (assigned cols args (\<lambda>_. VNull)) \<and>
      pg_tables (w_db w') = (pg_tables (w_db w))(t := pg_tables (w_db w) t @
        [assigned cols args (\<lambda>_. VNull)])"
    by (rule insert_allowed_pg)
next
  fix w :: "(pg, 'x) world" and t cols c key args n w'
  assume "q_Exec (pg_querier b) (Update t cols c) (key # args) w = (Inr n, w')"
  then have "run_statement (Update t cols c) (key # args) (pg_tables (w_db w)) =
      Inr (n, pg_tables (w_db w'))"
    by (auto simp: pg_querier_def on_db_eq dest!: pg_exec_result)
  then show "n = length (filter (\<lambda>r. r c = key) (pg_tables (w_db w) t)) \<and>
      pg_tables (w_db w') = (pg_tables (w_db w))(t :=
        map (\<lambda>r. if r c = key then assigned cols args r else r) (pg_tables (w_db w) t))"
    by (auto simp: Let_def split: option.splits)
qed

lemma pg_queries: "sql_queries (pg_querier b) pg_tables pg_ok"
proof (intro sql_queries.intro pg_sql_tables sql_queries_axioms.intro)
  fix w :: "(pg, 'x) world" and sel arg vals w'
  assume run: "q_Query (pg_querier b) sel [arg] w = (Inr (vals, None), w')"
    and a: "arg \<noteq> VNull" "\<not> sel_limit_one sel"
  let ?rs = "select_rows sel arg (pg_tables (w_db w))"
  have "vals = map (select_row (sel_columns sel)) ?rs"
    using run by (auto simp: pg_querier_def on_db_eq dest!: pg_query_result)
  with select_rows_mset [OF a(2,1)] select_rows_newest [OF a(2)] show
    "\<exists>rs. vals = map (select_row (sel_columns sel)) rs \<and>
        mset rs = mset (filter (\<lambda>r. r (sel_where sel) = arg) (pg_tables (w_db w) (sel_table sel))) \<and>
        (sel_newest_first sel \<longrightarrow>
           sorted_wrt (\<lambda>r r'. time_of (r' C_created_at) \<le> time_of (r C_created_at)) rs)"
    by blast
next
  fix w :: "(pg, 'x) world" and sel arg v w'
  assume "q_QueryRow (pg_querier b) sel [arg] w = (Inr v, w')"
  then obtain r rs where "select_rows sel arg (pg_tables (w_db w)) = r # rs"
    "v = select_row (sel_columns sel) r"
    by (auto simp: pg_querier_def on_db_eq dest!: pg_query_row_result split: list.splits)
  with select_rows_first [of sel arg "pg_tables (w_db w)" r rs] show
    "\<exists>r \<in> set (pg_tables (w_db w) (sel_table sel)). r (sel_where sel) = arg \<and>
        v = select_row (sel_columns sel) r \<and>
        (sel_newest_first sel \<longrightarrow> (\<forall>r' \<in> set (pg_tables (w_db w) (sel_table sel)).
           r' (sel_where sel) = arg \<longrightarrow> time_of (r' C_created_at) \<le> time_of (r C_created_at)))"
    by blast
next
  fix w :: "(pg, 'x) world" and sel arg e w' r
  assume run: "q_QueryRow (pg_querier b) sel [arg] w = (Inl e, w')" and a: "arg \<noteq> VNull"
    and e: "errors_Is e ErrNoRows" and r: "r \<in> set (pg_tables (w_db w) (sel_table sel))"
  from run e have "select_rows sel arg (pg_tables (w_db w)) = []"
    by (auto simp: pg_querier_def on_db_eq dest!: pg_query_row_result split: list.splits)
  from select_rows_empty [OF this a r] show "r (sel_where sel) \<noteq> arg" .
qed

lemma pg_database: "sql_database (pg_querier b) pg_tables pg_ok"
  by (intro sql_database.intro pg_executes pg_queries)

lemma pg_tx_saved:
  "steps (\<lambda>w w'. pg_saved (w_db w') = pg_saved (w_db w)) (q_Exec (pool_tx (pg_pool :: (pg, 'x) pool)) st v)"
  "steps (\<lambda>w w'. pg_saved (w_db w') = pg_saved (w_db w)) (q_Query (pool_tx (pg_pool :: (pg, 'x) pool)) sel v)"
  "steps (\<lambda>w w'. pg_saved (w_db w') = pg_saved (w_db w)) (q_QueryRow (pool_tx (pg_pool :: (pg, 'x) pool)) sel v)"
  by (auto simp: steps_def pg_pool_def pg_querier_def on_db_eq
      dest!: pg_exec_result pg_query_result pg_query_row_result)

lemma pg_pool_laws: "sql_pool pg_pool pg_tables pg_ok pg_saved"
proof (intro sql_pool.intro sql_pool_axioms.intro)
  show "sql_database (pool_querier pg_pool) pg_tables pg_ok"
    "sql_database (pool_tx pg_pool) pg_tables pg_ok"
    by (simp_all add: pg_pool_def pg_database)
next
  fix st v sel
  show "steps (\<lambda>w w'. pg_saved (w_db w') = pg_saved (w_db w)) (q_Exec (pool_tx (pg_pool :: (pg, 'x) pool)) st v)"
    "steps (\<lambda>w w'. pg_saved (w_db w') = pg_saved (w_db w)) (q_Query (pool_tx (pg_pool :: (pg, 'x) pool)) sel v)"
    "steps (\<lambda>w w'. pg_saved (w_db w') = pg_saved (w_db w)) (q_QueryRow (pool_tx (pg_pool :: (pg, 'x) pool)) sel v)"
    by (rule pg_tx_saved)+
next
  fix w :: "(pg, 'x) world" and u w'
  assume "pg_ok (w_db w)" "pool_Begin pg_pool w = (Inr u, w')"
  then show "pg_ok (w_db w') \<and> pg_tables (w_db w') = pg_tables (w_db w) \<and>
      pg_saved (w_db w') = pg_tables (w_db w)"
    by (auto simp: pg_pool_def on_db_eq pg_ok_def pg_begin_def elim!: pg_call_cases)
next
  fix w :: "(pg, 'x) world" and e w'
  assume "pg_ok (w_db w)" "pool_Begin pg_pool w = (Inl e, w')"
  then show "pg_ok (w_db w') \<and> pg_tables (w_db w') = pg_tables (w_db w)"
    by (auto simp: pg_pool_def on_db_eq pg_ok_def pg_begin_def elim!: pg_call_cases)
next
  fix w :: "(pg, 'x) world" and u w'
  assume "pg_ok (w_db w)" "tx_Commit pg_pool w = (Inr u, w')"
  then show "pg_ok (w_db w') \<and> pg_tables (w_db w') = pg_tables (w_db w)"
    by (auto simp: pg_pool_def on_db_eq pg_ok_def pg_commit_def split: if_splits)
next
  fix w :: "(pg, 'x) world" and e w'
  assume "pg_ok (w_db w)" "tx_Commit pg_pool w = (Inl e, w')"
  then show "pg_ok (w_db w') \<and> pg_tables (w_db w') = pg_saved (w_db w)"
    by (auto simp: pg_pool_def on_db_eq pg_ok_def pg_commit_def split: if_splits)
next
  fix w :: "(pg, 'x) world" and res w'
  assume "pg_ok (w_db w)" "tx_Rollback pg_pool w = (res, w')"
  then show "pg_ok (w_db w') \<and> pg_tables (w_db w') = pg_saved (w_db w)"
    by (auto simp: pg_pool_def on_db_eq pg_ok_def pg_rollback_def)
next
  show "steps quiet (pool_Begin (pg_pool :: (pg, 'x) pool))"
    "steps quiet (tx_Commit (pg_pool :: (pg, 'x) pool))"
    "steps quiet (tx_Rollback (pg_pool :: (pg, 'x) pool))"
    "steps quiet (pool_Ping (pg_pool :: (pg, 'x) pool))"
    by (simp_all add: pg_pool_def on_db_quiet)
qed

section \<open>Interpretations\<close>

text \<open>The process's surroundings with these libraries.\<close>

definition with_libs :: "exact env \<Rightarrow> exact env" where
  "with_libs E = E\<lparr>E_dec := exact_ops, E_uuid_parse := uuid_parse, E_uuid_string := uuid_text\<rparr>"

lemma with_libs_laws: "sql_library exact_ops exact_val (with_libs E)"
  by (intro sql_library.intro sql_library_axioms.intro exact.decimal_laws_axioms)
    (simp_all add: with_libs_def uuid_parse_text)

interpretation pg: sql_pool pg_pool pg_tables pg_ok pg_saved
  by (rule pg_pool_laws)

interpretation store: sql_service exact_ops exact_val "with_libs E" pg_pool pg_tables pg_ok pg_saved
  for E
  by (intro sql_service.intro with_libs_laws pg_pool_laws)

end
