(* ===== verification/Config.thy ===== *)
theory Config
  imports Runtime
begin

text \<open>
  \<open>go/internal/config/config.go\<close>: the configuration read from the environment, and the
  connection URI.  The environment is a function (\<open>os.Getenv\<close> returns the empty string for an
  unset variable).  \<open>strconv.Atoi\<close>, \<open>strconv.ParseBool\<close> and \<open>url.QueryEscape\<close> are modelled;
  \<open>strconv.ParseFloat\<close>, used for the failure rate of the mock gateway alone, is a parameter.
\<close>

section \<open>Parsing\<close>

text \<open>\<open>strconv.Atoi\<close> on a 64-bit machine: an optional sign, decimal digits, in range.\<close>

definition Atoi :: "string \<Rightarrow> int option" where
  "Atoi s =
     (let neg = (s \<noteq> [] \<and> hd s = CHR ''-'');
          signed = (s \<noteq> [] \<and> (hd s = CHR ''-'' \<or> hd s = CHR ''+''));
          body = (if signed then tl s else s);
          n = (if neg then - 1 else 1) * int (nat_of_digits 0 body)
      in if body \<noteq> [] \<and> list_all is_digit body \<and> - (2 ^ 63) \<le> n \<and> n < 2 ^ 63 then Some n
         else None)"

definition ParseBool :: "string \<Rightarrow> bool option" where
  "ParseBool s =
     (if s \<in> {''1'', ''t'', ''T'', ''TRUE'', ''true'', ''True''} then Some True
      else if s \<in> {''0'', ''f'', ''F'', ''FALSE'', ''false'', ''False''} then Some False
      else None)"

section \<open>Environment variables\<close>

type_synonym environ = "string \<Rightarrow> string"

definition stringEnv :: "environ \<Rightarrow> string \<Rightarrow> string \<Rightarrow> string" where
  "stringEnv getenv name def = (let v = getenv name in if v \<noteq> [] then v else def)"

definition intEnv :: "environ \<Rightarrow> string \<Rightarrow> int \<Rightarrow> int" where
  "intEnv getenv name def =
     (let v = getenv name
      in if v = [] then def else (case Atoi v of None \<Rightarrow> def | Some n \<Rightarrow> n))"

definition floatEnv :: "(string \<Rightarrow> go_float option) \<Rightarrow> environ \<Rightarrow> string \<Rightarrow> go_float \<Rightarrow> go_float"
  where
  "floatEnv parse getenv name def =
     (let v = getenv name
      in if v = [] then def else (case parse v of None \<Rightarrow> def | Some n \<Rightarrow> n))"

definition boolEnv :: "environ \<Rightarrow> string \<Rightarrow> bool \<Rightarrow> bool" where
  "boolEnv getenv name def =
     (let v = getenv name
      in if v = [] then def else (case ParseBool v of None \<Rightarrow> def | Some n \<Rightarrow> n))"

section \<open>The configuration\<close>

record config =
  ServerPort :: int
  DBHost :: string
  DBPort :: int
  DBName :: string
  DBUsername :: string
  DBPassword :: string
  DBSSLMode :: string
  RabbitMQHost :: string
  RabbitMQPort :: int
  RabbitMQVHost :: string
  RabbitMQUsername :: string
  RabbitMQPassword :: string
  RabbitMQVaultEnabled :: bool
  PaymentGatewayDefault :: string
  MockGatewayEnabled :: bool
  StripeEnabled :: bool
  StripeAPIKey :: string
  StripeWebhookSecret :: string
  PayPalEnabled :: bool
  PayPalClientID :: string
  PayPalClientSecret :: string
  PayPalMode :: string
  MockGatewayDelayMS :: int
  MockGatewayFailureRate :: go_float
  EncryptionEnabled :: bool
  EncryptionKey :: string
  RateLimitEnabled :: bool
  RateLimitPerSecond :: int
  RateLimitBurst :: int
  OAuth2Enabled :: bool
  OAuth2IssuerURI :: string
  OAuth2JWKSetURI :: string
  LogLevel :: string

definition Load :: "(string \<Rightarrow> go_float option) \<Rightarrow> environ \<Rightarrow> config" where
  "Load parse g =
     \<lparr>ServerPort = intEnv g ''SERVER_PORT'' 8084,
      DBHost = stringEnv g ''DB_HOST'' ''localhost'',
      DBPort = intEnv g ''DB_PORT'' 5432,
      DBName = stringEnv g ''DB_NAME'' ''payments'',
      DBUsername = stringEnv g ''DB_USERNAME'' ''postgres'',
      DBPassword = stringEnv g ''DB_PASSWORD'' [],
      DBSSLMode = stringEnv g ''DB_SSLMODE'' ''disable'',
      RabbitMQHost = stringEnv g ''RABBITMQ_HOST''
        ''rabbitmq.shopping-cart-data.svc.cluster.local'',
      RabbitMQPort = intEnv g ''RABBITMQ_PORT'' 5672,
      RabbitMQVHost = stringEnv g ''RABBITMQ_VHOST'' ''/'',
      RabbitMQUsername = stringEnv g ''RABBITMQ_USERNAME'' [],
      RabbitMQPassword = stringEnv g ''RABBITMQ_PASSWORD'' [],
      RabbitMQVaultEnabled = boolEnv g ''RABBITMQ_VAULT_ENABLED'' False,
      PaymentGatewayDefault = stringEnv g ''PAYMENT_GATEWAY_DEFAULT'' ''mock'',
      MockGatewayEnabled = boolEnv g ''MOCK_GATEWAY_ENABLED'' False,
      StripeEnabled = boolEnv g ''STRIPE_ENABLED'' False,
      StripeAPIKey = stringEnv g ''STRIPE_API_KEY'' [],
      StripeWebhookSecret = stringEnv g ''STRIPE_WEBHOOK_SECRET'' [],
      PayPalEnabled = boolEnv g ''PAYPAL_ENABLED'' False,
      PayPalClientID = stringEnv g ''PAYPAL_CLIENT_ID'' [],
      PayPalClientSecret = stringEnv g ''PAYPAL_CLIENT_SECRET'' [],
      PayPalMode = stringEnv g ''PAYPAL_MODE'' ''sandbox'',
      MockGatewayDelayMS = intEnv g ''MOCK_GATEWAY_DELAY_MS'' 500,
      MockGatewayFailureRate = floatEnv parse g ''MOCK_GATEWAY_FAILURE_RATE'' (Finite 0),
      EncryptionEnabled = boolEnv g ''ENCRYPTION_ENABLED'' True,
      EncryptionKey = stringEnv g ''ENCRYPTION_KEY'' [],
      RateLimitEnabled = boolEnv g ''RATE_LIMIT_ENABLED'' True,
      RateLimitPerSecond = intEnv g ''RATE_LIMIT_PER_SECOND'' 10,
      RateLimitBurst = intEnv g ''RATE_LIMIT_BURST'' 20,
      OAuth2Enabled = boolEnv g ''OAUTH2_ENABLED'' False,
      OAuth2IssuerURI = stringEnv g ''OAUTH2_ISSUER_URI''
        ''http://keycloak.identity.svc.cluster.local/realms/shopping-cart'',
      OAuth2JWKSetURI = stringEnv g ''OAUTH2_JWK_SET_URI''
        (''http://keycloak.identity.svc.cluster.local/realms/shopping-cart'' @
         ''/protocol/openid-connect/certs''),
      LogLevel = stringEnv g ''LOG_LEVEL'' ''INFO''\<rparr>"

section \<open>The connection URI\<close>

definition is_alnum :: "char \<Rightarrow> bool" where
  "is_alnum c \<longleftrightarrow> (let n = byte c in 48 \<le> n \<and> n \<le> 57 \<or> 65 \<le> n \<and> n \<le> 90 \<or> 97 \<le> n \<and> n \<le> 122)"

definition unreserved :: "char \<Rightarrow> bool" where
  "unreserved c \<longleftrightarrow> is_alnum c \<or> c \<in> set ''-_.~''"

definition upper_hex :: "nat \<Rightarrow> char" where
  "upper_hex n = (if n < 10 then char_of (48 + n) else char_of (55 + n))"

definition escape_byte :: "char \<Rightarrow> string" where
  "escape_byte c =
     (if unreserved c then [c] else if c = CHR '' '' then ''+''
      else [CHR ''%'', upper_hex (byte c div 16), upper_hex (byte c mod 16)])"

definition QueryEscape :: "string \<Rightarrow> string" where
  "QueryEscape s = concat (map escape_byte s)"

definition DatabaseURI :: "config \<Rightarrow> string" where
  "DatabaseURI c =
     (let sslMode = (if DBSSLMode c = [] then ''disable'' else DBSSLMode c)
      in ''postgres://'' @ QueryEscape (DBUsername c) @ '':'' @ QueryEscape (DBPassword c) @
         ''@'' @ DBHost c @ '':'' @ int_text (DBPort c) @ ''/'' @ DBName c @ ''?sslmode='' @
         QueryEscape sslMode)"

section \<open>Escaping\<close>

text \<open>Decoding as \<open>net/url\<close> does: a \<open>+\<close> is a space in a query, and a plus sign elsewhere.\<close>

definition hex_nibble :: "char \<Rightarrow> nat option" where
  "hex_nibble c = (let n = byte c in
     if 48 \<le> n \<and> n \<le> 57 then Some (n - 48)
     else if 97 \<le> n \<and> n \<le> 102 then Some (n - 87)
     else if 65 \<le> n \<and> n \<le> 70 then Some (n - 55) else None)"

fun url_unescape :: "bool \<Rightarrow> string \<Rightarrow> string option" where
  "url_unescape query [] = Some []"
| "url_unescape query (c # cs) =
     (if c = CHR ''%''
      then (case cs of
              h # l # rest \<Rightarrow>
                (case (hex_nibble h, hex_nibble l) of
                   (Some a, Some b) \<Rightarrow>
                     map_option ((#) (char_of (16 * a + b))) (url_unescape query rest)
                 | _ \<Rightarrow> None)
            | _ \<Rightarrow> None)
      else map_option ((#) (if query \<and> c = CHR ''+'' then CHR '' '' else c)) (url_unescape query cs))"

lemma hex_nibble_upper: "n < 16 \<Longrightarrow> hex_nibble (upper_hex n) = Some n"
  by (simp add: hex_nibble_def upper_hex_def Let_def byte_char_of)

lemma byte_nibble: "byte c div 16 < 16"
  using byte_less [of c] by (simp add: less_mult_imp_div_less)

lemma byte_split: "char_of (16 * (byte c div 16) + byte c mod 16) = c"
  by (simp add: mult.commute)

lemma unreserved_plain: "unreserved c \<Longrightarrow> c \<noteq> CHR ''%'' \<and> c \<noteq> CHR ''+'' \<and> c \<noteq> CHR '' ''"
  by (auto simp: unreserved_def is_alnum_def byte_def Let_def)

lemma unescape_escaped:
  "url_unescape query (escape_byte c @ s) =
     map_option ((#) (if c = CHR '' '' \<and> \<not> query then CHR ''+'' else c)) (url_unescape query s)"
  using unreserved_plain [of c] byte_split [of c]
  by (auto simp: escape_byte_def hex_nibble_upper byte_nibble)

lemma unescape_QueryEscape:
  "url_unescape query (QueryEscape s) =
     Some (map (\<lambda>c. if c = CHR '' '' \<and> \<not> query then CHR ''+'' else c) s)"
  by (induction s) (simp_all add: QueryEscape_def unescape_escaped)

definition uri_safe :: "char \<Rightarrow> bool" where
  "uri_safe c \<longleftrightarrow> unreserved c \<or> c = CHR ''%'' \<or> c = CHR ''+''"

lemma upper_hex_unreserved: "n < 16 \<Longrightarrow> unreserved (upper_hex n)"
  by (simp add: unreserved_def is_alnum_def upper_hex_def Let_def byte_char_of)

lemma QueryEscape_safe: "list_all uri_safe (QueryEscape s)"
  by (induction s)
    (auto simp: QueryEscape_def escape_byte_def uri_safe_def upper_hex_unreserved
      byte_nibble)

lemma Atoi_bounds: "Atoi s = Some n \<Longrightarrow> - (2 ^ 63) \<le> n \<and> n < 2 ^ 63"
  by (auto simp: Atoi_def Let_def split: if_splits)

section \<open>What is read of the URI\<close>

text \<open>
  A string that was escaped for a query is read back from it.
\<close>

theorem query_escape_read_back: "url_unescape True (QueryEscape s) = Some s"
  by (simp add: unescape_QueryEscape)

text \<open>
  Whatever the user name and the password are, neither can end the user part of the
  connection URI or start another one: what is written of them has no colon, at sign, slash,
  question mark or number sign.
\<close>

theorem userinfo_delimiters:
  "list_all (\<lambda>c. c \<notin> set '':@/?#'') (QueryEscape s)"
proof -
  have "uri_safe c \<Longrightarrow> c \<notin> set '':@/?#''" for c
    by (auto simp: uri_safe_def unreserved_def is_alnum_def byte_def Let_def)
  with QueryEscape_safe [of s] show ?thesis by (auto simp: list_all_iff)
qed

text \<open>How \<open>net/url\<close> reads the user part of a URI with this scheme: the authority ends at the first slash,
  question mark or number sign, the user part at the last at sign of the authority, and the user name
  at the first colon.\<close>

definition before_last :: "char \<Rightarrow> string \<Rightarrow> string" where
  "before_last c s = rev (tl (dropWhile (\<lambda>x. x \<noteq> c) (rev s)))"

definition uri_userinfo :: "string \<Rightarrow> (string \<times> string) option" where
  "uri_userinfo uri =
     (let authority = takeWhile (\<lambda>c. c \<notin> set ''/?#'') (drop (length ''postgres://'') uri);
          userinfo = before_last (CHR ''@'') authority
      in if \<not> HasPrefix uri ''postgres://'' \<or> CHR ''@'' \<notin> set authority then None
         else case (url_unescape False (takeWhile (\<lambda>c. c \<noteq> CHR '':'') userinfo),
                    url_unescape False (tl (dropWhile (\<lambda>c. c \<noteq> CHR '':'') userinfo))) of
                (Some username, Some password) \<Rightarrow> Some (username, password)
              | _ \<Rightarrow> None)"

lemma before_last_append: "c \<notin> set b \<Longrightarrow> before_last c (a @ c # b) = a"
  by (simp add: before_last_def dropWhile_append)

lemma takeWhile_outside: "set a \<inter> D = {} \<Longrightarrow> takeWhile (\<lambda>c. c \<notin> D) (a @ b) = a @ takeWhile (\<lambda>c. c \<notin> D) b"
  by (rule takeWhile_append2) auto

lemma int_text_delimiters: "set (int_text n) \<inter> set ''@/?#'' = {}"
proof -
  have "is_digit c \<Longrightarrow> c \<notin> set ''@/?#''" for c by (auto simp: is_digit_def byte_def)
  with digits_nat_text [of "nat \<bar>n\<bar>"] show ?thesis by (auto simp: int_text_def list_all_iff)
qed

lemma uri_userinfo_parts:
  assumes "set user \<inter> set '':@/?#'' = {}" "set password \<inter> set '':@/?#'' = {}" "CHR ''@'' \<notin> set host"
    "set port \<inter> set ''@/?#'' = {}"
  shows "uri_userinfo (''postgres://'' @ user @ '':'' @ password @ ''@'' @ host @ '':'' @ port @ ''/'' @ rest) =
    (case (url_unescape False user, url_unescape False password) of
       (Some u, Some p) \<Rightarrow> Some (u, p) | _ \<Rightarrow> None)"
proof -
  let ?P = "\<lambda>c. c \<notin> set ''/?#''"
  let ?tail = "takeWhile ?P (host @ '':'' @ port @ ''/'' @ rest)"
  have plain: "takeWhile ?P (user @ '':'' @ password @ ''@'' @ t) = user @ '':'' @ password @ ''@'' @ takeWhile ?P t"
    for t
  proof -
    have "set (user @ '':'' @ password @ ''@'') \<inter> set ''/?#'' = {}" using assms(1,2) by auto
    from takeWhile_outside [OF this, of t] show ?thesis by simp
  qed
  have tail: "CHR ''@'' \<notin> set ?tail"
  proof
    assume "CHR ''@'' \<in> set ?tail"
    moreover have "set ?tail \<subseteq> set (host @ '':'' @ port)"
      by (cases "\<exists>c \<in> set (host @ '':'' @ port). \<not> ?P c")
        (auto simp: takeWhile_append dest: set_takeWhileD)
    ultimately show False using assms(3,4) by auto
  qed
  have info: "before_last (CHR ''@'') (user @ '':'' @ password @ ''@'' @ ?tail) = user @ '':'' @ password"
    using before_last_append [OF tail, of "user @ '':'' @ password"] by simp
  have user: "takeWhile (\<lambda>c. c \<noteq> CHR '':'') (user @ '':'' @ password) = user"
    "dropWhile (\<lambda>c. c \<noteq> CHR '':'') (user @ '':'' @ password) = '':'' @ password"
    using assms(1) by (auto simp: takeWhile_append dropWhile_append)
  have scheme: "drop (length ''postgres://'') (''postgres://'' @ t) = t"
    "HasPrefix (''postgres://'' @ t) ''postgres://'' = True" for t
    by (simp_all add: HasPrefix_def)
  have "CHR ''@'' \<in> set (user @ '':'' @ password @ ''@'' @ ?tail)" by simp
  then show ?thesis
    unfolding uri_userinfo_def Let_def scheme plain info user by (simp only: if_True if_False not_True_eq_False simp_thms list.sel append.simps)
qed

text \<open>
  C38.  User name and password of the connection URI are escaped for a query although they stand
  before the host, where a plus sign is not a space: read as \<open>net/url\<close> reads it, the URI gives them
  back unchanged, whatever other characters they hold, exactly when they hold no space.  (The host,
  which is not escaped, must have no at sign.)
\<close>

theorem userinfo_read_back:
  assumes "CHR ''@'' \<notin> set (DBHost c)"
  shows "uri_userinfo (DatabaseURI c) = Some (DBUsername c, DBPassword c) \<longleftrightarrow>
    CHR '' '' \<notin> set (DBUsername c) \<and> CHR '' '' \<notin> set (DBPassword c)"
proof -
  have safe: "set (QueryEscape s) \<inter> set '':@/?#'' = {}" for s
    using userinfo_delimiters [of s] by (auto simp: list_all_iff)
  have same: "map (\<lambda>c. if c = CHR '' '' then CHR ''+'' else c) s = s \<longleftrightarrow> CHR '' '' \<notin> set s" for s
    by (induction s) auto
  show ?thesis
    unfolding DatabaseURI_def Let_def append_assoc
      uri_userinfo_parts [OF safe safe assms int_text_delimiters]
    by (simp add: unescape_QueryEscape same)
qed

theorem userinfo_read_back_witness:
  "uri_userinfo (DatabaseURI ((Load (\<lambda>_. None) (\<lambda>_. []))\<lparr>DBHost := ''db'', DBUsername := ''app'', DBPassword := ''p@:/?#''\<rparr>)) =
     Some (''app'', ''p@:/?#'') \<and>
   uri_userinfo (DatabaseURI ((Load (\<lambda>_. None) (\<lambda>_. []))\<lparr>DBHost := ''db'', DBUsername := ''app'', DBPassword := ''a b''\<rparr>)) \<noteq>
     Some (''app'', ''a b'')"
  using userinfo_read_back [of "(Load (\<lambda>_. None) (\<lambda>_. []))\<lparr>DBHost := ''db'', DBUsername := ''app'', DBPassword := ''p@:/?#''\<rparr>"]
    userinfo_read_back [of "(Load (\<lambda>_. None) (\<lambda>_. []))\<lparr>DBHost := ''db'', DBUsername := ''app'', DBPassword := ''a b''\<rparr>"]
  by simp

end
