(* ===== verification/Server.thy ===== *)
theory Server
  imports Http_Handler Gateways Postgres Config
begin

text \<open>
  \<open>go/cmd/server/main.go\<close>: the program put together.  The three gateways are built from the
  configuration, the store from the pool, the two services from the store and the router, and
  the handler from the services; the pool is pinged before anything is served.  \<open>Engine\<close> puts the
  middleware around the handlers, \<open>Main_Process\<close> starts and ends the process.
\<close>

section \<open>Wiring\<close>

definition server_router :: "'d env \<Rightarrow> 'x stripe_api \<Rightarrow> config \<Rightarrow> ('d, 'db, 'x) router" where
  "server_router E api cfg =
     NewRouter E (PaymentGatewayDefault cfg)
       [Some (MockGateway E (NewMockGateway (MockGatewayEnabled cfg) (MockGatewayDelayMS cfg)
                (MockGatewayFailureRate cfg))),
        Some (StripeGateway E api
                (NewStripeGateway (StripeEnabled cfg \<and> StripeAPIKey cfg \<noteq> []) (StripeAPIKey cfg))),
        Some (PayPalGateway E
                (NewPayPalGateway (PayPalEnabled cfg \<and> PayPalClientID cfg \<noteq> [] \<and>
                   PayPalClientSecret cfg \<noteq> [])))]"

text \<open>\<open>*payment.Store\<close> has the method \<open>RunInTx\<close>, so the services find a transaction runner.\<close>

definition server_handler :: "'d env \<Rightarrow> 'x stripe_api \<Rightarrow> config \<Rightarrow> ('db, 'x) pool \<Rightarrow>
    ('d, 'db, 'x) handler" where
  "server_handler E api cfg db =
     (let router = server_router E api cfg;
          store = sql_store E (NewStore db);
          runner = Some (sql_runner E db)
      in NewHandler (NewPaymentService store runner router) (NewRefundService store runner router))"

definition server_start :: "'d env \<Rightarrow> 'x stripe_api \<Rightarrow> config \<Rightarrow> ('db, 'x) pool \<Rightarrow>
    ('db, 'x, ('d, 'db, 'x) handler) go" where
  "server_start E api cfg db = bindE (pool_Ping db) (\<lambda>_. returnE (server_handler E api cfg db))"

lemma Store_RunInTx_runner: "Store_RunInTx E (Some (NewStore pl)) fn = RunInTx (sql_runner E pl) fn"
  by (simp add: Store_RunInTx_def pool_of_def NewStore_def)

lemma server_router_ok: "router_ok (server_router E api cfg)"
  unfolding server_router_def
  by (rule NewRouter_ok)
    (auto intro: mock.gateway_contract_axioms stripe.gateway_contract_axioms
      paypal.gateway_contract_axioms)

context sql_service begin

lemma server_handler_ok: "txs.handler_ok (server_handler E api cfg pl)"
  by (simp add: txs.handler_ok_def txs.svc_ok_def server_handler_def NewHandler_def
      NewPaymentService_def NewRefundService_def Let_def server_router_ok)

end

section \<open>The server over the database of \<open>Postgres\<close>\<close>

definition pg_ledger :: "pg \<Rightarrow> exact ledger" where
  "pg_ledger db = ledger_of exact_ops (pg_tables db)"

text \<open>What the database keeps of an amount: its value in ten-thousandths.\<close>

definition pg_amount :: "exact \<Rightarrow> exact" where
  "pg_amount a = amount4 exact_ops (cents4 (exact_val a))"

definition fresh_world :: "(nat \<Rightarrow> string option) \<Rightarrow> 'x \<Rightarrow> (pg, 'x) world" where
  "fresh_world faults ext =
     \<lparr>w_db = pg_empty\<lparr>pg_faults := faults\<rparr>, w_clk = 0, w_ids = 0, w_rnd = 0,
      w_tokens = Map.empty, w_slept = 0, w_ext = ext\<rparr>"

definition run_server :: "exact env \<Rightarrow> 'x stripe_api \<Rightarrow> config \<Rightarrow> exact gin \<Rightarrow>
    (endpoint \<times> gin_context) list \<Rightarrow> (pg, 'x) world \<Rightarrow> exact response list \<times> (pg, 'x) world" where
  "run_server E api cfg G rs w =
     serve_all (with_libs E) G (server_handler (with_libs E) api cfg pg_pool) rs w"

lemma fresh_world_ok: "pg_ok (w_db (fresh_world faults ext))"
  using pg_empty_ok by (simp add: fresh_world_def pg_ok_def)

lemma fresh_world_empty: "pg_ledger (w_db (fresh_world faults ext)) = empty_ledger"
  by (simp add: fresh_world_def pg_ledger_def ledger_of_def pg_empty_def empty_ledger_def)

lemma with_libs_dec: "E_dec (with_libs E) = exact_ops"
  by (simp add: with_libs_def)

lemma run_server_reachable:
  "pg_ok (w_db (snd (run_server E api cfg G rs (fresh_world faults ext)))) \<and>
   ledger_reachable exact_val pg_amount micros
     (pg_ledger (w_db (snd (run_server E api cfg G rs (fresh_world faults ext)))))"
  unfolding run_server_def pg_ledger_def pg_amount_def
  by (rule store.txs.serve_all_reachable [OF store.server_handler_ok with_libs_dec fresh_world_ok])
    (simp add: ledger_reachable.empty fresh_world_empty flip: pg_ledger_def)

lemma run_server_ok:
  "ledger_ok exact_val (pg_ledger (w_db (snd (run_server E api cfg G rs (fresh_world faults ext)))))"
  by (rule reachable_ok [OF conjunct2 [OF run_server_reachable]])

text \<open>With every gateway disabled the router has none to give.\<close>

lemma server_router_disabled:
  assumes "\<not> MockGatewayEnabled cfg" "\<not> StripeEnabled cfg" "\<not> PayPalEnabled cfg"
  shows "GetGateway E (server_router E api cfg) name \<noteq> Inr g"
proof
  assume "GetGateway E (server_router E api cfg) name = Inr g"
  then have "rt_gateways (server_router E api cfg) (ToLower (E_lower E) name) = Some g"
    and on: "gw_IsEnabled g" by (simp_all add: GetGateway_Inr)
  from this(1) have "g \<in> set (rev (List.map_filter (\<lambda>g. g)
      [Some (MockGateway E (NewMockGateway (MockGatewayEnabled cfg) (MockGatewayDelayMS cfg)
               (MockGatewayFailureRate cfg))),
       Some (StripeGateway E api
               (NewStripeGateway (StripeEnabled cfg \<and> StripeAPIKey cfg \<noteq> []) (StripeAPIKey cfg))),
       Some (PayPalGateway E
               (NewPayPalGateway (PayPalEnabled cfg \<and> PayPalClientID cfg \<noteq> [] \<and>
                  PayPalClientSecret cfg \<noteq> [])))]))"
    unfolding server_router_def NewRouter_gateways by (rule conjunct1 [OF find_SomeD])
  with on assms show False
    by (auto simp: List.map_filter_def MockGateway_def NewMockGateway_def StripeGateway_def NewStripeGateway_def
        PayPalGateway_def NewPayPalGateway_def)
qed

lemma server_handler_router:
  "svc_router (h_paymentService (server_handler E api cfg db)) = server_router E api cfg"
  "svc_router (h_refundService (server_handler E api cfg db)) = server_router E api cfg"
  by (simp_all add: server_handler_def NewHandler_def NewPaymentService_def NewRefundService_def
      Let_def)

lemma no_gateway_no_change:
  assumes "\<not> MockGatewayEnabled cfg" "\<not> StripeEnabled cfg" "\<not> PayPalEnabled cfg"
  shows "pg_ledger (w_db (snd (run_server E api cfg G rs (fresh_world faults ext)))) = empty_ledger \<and>
    w_ext (snd (run_server E api cfg G rs (fresh_world faults ext))) = ext"
proof -
  let ?P = "\<lambda>w. pg_ledger (w_db w) = empty_ledger \<and> w_ext w = ext"
  let ?h = "server_handler (with_libs E) api cfg pg_pool"
  have step: "?P w'" if "pg_ok (w_db w)" "?P w" "serve (with_libs E) G ?h ep c w = (resp, w')"
    for w :: "(pg, 'a) world" and ep c resp w'
  proof -
    have "store.txs.unchanged w w'"
      by (rule store.txs.serve_no_gateway [OF store.server_handler_ok that(1) with_libs_dec _ _ that(3)])
        (simp_all add: server_handler_router server_router_disabled [OF assms])
    with that(2) show ?thesis by (simp add: store.txs.unchanged_def quiet_def pg_ledger_def)
  qed
  have "pg_ok (w_db (snd (serve_all (with_libs E) G ?h rs (fresh_world faults ext)))) \<and>
      ?P (snd (serve_all (with_libs E) G ?h rs (fresh_world faults ext)))"
  proof (rule store.txs.serve_all_keeps [OF store.server_handler_ok with_libs_dec, where P = ?P])
    show "?P (fresh_world faults ext)"
      using fresh_world_empty [of faults ext] by (simp add: fresh_world_def)
  qed (erule (2) step, rule fresh_world_ok)
  then show ?thesis by (simp add: run_server_def)
qed

text \<open>The keys stay trimmed.\<close>

lemma run_server_keys:
  "keys_trimmed (pg_ledger (w_db (snd (run_server E api cfg G rs (fresh_world faults ext)))))"
proof -
  let ?P = "\<lambda>w. keys_trimmed (pg_ledger (w_db w))"
  let ?h = "server_handler (with_libs E) api cfg pg_pool"
  have step: "?P w'" if "pg_ok (w_db w)" "?P w" "serve (with_libs E) G ?h ep c w = (resp, w')"
    for w :: "(pg, 'a) world" and ep c resp w'
    using store.txs.serve_keys [OF store.server_handler_ok that(1) with_libs_dec _ that(3)] that(2)
    by (simp add: pg_ledger_def)
  have "pg_ok (w_db (snd (serve_all (with_libs E) G ?h rs (fresh_world faults ext)))) \<and>
      ?P (snd (serve_all (with_libs E) G ?h rs (fresh_world faults ext)))"
  proof (rule store.txs.serve_all_keeps [OF store.server_handler_ok with_libs_dec, where P = ?P])
    show "?P (fresh_world faults ext)"
      by (simp add: fresh_world_empty) (simp add: keys_trimmed_def empty_ledger_def)
  qed (erule (2) step, rule fresh_world_ok)
  then show ?thesis by (simp add: run_server_def)
qed

end
