(* ===== verification/Sample_Ledger.thy ===== *)
theory Sample_Ledger
  imports Server
begin

text \<open>
  A small database at which the properties are applied: one completed payment of 10.00 USD with
  an idempotency key, one completed refund of 4.00 of it with a correlation id, and the two audit
  entries.  Its rows satisfy the schema, so it is a state the server can be in.
\<close>

fun sample_payment_row :: row where
  "sample_payment_row C_id = VUuid 1"
| "sample_payment_row C_order_id = VText ''order-1''"
| "sample_payment_row C_customer_id = VText ''customer-1''"
| "sample_payment_row C_amount = VNumeric 100000"
| "sample_payment_row C_currency = VText ''USD''"
| "sample_payment_row C_status = VText ''COMPLETED''"
| "sample_payment_row C_gateway = VText ''mock''"
| "sample_payment_row C_created_at = VTime 1000"
| "sample_payment_row C_idempotency_key = VText ''key-1''"
| "sample_payment_row _ = VNull"

fun sample_refund_row :: row where
  "sample_refund_row C_id = VUuid 2"
| "sample_refund_row C_payment_id = VUuid 1"
| "sample_refund_row C_amount = VNumeric 40000"
| "sample_refund_row C_currency = VText ''USD''"
| "sample_refund_row C_status = VText ''COMPLETED''"
| "sample_refund_row C_created_at = VTime 2000"
| "sample_refund_row C_correlation_id = VText ''corr-1''"
| "sample_refund_row _ = VNull"

fun sample_charge_row :: row where
  "sample_charge_row C_id = VUuid 3"
| "sample_charge_row C_payment_id = VUuid 1"
| "sample_charge_row C_type = VText ''CHARGE''"
| "sample_charge_row C_amount = VNumeric 100000"
| "sample_charge_row C_currency = VText ''USD''"
| "sample_charge_row C_success = VBool True"
| "sample_charge_row C_created_at = VTime 1000"
| "sample_charge_row _ = VNull"

fun sample_refund_entry_row :: row where
  "sample_refund_entry_row C_id = VUuid 4"
| "sample_refund_entry_row C_payment_id = VUuid 1"
| "sample_refund_entry_row C_refund_id = VUuid 2"
| "sample_refund_entry_row C_type = VText ''REFUND''"
| "sample_refund_entry_row C_amount = VNumeric 40000"
| "sample_refund_entry_row C_currency = VText ''USD''"
| "sample_refund_entry_row C_success = VBool True"
| "sample_refund_entry_row C_created_at = VTime 2000"
| "sample_refund_entry_row _ = VNull"

fun sample_tables :: "table \<Rightarrow> row list" where
  "sample_tables Payments = [sample_payment_row]"
| "sample_tables Refunds = [sample_refund_row]"
| "sample_tables Transactions = [sample_charge_row, sample_refund_entry_row]"

definition sample_world :: "(pg, unit) world" where
  "sample_world =
     \<lparr>w_db = pg_empty\<lparr>pg_tables := sample_tables\<rparr>, w_clk = 0, w_ids = 10, w_rnd = 0,
      w_tokens = Map.empty, w_slept = 0, w_ext = ()\<rparr>"

lemma sample_rows_typed:
  "values_typed Payments sample_payment_row" "values_typed Refunds sample_refund_row"
  "values_typed Transactions sample_charge_row" "values_typed Transactions sample_refund_entry_row"
  unfolding values_typed_def
  by (rule allI, case_tac c; simp add: cents4_def micros_def)+

lemma sample_rows_not_null:
  "not_null_ok Payments sample_payment_row" "not_null_ok Refunds sample_refund_row"
  "not_null_ok Transactions sample_charge_row" "not_null_ok Transactions sample_refund_entry_row"
  by (simp_all add: not_null_ok_def all_columns_def)

lemma sample_world_ok: "pg_ok (w_db sample_world)"
proof -
  have "(\<forall>r \<in> set (sample_tables t). row_ok t r) \<and> unique_ok t (sample_tables t)" for t
    by (cases t) (simp_all add: row_ok_split sample_rows_typed sample_rows_not_null unique_ok_def)
  moreover have "foreign_keys_ok sample_tables" by (simp add: foreign_keys_ok_def)
  ultimately have "tables_ok sample_tables" by (simp add: tables_ok_def)
  with pg_empty_ok show ?thesis by (simp add: sample_world_def pg_ok_def)
qed

lemma sample_ledger:
  "l_payments (pg_ledger (w_db sample_world)) = [payment_of_row exact_ops sample_payment_row]"
  "l_refunds (pg_ledger (w_db sample_world)) = [refund_of_row exact_ops sample_refund_row]"
  by (simp_all add: pg_ledger_def ledger_of_def sample_world_def)

lemma sample_keys:
  "Some ''key-1'' \<in> p_IdempotencyKey ` set (l_payments (pg_ledger (w_db sample_world)))"
  "Some ''corr-1'' \<in> r_CorrelationID ` set (l_refunds (pg_ledger (w_db sample_world)))"
  "Some ''corr-2'' \<notin> r_CorrelationID ` set (l_refunds (pg_ledger (w_db sample_world)))"
  by (simp_all add: sample_ledger)

lemma sample_amounts: "exact_val (amount4 exact_ops n) = of_int n / 10 ^ 4"
  by (rule store.val_amount4)

text \<open>Six of the ten dollars are left.\<close>

lemma sample_covered:
  "refund_covered exact_val (pg_ledger (w_db sample_world)) 1 (Exact n 0) \<longleftrightarrow> n \<le> 6"
proof -
  have "exact_val (Exact n 0) = of_int n" by (simp add: exact_val_def)
  then show ?thesis
    by (simp add: refund_covered_def sample_ledger refunded_def payment_of_row_def refund_of_row_def
        refund_allowed_def sample_amounts payment_status_defs refund_status_defs)
qed

lemma sample_ledger_ok: "ledger_ok exact_val (pg_ledger (w_db sample_world))"
  unfolding ledger_ok_def audited_def
  by (simp add: pg_ledger_def ledger_of_def sample_world_def payment_of_row_def refund_of_row_def
      transaction_of_row_def sample_amounts refunded_def payment_balanced_def keys_unique_def
      charges_of_def refund_entries_def settled_status_def TransactionTypeCharge_def TransactionTypeRefund_def
      payment_status_defs refund_status_defs)

text \<open>A string without white space at its ends is not blank.\<close>

lemma not_blank: "graphic (hd s) \<Longrightarrow> graphic (last s) \<Longrightarrow> s \<noteq> [] \<Longrightarrow> \<not> blank s"
  by (simp add: TrimSpace_graphic)

lemma sample_not_blank: "\<not> blank ''key-1''" "\<not> blank ''corr-1''"
  by (rule not_blank; simp add: graphic_def byte_def)+

section \<open>A process\<close>

definition sample_env :: "exact env" where
  "sample_env = \<lparr>E_dec = exact_ops, E_now = (\<lambda>n. 63835596800000000000 + int n),
     E_uuid = (\<lambda>n. word_of_nat (n + 1)), E_rand = (\<lambda>_. Finite 0), E_uuid_parse = (\<lambda>_. None),
     E_uuid_string = uuid_text, E_lower = (\<lambda>s. s), E_upper = (\<lambda>s. s)\<rparr>"

definition sample_config :: config where
  "sample_config = Load (\<lambda>_. None) (\<lambda>v. if v = ''MOCK_GATEWAY_ENABLED'' then ''true'' else [])"

definition sample_api :: "unit stripe_api" where
  "sample_api = (\<lambda>_ _ x. (Inl OtherStripeError, x))"

definition sample_request :: "exact process_payment_request" where
  "sample_request =
     \<lparr>pq_OrderID = ''order-2'', pq_CustomerID = ''customer-1'', pq_Amount = Exact 1000 (- 2),
      pq_Currency = ''usd'', pq_Gateway = [], pq_PaymentMethodID = [],
      pq_CardNumber = ''4242424242424242'', pq_CardExpMonth = [], pq_CardExpYear = [],
      pq_CardCvc = [], pq_CardholderName = [], pq_BillingEmail = [], pq_BillingAddressLine1 = [],
      pq_BillingAddressLine2 = [], pq_BillingCity = [], pq_BillingState = [],
      pq_BillingPostalCode = [], pq_BillingCountry = [], pq_IdempotencyKey = []\<rparr>"

definition sample_gin :: "exact gin" where
  "sample_gin = \<lparr>gin_bind_payment = (\<lambda>_. Inr sample_request),
     gin_bind_refund = (\<lambda>_. Inr \<lparr>fq_Amount = Exact 4 0, fq_Reason = []\<rparr>)\<rparr>"

definition sample_context :: gin_context where
  "sample_context = \<lparr>c_Param = (\<lambda>_. uuid_text 1), c_Query = (\<lambda>_. []), c_GetHeader = (\<lambda>_. []),
     c_Body = []\<rparr>"

lemma sample_request_valid: "validateProcessPaymentRequest (with_libs sample_env) sample_request = None"
proof -
  have "\<not> blank ''order-2''" "\<not> blank ''customer-1''"
    by (rule not_blank; simp add: graphic_def byte_def)+
  moreover have "TrimSpace ''usd'' = ''usd''"
    by (rule TrimSpace_graphic) (simp_all add: graphic_def byte_def)
  ultimately show ?thesis
    by (simp add: validateProcessPaymentRequest_def sample_request_def decimalCmpPositive_def
        with_libs_def exact_ops_def exact_cmp_def rescale_def Let_def)
qed

end
