(* ===== verification/Availability.thy ===== *)
theory Availability
  imports Sample_Ledger
begin

text \<open>
  What the store does on the database of \<open>Postgres\<close> when no call fails: every read is answered,
  with the row or rows a search of the ledger finds.
\<close>

section \<open>Healthy databases\<close>

text \<open>No failure is scheduled, and no transaction is stuck.\<close>

definition healthy :: "pg \<Rightarrow> bool" where
  "healthy db \<longleftrightarrow> pg_ok db \<and> pg_faults db = (\<lambda>_. None) \<and> \<not> pg_aborted db"

lemma healthyD: "healthy db \<Longrightarrow> pg_ok db" "healthy db \<Longrightarrow> pg_faults db n = None"
    "healthy db \<Longrightarrow> \<not> pg_aborted db"
  by (simp_all add: healthy_def)

lemma pg_call_healthy: "healthy db \<Longrightarrow> pg_call b f db = f (db\<lparr>pg_calls := Suc (pg_calls db)\<rparr>)"
  by (simp add: pg_call_def healthy_def Let_def)

lemma healthy_calls [simp]: "healthy (db\<lparr>pg_calls := n\<rparr>) \<longleftrightarrow> healthy db"
  by (simp add: healthy_def pg_ok_def)

section \<open>Reads\<close>

lemma lock_rows_keeps [simp]:
  "pg_tables (lock_rows b sel rows db) = pg_tables db" "pg_ledger (lock_rows b sel rows db) = pg_ledger db"
  "healthy (lock_rows b sel rows db) = healthy db"
  by (simp_all add: lock_rows_def pg_ledger_def healthy_def pg_ok_def)

lemma find_filter: "find P xs = (case filter P xs of [] \<Rightarrow> None | x # _ \<Rightarrow> Some x)"
  by (induction xs) simp_all

lemma find_map: "find P (map f xs) = map_option f (find (\<lambda>x. P (f x)) xs)"
  by (induction xs) simp_all

lemma query_row_healthy:
  assumes "healthy (w_db w)" and s: "s_db s = pg_querier b"
  shows "query_row s scan sel arg w =
    (case select_rows sel arg (pg_tables (w_db w)) of [] \<Rightarrow> Inl ErrNoRows
       | r # _ \<Rightarrow> scan (select_row (sel_columns sel) r),
     w\<lparr>w_db := lock_rows b sel (select_rows sel arg (pg_tables (w_db w)))
       ((w_db w)\<lparr>pg_calls := Suc (pg_calls (w_db w))\<rparr>)\<rparr>)"
  by (simp add: query_row_def s pg_querier_def bindE_def on_db_def
      pg_call_healthy [OF assms(1)] pg_query_row_def pg_select_def Let_def split: list.split)

lemma store_queriers:
  "s_db (NewStore pg_pool) = pg_querier False"
  "s_db \<lparr>s_pool = Some pg_pool, s_db = pool_tx pg_pool\<rparr> = pg_querier True"
  by (simp_all add: NewStore_def pg_pool_def)

lemma payment_by_id:
  assumes h: "healthy (w_db w)" and s: "s_db s = pg_querier b"
  shows "fst (query_row s (scanPaymentRow (with_libs E)) (select_payment C_id False False lock)
      (VUuid i) w) =
    (case find (\<lambda>p. p_ID p = i) (l_payments (pg_ledger (w_db w))) of
       None \<Rightarrow> Inl ErrNoRows | Some p \<Rightarrow> Inr p)"
proof -
  let ?T = "pg_tables (w_db w) Payments"
  have eq: "filter (\<lambda>r. r C_id = VUuid i) ?T = filter (\<lambda>r. uuid_of (r C_id) = i) ?T"
    using store.main.id_matches [OF healthyD(1) [OF h]] by (intro filter_cong) auto
  have "find (\<lambda>p. p_ID p = i) (l_payments (pg_ledger (w_db w))) =
      map_option (payment_of_row exact_ops) (find (\<lambda>r. uuid_of (r C_id) = i) ?T)"
    by (simp add: pg_ledger_def ledger_of_def find_map)
  moreover have "select_rows (select_payment C_id False False lock) (VUuid i) (pg_tables (w_db w)) =
      filter (\<lambda>r. uuid_of (r C_id) = i) ?T"
    by (simp add: select_rows_def select_payment_def eq)
  moreover have "scanPaymentRow (with_libs E) (select_row payment_columns r) =
      Inr (payment_of_row exact_ops r)" if "r \<in> set ?T" for r
    using that healthyD(1) [OF h] by (intro store.scan_payment) (auto simp: pg_ok_def tables_ok_def)
  ultimately show ?thesis
    unfolding query_row_healthy [OF h s] find_filter
    by (cases "filter (\<lambda>r. uuid_of (r C_id) = i) ?T")
      (auto simp: select_payment_def filter_eq_Cons_iff)
qed

lemma GetPayment_find:
  assumes h: "healthy (w_db w)"
  shows "fst (Store_GetPayment (with_libs E) (NewStore pg_pool) i w) =
    (case find (\<lambda>p. p_ID p = i) (l_payments (pg_ledger (w_db w))) of
       None \<Rightarrow> Inl ErrNoRows | Some p \<Rightarrow> Inr p)"
  unfolding Store_GetPayment_def by (rule payment_by_id [OF h store_queriers(1)])

lemma sample_world_healthy: "healthy (w_db sample_world)"
  using sample_world_ok by (simp add: healthy_def sample_world_def pg_empty_def)

end
