(* ===== verification/Healthy_Store.thy ===== *)
theory Healthy_Store
  imports Availability
begin

text \<open>
  What the writes of the store do on a healthy database: which values fit the columns, which
  rows the constraints admit, and that every INSERT and UPDATE of such a row succeeds; that the
  lookups are answered; and that a transaction whose body succeeds is committed.
\<close>

section \<open>What fits the columns\<close>

definition opt_fits :: "nat \<Rightarrow> string option \<Rightarrow> bool" where
  "opt_fits n s = (case s of None \<Rightarrow> True | Some v \<Rightarrow> length v \<le> n)"

definition amount_fits :: "exact \<Rightarrow> bool" where
  "amount_fits a \<longleftrightarrow> \<bar>cents4 (exact_val a)\<bar> < 10 ^ 19"

definition payment_fits :: "exact payment \<Rightarrow> bool" where
  "payment_fits p \<longleftrightarrow>
     length (p_OrderID p) \<le> 255 \<and> length (p_CustomerID p) \<le> 255 \<and> amount_fits (p_Amount p) \<and>
     length (p_Currency p) \<le> 3 \<and> length (p_Status p) \<le> 20 \<and> length (p_Gateway p) \<le> 20 \<and>
     opt_fits 255 (p_GatewayTransactionID p) \<and> opt_fits 255 (p_GatewayPaymentIntentID p) \<and>
     opt_fits 4 (p_CardLast4 p) \<and> opt_fits 20 (p_CardBrand p) \<and>
     opt_fits 500 (p_FailureReason p) \<and> opt_fits 50 (p_FailureCode p) \<and>
     opt_fits 100 (p_CorrelationID p) \<and> opt_fits 50 (p_IdempotencyKey p)"

definition transaction_fits :: "exact transaction \<Rightarrow> bool" where
  "transaction_fits t \<longleftrightarrow>
     length (t_Type t) \<le> 20 \<and> amount_fits (t_Amount t) \<and> length (t_Currency t) \<le> 3 \<and>
     opt_fits 255 (t_GatewayTransactionID t) \<and> opt_fits 50 (t_GatewayErrorCode t) \<and>
     opt_fits 500 (t_GatewayErrorMessage t) \<and> opt_fits 100 (t_CorrelationID t) \<and>
     opt_fits 50 (t_IPAddress t) \<and> opt_fits 500 (t_UserAgent t)"

definition refund_fits :: "exact refund \<Rightarrow> bool" where
  "refund_fits r \<longleftrightarrow>
     amount_fits (r_Amount r) \<and> length (r_Currency r) \<le> 3 \<and> length (r_Status r) \<le> 20 \<and>
     opt_fits 500 (r_Reason r) \<and> opt_fits 255 (r_GatewayRefundID r) \<and>
     opt_fits 500 (r_FailureReason r) \<and> opt_fits 50 (r_FailureCode r) \<and>
     opt_fits 100 (r_InitiatedBy r) \<and> opt_fits 100 (r_CorrelationID r)"

lemma check_value_simps:
  "((case coerce (Varchar n) Plain (VText s) of Inl e \<Rightarrow> Some e | Inr _ \<Rightarrow> rest) = None) \<longleftrightarrow>
     length s \<le> n \<and> rest = None"
  "((case coerce (Varchar n) Plain (nullStringArg ns) of Inl e \<Rightarrow> Some e | Inr _ \<Rightarrow> rest) = None) \<longleftrightarrow>
     opt_fits n ns \<and> rest = None"
  "((case coerce TextType Plain (nullStringArg ns) of Inl e \<Rightarrow> Some e | Inr _ \<Rightarrow> rest) = None) \<longleftrightarrow>
     rest = None"
  "((case coerce Timestamp Plain (nullTimeArg nt) of Inl e \<Rightarrow> Some e | Inr _ \<Rightarrow> rest) = None) \<longleftrightarrow>
     rest = None"
  "((case coerce Timestamp Plain (VTime tm) of Inl e \<Rightarrow> Some e | Inr _ \<Rightarrow> rest) = None) \<longleftrightarrow>
     rest = None"
  "((case coerce UuidType Plain (nullUUIDArg nu) of Inl e \<Rightarrow> Some e | Inr _ \<Rightarrow> rest) = None) \<longleftrightarrow>
     rest = None"
  "((case coerce UuidType Plain (VUuid u) of Inl e \<Rightarrow> Some e | Inr _ \<Rightarrow> rest) = None) \<longleftrightarrow>
     rest = None"
  "((case coerce Boolean Plain (VBool b) of Inl e \<Rightarrow> Some e | Inr _ \<Rightarrow> rest) = None) \<longleftrightarrow>
     rest = None"
  "((case coerce Numeric19_4 AsNumeric (VText (dec_String exact_ops a)) of
       Inl e \<Rightarrow> Some e | Inr _ \<Rightarrow> rest) = None) \<longleftrightarrow> amount_fits a \<and> rest = None"
  by (auto simp: opt_fits_def amount_fits_def nullTimeArg_def nullUUIDArg_def nullStringArg_def
      exact.String split: option.split)

lemma insert_payment_checked:
  "insert_payment = Insert t cols \<Longrightarrow>
     check_values t cols (insert_payment_args (with_libs E) p) = None \<longleftrightarrow> payment_fits p"
  by (auto simp: insert_payment_def insert_payment_args_def check_value_simps payment_fits_def
      with_libs_dec simp del: coerce.simps)

lemma update_payment_checked:
  "update_payment_stmt = Update t cols c \<Longrightarrow>
     check_values t cols (tl (update_payment_args (with_libs E) p)) = None \<longleftrightarrow> payment_fits p"
  by (auto simp: update_payment_stmt_def update_payment_args_def check_value_simps payment_fits_def
      with_libs_dec simp del: coerce.simps)

lemma insert_refund_checked:
  "insert_refund = Insert t cols \<Longrightarrow>
     check_values t cols (insert_refund_args (with_libs E) r) = None \<longleftrightarrow> refund_fits r"
  by (auto simp: insert_refund_def insert_refund_args_def check_value_simps
      refund_fits_def with_libs_dec simp del: coerce.simps)

lemma update_refund_checked:
  "update_refund_stmt = Update t cols c \<Longrightarrow>
     check_values t cols (tl (update_refund_args (with_libs E) r)) = None \<longleftrightarrow> refund_fits r"
  by (auto simp: update_refund_stmt_def update_refund_args_def check_value_simps
      refund_fits_def with_libs_dec simp del: coerce.simps)

lemma insert_transaction_checked:
  "insert_transaction = Insert t cols \<Longrightarrow>
     check_values t cols (insert_transaction_args (with_libs E) x) = None \<longleftrightarrow> transaction_fits x"
  by (auto simp: insert_transaction_def insert_transaction_args_def check_value_simps
      transaction_fits_def with_libs_dec simp del: coerce.simps)

section \<open>Statements that succeed\<close>

lemma not_null_simps:
  "not_null_ok t r \<longleftrightarrow> (\<forall>c. case schema t c of Some (_, True) \<Rightarrow> r c \<noteq> VNull | _ \<Rightarrow> True)"
  using all_columns by (auto simp: not_null_ok_def list_all_iff)

definition values_of :: "column \<Rightarrow> row list \<Rightarrow> sql_value set" where
  "values_of c rows = (\<lambda>r. r c) ` set rows"

lemma foreign_keys_values:
  "foreign_keys_ok T \<longleftrightarrow>
     values_of C_payment_id (T Refunds) \<subseteq> values_of C_id (T Payments) \<and>
     values_of C_payment_id (T Transactions) \<subseteq> values_of C_id (T Payments) \<and>
     values_of C_refund_id (T Transactions) \<subseteq> insert VNull (values_of C_id (T Refunds))"
  by (auto simp: foreign_keys_ok_def list_all_iff values_of_def)

lemma values_of_append [simp]: "values_of c (rows @ [r]) = insert (r c) (values_of c rows)"
  by (simp add: values_of_def)

lemma insert_allowed_values:
  "insert_allowed T t r \<longleftrightarrow> r C_id \<notin> values_of C_id (T t) \<and>
     (t = Payments \<longrightarrow> r C_idempotency_key = VNull \<or>
        r C_idempotency_key \<notin> values_of C_idempotency_key (T Payments)) \<and>
     (t \<noteq> Payments \<longrightarrow> r C_payment_id \<in> values_of C_id (T Payments)) \<and>
     (t = Transactions \<longrightarrow> r C_refund_id = VNull \<or> r C_refund_id \<in> values_of C_id (T Refunds))"
  by (simp add: insert_allowed_def values_of_def)

lemma insert_keeps_keys:
  assumes T: "tables_ok T" and ok: "insert_allowed T t r" and n: "not_null_ok t r"
  shows "check_rows t (T t @ [r]) T = None"
proof -
  have old: "list_all (not_null_ok t) (T t)" "unique_ok t (T t)" "foreign_keys_ok T"
    using T by (auto simp: tables_ok_def row_ok_split list_all_iff)
  have "unique_ok t (T t @ [r])"
    using old(2) ok unfolding unique_ok_def insert_allowed_def by auto
  moreover have "foreign_keys_ok (T(t := T t @ [r]))"
    using ok old(3) by (cases t) (auto simp: insert_allowed_values foreign_keys_values)
  ultimately show ?thesis using old(1) n by (simp add: check_rows_def)
qed

lemma run_insert:
  assumes "tables_ok T" "check_values t cols args = None"
    and "insert_allowed T t (assigned cols args (\<lambda>_. VNull))"
    and "not_null_ok t (assigned cols args (\<lambda>_. VNull))"
  shows "run_statement (Insert t cols) args T =
    Inr (1, T(t := T t @ [assigned cols args (\<lambda>_. VNull)]))"
  using assms insert_keeps_keys [OF assms(1,3,4)] by (simp add: Let_def)

lemma run_update:
  assumes T: "tables_ok T" and v: "check_values t cols args = None"
    and keep: "\<And>r. r \<in> set (T t) \<Longrightarrow> r c = key \<Longrightarrow> not_null_ok t (assigned cols args r) \<and>
      assigned cols args r C_id = r C_id \<and> assigned cols args r C_payment_id = r C_payment_id \<and>
      assigned cols args r C_refund_id = r C_refund_id \<and>
      assigned cols args r C_idempotency_key = r C_idempotency_key"
  shows "run_statement (Update t cols c) (key # args) T =
    Inr (length (filter (\<lambda>r. r c = key) (T t)),
      T(t := map (\<lambda>r. if r c = key then assigned cols args r else r) (T t)))"
proof -
  let ?f = "\<lambda>r. if r c = key then assigned cols args r else r"
  have old: "list_all (not_null_ok t) (T t)" "unique_ok t (T t)" "foreign_keys_ok T"
    using T by (auto simp: tables_ok_def row_ok_split list_all_iff)
  have cols: "map (\<lambda>r. r k) (map ?f (T t)) = map (\<lambda>r. r k) (T t)"
    if "k \<in> {C_id, C_payment_id, C_refund_id, C_idempotency_key}" for k
    using that keep by auto
  have "unique_ok t (map ?f (T t))"
    using old(2) unfolding unique_ok_def by (simp only: cols insertI1 insertI2) blast
  moreover have "values_of k (map ?f (T t)) = values_of k (T t)"
    if "k \<in> {C_id, C_payment_id, C_refund_id, C_idempotency_key}" for k
    using cols [OF that] unfolding values_of_def by (metis set_map)
  then have "foreign_keys_ok (T(t := map ?f (T t)))"
    using old(3) by (cases t) (simp_all add: foreign_keys_values)
  moreover have "list_all (not_null_ok t) (map ?f (T t))"
    using old(1) keep by (auto simp: list_all_iff)
  ultimately have "check_rows t (map ?f (T t)) T = None" by (simp add: check_rows_def)
  with v show ?thesis by (simp add: Let_def)
qed

section \<open>Operations that succeed\<close>

abbreviation tx_store :: "exact env \<Rightarrow> (exact, pg, 'x) payment_store" where
  "tx_store E \<equiv> tr_store (sql_runner (with_libs E) pg_pool)"

lemma exec_healthy:
  assumes h: "healthy (w_db w)" and run: "run_statement st args (pg_tables (w_db w)) = Inr (n, T)"
  obtains w' where "q_Exec (pool_tx pg_pool) st args w = (Inr n, w')" "healthy (w_db w')"
    "pg_tables (w_db w') = T" "w_ids w' = w_ids w"
proof -
  let ?w' = "w\<lparr>w_db := (w_db w)\<lparr>pg_calls := Suc (pg_calls (w_db w)), pg_tables := T\<rparr>\<rparr>"
  have "q_Exec (pool_tx pg_pool) st args w = (Inr n, ?w')"
    using run by (simp add: pg_pool_def pg_querier_def on_db_def pg_call_healthy [OF h] pg_exec_def)
  moreover have "healthy (w_db ?w')"
    using h run_statement_ok [OF _ run] by (simp add: healthy_def pg_ok_def)
  ultimately show thesis by (rule that) simp_all
qed

lemma healthy_tables: "healthy db \<Longrightarrow> tables_ok (pg_tables db)"
  by (simp add: healthy_def pg_ok_def)

lemma id_stored:
  assumes "healthy db"
  shows "VUuid i \<in> values_of C_id (pg_tables db t) \<longleftrightarrow>
    i \<in> (\<lambda>r. uuid_of (r C_id)) ` set (pg_tables db t)"
proof -
  have "\<forall>r \<in> set (pg_tables db t). VUuid i = r C_id \<longleftrightarrow> i = uuid_of (r C_id)"
    using store.main.id_matches [OF healthyD(1) [OF assms]] by metis
  then show ?thesis by (auto simp: values_of_def image_iff)
qed

lemma row_with_id:
  assumes h: "healthy db" and r: "r \<in> set (pg_tables db t)" "r' \<in> set (pg_tables db t)"
    and i: "r C_id = VUuid i" "uuid_of (r' C_id) = i"
  shows "r = r'"
proof -
  have "r' C_id = r C_id" using store.main.id_value [OF healthyD(1) [OF h] r(2)] i by simp
  moreover have "inj_on (\<lambda>r. r C_id) (set (pg_tables db t))"
    using store.main.ids_distinct [OF healthyD(1) [OF h], of t] by (simp add: distinct_map)
  ultimately show ?thesis using r by (metis (no_types, lifting) inj_onD)
qed

lemma ledger_ids:
  "p_ID ` set (l_payments (pg_ledger db)) = (\<lambda>r. uuid_of (r C_id)) ` set (pg_tables db Payments)"
  "r_ID ` set (l_refunds (pg_ledger db)) = (\<lambda>r. uuid_of (r C_id)) ` set (pg_tables db Refunds)"
  "t_ID ` set (l_txs (pg_ledger db)) = (\<lambda>r. uuid_of (r C_id)) ` set (pg_tables db Transactions)"
  by (simp_all add: pg_ledger_def ledger_of_def image_image transaction_of_row_def)

lemma key_stored:
  "VText k \<in> values_of C_idempotency_key (pg_tables db Payments) \<longleftrightarrow>
     Some k \<in> p_IdempotencyKey ` set (l_payments (pg_ledger db))"
  by (simp add: pg_ledger_def ledger_of_def values_of_def image_image image_iff)
    (metis as_text_Some)

lemma inserted_not_null:
  "insert_payment = Insert t cols \<Longrightarrow>
     not_null_ok t (assigned cols (insert_payment_args (with_libs E) p) (\<lambda>_. VNull))"
  "insert_refund = Insert t cols \<Longrightarrow>
     not_null_ok t (assigned cols (insert_refund_args (with_libs E) r) (\<lambda>_. VNull))"
  "insert_transaction = Insert t cols \<Longrightarrow>
     not_null_ok t (assigned cols (insert_transaction_args (with_libs E) x) (\<lambda>_. VNull))"
  by (auto simp: insert_payment_def insert_payment_args_def insert_refund_def insert_refund_args_def
      insert_transaction_def insert_transaction_args_def not_null_ok_def all_columns_def
      with_libs_dec exact.String)

text \<open>One row inserted, one row changed.\<close>

lemma insert_row_healthy:
  assumes h: "healthy (w_db w)" and "check_values t cols args = None"
    and "insert_allowed (pg_tables (w_db w)) t (assigned cols args (\<lambda>_. VNull))"
    and "not_null_ok t (assigned cols args (\<lambda>_. VNull))"
  obtains w' where "q_Exec (pool_tx pg_pool) (Insert t cols) args w = (Inr 1, w')"
    "healthy (w_db w')" "w_ids w' = w_ids w"
  by (rule exec_healthy [OF h run_insert [OF healthy_tables [OF h] assms(2-)]]) (rule that)

lemma update_row_healthy:
  assumes h: "healthy (w_db w)" and r: "r \<in> set (pg_tables (w_db w) t)" "uuid_of (r C_id) = i"
    and v: "check_values t cols args = None"
    and keep: "not_null_ok t (assigned cols args r) \<and> assigned cols args r C_id = r C_id \<and>
      assigned cols args r C_payment_id = r C_payment_id \<and>
      assigned cols args r C_refund_id = r C_refund_id \<and>
      assigned cols args r C_idempotency_key = r C_idempotency_key"
  obtains n w' where "q_Exec (pool_tx pg_pool) (Update t cols C_id) (VUuid i # args) w = (Inr n, w')"
    "n \<noteq> 0" "healthy (w_db w')" "w_ids w' = w_ids w"
proof -
  let ?T = "pg_tables (w_db w)"
  have "r' = r" if "r' \<in> set (?T t)" "r' C_id = VUuid i" for r'
    using row_with_id [OF h that(1) r(1) that(2) r(2)] .
  with run_update [OF healthy_tables [OF h] v] keep
  have run: "run_statement (Update t cols C_id) (VUuid i # args) ?T =
    Inr (length (filter (\<lambda>r. r C_id = VUuid i) (?T t)),
      ?T(t := map (\<lambda>r. if r C_id = VUuid i then assigned cols args r else r) (?T t)))"
    by blast
  have n: "length (filter (\<lambda>r. r C_id = VUuid i) (?T t)) \<noteq> 0"
    using r store.main.id_value [OF healthyD(1) [OF h] r(1)] by (auto simp: filter_empty_conv)
  show thesis by (rule exec_healthy [OF h run]) (rule that [OF _ n])
qed

lemma create_payment_healthy:
  assumes h: "healthy (w_db w)" and p: "p_ID p \<noteq> 0" "payment_fits p"
    and new: "p_ID p \<notin> p_ID ` set (l_payments (pg_ledger (w_db w)))"
      "\<And>k. p_IdempotencyKey p = Some k \<Longrightarrow>
         Some k \<notin> p_IdempotencyKey ` set (l_payments (pg_ledger (w_db w)))"
  obtains p' w' where "st_CreatePayment (tx_store E) p w = (Inr p', w')" "healthy (w_db w')"
    "w_ids w' = w_ids w"
proof -
  obtain t cols where st: "insert_payment = Insert t cols" by (simp add: insert_payment_def)
  define w1 where "w1 = w\<lparr>w_clk := Suc (w_clk w)\<rparr>"
  define p' where "p' = (if p_CreatedAt p = 0 then p\<lparr>p_CreatedAt := E_now (with_libs E) (w_clk w)\<rparr>
    else p)\<lparr>p_UpdatedAt := Some (E_now (with_libs E) (w_clk w))\<rparr>"
  have p': "payment_fits p'" "p_ID p' = p_ID p" "p_IdempotencyKey p' = p_IdempotencyKey p"
    using p(2) by (auto simp: p'_def payment_fits_def)
  let ?args = "insert_payment_args (with_libs E) p'"
  let ?r = "assigned cols ?args (\<lambda>_. VNull)"
  have "t = Payments" "?r C_id = VUuid (p_ID p)" "?r C_idempotency_key = nullStringArg (p_IdempotencyKey p)"
    using st p' by (auto simp: insert_payment_def insert_payment_args_def)
  then have "insert_allowed (pg_tables (w_db w)) t ?r"
    using new unfolding insert_allowed_values
    by (cases "p_IdempotencyKey p")
      (auto simp: id_stored [OF h] ledger_ids key_stored nullStringArg_def)
  then obtain w' where x: "q_Exec (pool_tx pg_pool) insert_payment ?args w1 = (Inr 1, w')"
    and w': "healthy (w_db w')" "w_ids w' = w_ids w1"
    using insert_row_healthy [of w1 t cols ?args] h insert_payment_checked [OF st] p'(1)
      inserted_not_null(1) [OF st] by (auto simp: w1_def st)
  have "st_CreatePayment (tx_store E) p w = (Inr p', w')"
    using p(1) x
    by (simp add: sql_runner_def sql_store_def Store_CreatePayment_def Let_def with_now_def bindE_def
        p'_def [symmetric] w1_def [symmetric])
  then show thesis by (rule that) (use w' in \<open>simp_all add: w1_def\<close>)
qed

lemma update_payment_healthy:
  assumes h: "healthy (w_db w)" and p: "payment_fits p"
    and q: "q \<in> set (l_payments (pg_ledger (w_db w)))" "p_ID q = p_ID p"
      "p_IdempotencyKey q = p_IdempotencyKey p"
  obtains p' w' where "st_UpdatePayment (tx_store E) p w = (Inr p', w')" "healthy (w_db w')"
    "w_ids w' = w_ids w"
proof -
  obtain cols where st: "update_payment_stmt = Update Payments cols C_id"
    by (simp add: update_payment_stmt_def)
  define w1 where "w1 = w\<lparr>w_clk := Suc (w_clk w)\<rparr>"
  define p' where "p' = p\<lparr>p_UpdatedAt := Some (E_now (with_libs E) (w_clk w))\<rparr>"
  have p': "payment_fits p'" "p_ID p' = p_ID p" "p_IdempotencyKey p' = p_IdempotencyKey p"
    using p by (auto simp: p'_def payment_fits_def)
  obtain args where args: "update_payment_args (with_libs E) p' = VUuid (p_ID p) # args"
    "args = tl (update_payment_args (with_libs E) p')"
    using p'(2) by (simp add: update_payment_args_def)
  let ?T = "pg_tables (w_db w)"
  obtain r where r: "r \<in> set (?T Payments)" "q = payment_of_row exact_ops r"
    using q(1) by (auto simp: pg_ledger_def ledger_of_def)
  have typed: "row_ok Payments r"
    using store.main.rows_typed [OF healthyD(1) [OF h] r(1)] .
  have key: "r C_idempotency_key = nullStringArg (p_IdempotencyKey p)"
    using q(3) [symmetric] r(2) row_okD [OF typed, of C_idempotency_key "Varchar 50" False]
    by (cases "r C_idempotency_key") (auto simp: nullStringArg_def)
  have keep: "not_null_ok Payments (assigned cols args r) \<and> assigned cols args r C_id = r C_id \<and>
      assigned cols args r C_payment_id = r C_payment_id \<and>
      assigned cols args r C_refund_id = r C_refund_id \<and>
      assigned cols args r C_idempotency_key = r C_idempotency_key"
  proof -
    have "not_null_ok Payments r" using typed by (simp add: row_ok_split)
    then have "not_null_ok Payments (assigned cols args r)"
      using st unfolding args(2)
      by (auto simp: update_payment_stmt_def update_payment_args_def not_null_ok_def
          all_columns_def with_libs_dec exact.String)
    with st key p'(3) show ?thesis
      unfolding args(2) by (auto simp: update_payment_stmt_def update_payment_args_def)
  qed
  obtain n w' where x: "q_Exec (pool_tx pg_pool) update_payment_stmt (VUuid (p_ID p) # args) w1 = (Inr n, w')"
    and n: "n \<noteq> 0" and w': "healthy (w_db w')" "w_ids w' = w_ids w1"
  proof (rule update_row_healthy [where w = w1 and r = r and t = Payments and cols = cols, folded st])
    show "check_values Payments cols args = None"
      using update_payment_checked [OF st] p'(1) args(2) by simp
  qed (use h keep r q(2) in \<open>simp_all add: w1_def\<close>)
  have "st_UpdatePayment (tx_store E) p w = (Inr p', w')"
    using x n args(1)
    by (simp add: sql_runner_def sql_store_def Store_UpdatePayment_def Let_def with_now_def bindE_def
        p'_def [symmetric] w1_def [symmetric])
  then show thesis by (rule that) (use w' in \<open>simp_all add: w1_def\<close>)
qed

lemma create_transaction_healthy:
  assumes h: "healthy (w_db w)" and t: "t_ID t \<noteq> 0" "transaction_fits t"
    and new: "t_ID t \<notin> t_ID ` set (l_txs (pg_ledger (w_db w)))"
    and refs: "t_PaymentID t \<in> p_ID ` set (l_payments (pg_ledger (w_db w)))"
      "\<And>i. t_RefundID t = Some i \<Longrightarrow> i \<in> r_ID ` set (l_refunds (pg_ledger (w_db w)))"
  obtains t' w' where "st_CreateTransaction (tx_store E) t w = (Inr t', w')" "healthy (w_db w')"
    "w_ids w' = w_ids w" "t_ID t' = t_ID t"
proof -
  obtain tb cols where st: "insert_transaction = Insert tb cols" by (simp add: insert_transaction_def)
  define t' where "t' = (if t_CreatedAt t = 0 then t\<lparr>t_CreatedAt := E_now (with_libs E) (w_clk w)\<rparr>
    else t)"
  define w1 where "w1 = (if t_CreatedAt t = 0 then w\<lparr>w_clk := Suc (w_clk w)\<rparr> else w)"
  have w1: "w_db w1 = w_db w" "w_ids w1 = w_ids w" by (simp_all add: w1_def)
  have t': "transaction_fits t'" "t_ID t' = t_ID t" "t_PaymentID t' = t_PaymentID t"
    "t_RefundID t' = t_RefundID t"
    using t(2) by (auto simp: t'_def transaction_fits_def)
  let ?args = "insert_transaction_args (with_libs E) t'"
  let ?r = "assigned cols ?args (\<lambda>_. VNull)"
  have "tb = Transactions" "?r C_id = VUuid (t_ID t)" "?r C_payment_id = VUuid (t_PaymentID t)"
    "?r C_refund_id = nullUUIDArg (t_RefundID t)"
    using st t' by (auto simp: insert_transaction_def insert_transaction_args_def nullUUIDArg_def
        split: option.split)
  then have "insert_allowed (pg_tables (w_db w)) tb ?r"
    using new refs unfolding insert_allowed_values
    by (cases "t_RefundID t") (auto simp: id_stored [OF h] ledger_ids nullUUIDArg_def)
  then obtain w' where x: "q_Exec (pool_tx pg_pool) insert_transaction ?args w1 = (Inr 1, w')"
    and w': "healthy (w_db w')" "w_ids w' = w_ids w1"
    using insert_row_healthy [of w1 tb cols ?args] h insert_transaction_checked [OF st] t'(1)
      inserted_not_null(3) [OF st] by (auto simp: w1 st)
  have "st_CreateTransaction (tx_store E) t w = (Inr t', w')"
    using t(1) x
    by (cases "t_CreatedAt t = 0") (simp_all add: sql_runner_def sql_store_def Store_CreateTransaction_def Let_def
        with_now_def bindE_def t'_def w1_def)
  then show thesis by (rule that) (use w' t'(2) in \<open>simp_all add: w1\<close>)
qed

lemma create_refund_healthy:
  assumes h: "healthy (w_db w)" and r: "r_ID r \<noteq> 0" "refund_fits r"
    and new: "r_ID r \<notin> r_ID ` set (l_refunds (pg_ledger (w_db w)))"
    and refs: "r_PaymentID r \<in> p_ID ` set (l_payments (pg_ledger (w_db w)))"
  obtains r' w' where "st_CreateRefund (tx_store E) r w = (Inr r', w')" "healthy (w_db w')"
    "w_ids w' = w_ids w"
proof -
  obtain t cols where st: "insert_refund = Insert t cols" by (simp add: insert_refund_def)
  define w1 where "w1 = w\<lparr>w_clk := Suc (w_clk w)\<rparr>"
  define r' where "r' = (if r_CreatedAt r = 0 then r\<lparr>r_CreatedAt := E_now (with_libs E) (w_clk w)\<rparr>
    else r)"
  have r': "refund_fits r'" "r_ID r' = r_ID r" "r_PaymentID r' = r_PaymentID r"
    using r(2) by (auto simp: r'_def refund_fits_def)
  let ?args = "insert_refund_args (with_libs E) r'"
  let ?r = "assigned cols ?args (\<lambda>_. VNull)"
  have "t = Refunds" "?r C_id = VUuid (r_ID r)" "?r C_payment_id = VUuid (r_PaymentID r)"
    using st r' by (auto simp: insert_refund_def insert_refund_args_def)
  then have "insert_allowed (pg_tables (w_db w)) t ?r"
    using new refs unfolding insert_allowed_values
    by (auto simp: id_stored [OF h] ledger_ids)
  then obtain w' where x: "q_Exec (pool_tx pg_pool) insert_refund ?args w1 = (Inr 1, w')"
    and w': "healthy (w_db w')" "w_ids w' = w_ids w1"
    using insert_row_healthy [of w1 t cols ?args] h insert_refund_checked [OF st] r'(1)
      inserted_not_null(2) [OF st] by (auto simp: w1_def st)
  have "st_CreateRefund (tx_store E) r w = (Inr r', w')"
    using r(1) x
    by (simp add: sql_runner_def sql_store_def Store_CreateRefund_def Let_def with_now_def bindE_def
        r'_def [symmetric] w1_def [symmetric])
  then show thesis by (rule that) (use w' in \<open>simp_all add: w1_def\<close>)
qed

lemma update_refund_healthy:
  assumes h: "healthy (w_db w)" and x: "refund_fits x"
    and q: "q \<in> set (l_refunds (pg_ledger (w_db w)))" "r_ID q = r_ID x"
      "r_PaymentID q = r_PaymentID x"
  obtains w' where "st_UpdateRefund (tx_store E) x w = (Inr x, w')" "healthy (w_db w')"
    "w_ids w' = w_ids w"
proof -
  obtain cols where st: "update_refund_stmt = Update Refunds cols C_id"
    by (simp add: update_refund_stmt_def)
  obtain args where args: "update_refund_args (with_libs E) x = VUuid (r_ID x) # args"
    "args = tl (update_refund_args (with_libs E) x)"
    by (simp add: update_refund_args_def)
  let ?T = "pg_tables (w_db w)"
  obtain r where r: "r \<in> set (?T Refunds)" "q = refund_of_row exact_ops r"
    using q(1) by (auto simp: pg_ledger_def ledger_of_def)
  have typed: "row_ok Refunds r"
    using store.main.rows_typed [OF healthyD(1) [OF h] r(1)] .
  have payment: "r C_payment_id = VUuid (r_PaymentID x)"
    using q(3) r(2) row_okD [OF typed, of C_payment_id UuidType True]
    by (cases "r C_payment_id") auto
  have keep: "not_null_ok Refunds (assigned cols args r) \<and> assigned cols args r C_id = r C_id \<and>
      assigned cols args r C_payment_id = r C_payment_id \<and>
      assigned cols args r C_refund_id = r C_refund_id \<and>
      assigned cols args r C_idempotency_key = r C_idempotency_key"
  proof -
    have "not_null_ok Refunds r" using typed by (simp add: row_ok_split)
    then have "not_null_ok Refunds (assigned cols args r)"
      using st unfolding args(2)
      by (auto simp: update_refund_stmt_def update_refund_args_def not_null_ok_def
          all_columns_def with_libs_dec exact.String)
    with st payment show ?thesis
      unfolding args(2) by (auto simp: update_refund_stmt_def update_refund_args_def)
  qed
  obtain n w' where e: "q_Exec (pool_tx pg_pool) update_refund_stmt (VUuid (r_ID x) # args) w = (Inr n, w')"
    and n: "n \<noteq> 0" and w': "healthy (w_db w')" "w_ids w' = w_ids w"
  proof (rule update_row_healthy [where w = w and r = r and t = Refunds and cols = cols, folded st])
    show "check_values Refunds cols args = None"
      using update_refund_checked [OF st] x args(2) by simp
  qed (use h keep r q(2) in simp_all)
  have "st_UpdateRefund (tx_store E) x w = (Inr x, w')"
    using e n args(1)
    by (simp add: sql_runner_def sql_store_def Store_UpdateRefund_def bindE_def)
  then show thesis by (rule that) (use w' in simp_all)
qed

section \<open>The calls of the service\<close>

lemma with_libs_draws: "E_uuid (with_libs E) = E_uuid E" "E_now (with_libs E) = E_now E"
  by (simp_all add: with_libs_def)

lemmas tx_writes = store.txs.tx.create_payment store.txs.tx.update_payment
  store.txs.tx.create_refund store.txs.tx.update_refund store.txs.tx.create_transaction

lemmas tx_ledger = tx_writes [folded pg_ledger_def pg_amount_def]

text \<open>A transaction whose body succeeds is committed.\<close>

lemma begin_healthy:
  assumes h: "healthy (w_db w)"
  obtains w1 where "tr_begin (sql_runner (with_libs E) pg_pool) w = (Inr (), w1)" "healthy (w_db w1)"
    "pg_ledger (w_db w1) = pg_ledger (w_db w)" "w_ids w1 = w_ids w" "quiet w w1"
proof
  let ?w1 = "w\<lparr>w_db := (w_db w)\<lparr>pg_calls := Suc (pg_calls (w_db w)), pg_saved := pg_tables (w_db w),
    pg_aborted := False, pg_locks := []\<rparr>\<rparr>"
  show "tr_begin (sql_runner (with_libs E) pg_pool) w = (Inr (), ?w1)"
    by (simp add: sql_runner_def pg_pool_def on_db_def pg_call_healthy [OF h] pg_begin_def)
  show "healthy (w_db ?w1)" using h by (simp add: healthy_def pg_ok_def)
qed (simp_all add: pg_ledger_def quiet_def)

lemma commit_healthy:
  assumes h: "healthy (w_db w)"
  obtains w1 where "tr_commit (sql_runner (with_libs E) pg_pool) w = (Inr (), w1)" "healthy (w_db w1)"
    "pg_ledger (w_db w1) = pg_ledger (w_db w)" "w_ids w1 = w_ids w"
proof
  let ?w1 = "w\<lparr>w_db := (w_db w)\<lparr>pg_calls := Suc (pg_calls (w_db w)), pg_locks := []\<rparr>\<rparr>"
  show "tr_commit (sql_runner (with_libs E) pg_pool) w = (Inr (), ?w1)"
    using h by (simp add: sql_runner_def pg_pool_def on_db_def pg_commit_def healthy_def)
  show "healthy (w_db ?w1)" using h by (simp add: healthy_def pg_ok_def)
qed (simp_all add: pg_ledger_def)

lemma RunInTx_healthy:
  assumes h: "healthy (w_db w)"
    and fn: "\<And>w1. healthy (w_db w1) \<Longrightarrow> pg_ledger (w_db w1) = pg_ledger (w_db w) \<Longrightarrow>
      w_ids w1 = w_ids w \<Longrightarrow> quiet w w1 \<Longrightarrow>
      \<exists>x w2. fn (tx_store E) w1 = (Inr x, w2) \<and> healthy (w_db w2) \<and> P (pg_ledger (w_db w2)) (w_ids w2)"
  shows "\<exists>x w'. RunInTx (sql_runner (with_libs E) pg_pool) fn w = (Inr x, w') \<and> healthy (w_db w') \<and>
    P (pg_ledger (w_db w')) (w_ids w')"
proof -
  obtain w1 where b: "tr_begin (sql_runner (with_libs E) pg_pool) w = (Inr (), w1)"
    and w1: "healthy (w_db w1)" "pg_ledger (w_db w1) = pg_ledger (w_db w)" "w_ids w1 = w_ids w"
      "quiet w w1"
    by (rule begin_healthy [OF h])
  from fn [OF w1] obtain x w2 where f: "fn (tx_store E) w1 = (Inr x, w2)" and w2: "healthy (w_db w2)"
    and P: "P (pg_ledger (w_db w2)) (w_ids w2)" by blast
  obtain w3 where "tr_commit (sql_runner (with_libs E) pg_pool) w2 = (Inr (), w3)" "healthy (w_db w3)"
    "pg_ledger (w_db w3) = pg_ledger (w_db w2)" "w_ids w3 = w_ids w2"
    by (rule commit_healthy [OF w2])
  with b f P show ?thesis by (simp add: RunInTx_def bindE_def)
qed

text \<open>Reads are answered, a missing row with \<open>ErrNoRows\<close>.\<close>

definition answered :: "(pg, 'x) world \<Rightarrow> (go_error + 'a) \<times> (pg, 'x) world \<Rightarrow> bool" where
  "answered w out \<longleftrightarrow> (case out of (r, w') \<Rightarrow> healthy (w_db w') \<and>
     pg_ledger (w_db w') = pg_ledger (w_db w) \<and> w_ids w' = w_ids w \<and> quiet w w' \<and>
     (\<forall>e. r = Inl e \<longrightarrow> e = ErrNoRows))"

lemma answeredD:
  assumes "answered w out"
  obtains r w' where "out = (r, w')" "healthy (w_db w')" "pg_ledger (w_db w') = pg_ledger (w_db w)"
    "w_ids w' = w_ids w" "quiet w w'" "r = Inl ErrNoRows \<or> (\<exists>x. r = Inr x)"
proof (cases out)
  case (Pair r w')
  with assms that show thesis by (cases r) (auto simp: answered_def)
qed

lemma select_rows_subset: "set (select_rows sel v T) \<subseteq> set (T (sel_table sel))"
  by (auto simp: select_rows_def Let_def dest: in_set_takeD split: if_splits)

lemma query_healthy:
  assumes h: "healthy (w_db w)" and s: "s_db s = pg_querier b"
    and scan: "\<And>r. r \<in> set (pg_tables (w_db w) (sel_table sel)) \<Longrightarrow>
      \<exists>x. scan (select_row (sel_columns sel) r) = Inr x"
  shows "answered w (query_row s scan sel v w)"
proof -
  have "\<forall>r \<in> set (select_rows sel v (pg_tables (w_db w))).
      \<exists>x. scan (select_row (sel_columns sel) r) = Inr x"
    using scan select_rows_subset by fastforce
  with h show ?thesis
    unfolding query_row_healthy [OF h s] answered_def
    by (auto simp: pg_ledger_def quiet_def split: list.split)
qed

lemma queries_healthy:
  assumes h: "healthy (w_db w)" and s: "s_db s = pg_querier b"
    and scan: "\<And>r. r \<in> set (pg_tables (w_db w) (sel_table sel)) \<Longrightarrow>
      \<exists>x. scan (select_row (sel_columns sel) r) = Inr x"
  shows "answered w (query_rows s scan sel v w)" "\<exists>xs. fst (query_rows s scan sel v w) = Inr xs"
proof -
  let ?rows = "map (select_row (sel_columns sel)) (select_rows sel v (pg_tables (w_db w)))"
  have "list_all (\<lambda>v. \<exists>x. scan v = Inr x) ?rows"
    using scan select_rows_subset by (fastforce simp: list_all_iff)
  from scan_rows_all [OF this] h
  show "answered w (query_rows s scan sel v w)" "\<exists>xs. fst (query_rows s scan sel v w) = Inr xs"
    by (simp_all add: query_rows_def s pg_querier_def bindE_def on_db_def pg_call_healthy [OF h]
        pg_query_def pg_select_def Let_def answered_def pg_ledger_def quiet_def)
qed

lemma rows_scanned:
  assumes "healthy db"
  shows "r \<in> set (pg_tables db Payments) \<Longrightarrow>
      scanPaymentRow (with_libs E) (select_row payment_columns r) = Inr (payment_of_row exact_ops r)"
    and "r \<in> set (pg_tables db Refunds) \<Longrightarrow>
      scanRefundRow (with_libs E) (select_row refund_columns r) = Inr (refund_of_row exact_ops r)"
  using store.main.rows_typed [OF healthyD(1) [OF assms]]
  by (auto intro: store.scan_payment store.scan_refund)

lemma lookups_healthy:
  fixes E :: "exact env"
  assumes h: "healthy (w_db w)"
  defines "S \<equiv> sql_store (with_libs E) (NewStore pg_pool)"
  shows "answered w (st_GetPayment S i w)" "answered w (st_GetPaymentByOrderID S s w)"
    "answered w (st_GetPaymentByIdempotencyKey S s w)"
    "answered w (st_GetRefund S i w)" "answered w (st_GetRefundByCorrelationID S s w)"
  unfolding S_def sql_store_def payment_store.simps Store_GetPayment_def
    Store_GetPaymentByOrderID_def Store_GetPaymentByIdempotencyKey_def Store_GetRefund_def
    Store_GetRefundByCorrelationID_def
  by (rule query_healthy [OF h store_queriers(1)],
      simp add: select_payment_def select_refund_def rows_scanned [OF h])+

lemma tx_lookups_healthy:
  assumes h: "healthy (w_db w)"
  shows "answered w (st_GetPaymentForUpdate (tx_store E) i w)"
    "fst (st_GetPaymentForUpdate (tx_store E) i w) =
      (case find (\<lambda>p. p_ID p = i) (l_payments (pg_ledger (w_db w))) of
         None \<Rightarrow> Inl ErrNoRows | Some p \<Rightarrow> Inr p)"
    "answered w (st_GetRefundsByPayment (tx_store E) i w)"
    "\<exists>rs. fst (st_GetRefundsByPayment (tx_store E) i w) = Inr rs"
  unfolding sql_runner_def tx_runner.simps sql_store_def payment_store.simps
    Store_GetPaymentForUpdate_def Store_GetRefundsByPayment_def
  by (rule query_healthy [OF h store_queriers(2)] queries_healthy [OF h store_queriers(2)]
        payment_by_id [OF h store_queriers(2)],
      simp add: select_payment_def select_refund_def rows_scanned [OF h])+

end
