(* ===== verification/Liveness.thy ===== *)
theory Liveness
  imports Healthy_Store
begin

text \<open>
  Progress: on a healthy database a new payment is charged and recorded, and a refund that the
  rest of its payment covers is recorded.  What a request needs for that is spelt out: values
  that fit their columns, answers of the gateway that do, and UUIDs that are new.
\<close>

section \<open>Charges that are recorded\<close>

text \<open>What the gateway answers fits the columns it is stored in.\<close>

definition result_fits :: "payment_result \<Rightarrow> bool" where
  "result_fits res \<longleftrightarrow>
     opt_fits 255 (nullString (pr_TransactionID res)) \<and>
     opt_fits 255 (nullString (pr_PaymentIntentID res)) \<and>
     opt_fits 4 (nullString (pr_CardLast4 res)) \<and> opt_fits 20 (nullString (pr_CardBrand res)) \<and>
     opt_fits 50 (nullString (pr_ErrorCode res)) \<and> opt_fits 500 (nullString (pr_ErrorMessage res))"

lemma settled_fits:
  "payment_fits p \<Longrightarrow> result_fits res \<Longrightarrow> payment_fits (settle res now p)"
  by (auto simp: settle_def completed_payment_def failed_payment_def payment_fits_def
      result_fits_def opt_fits_def PaymentStatusCompleted_def PaymentStatusFailed_def)

lemma charge_fits:
  "payment_fits p \<Longrightarrow> result_fits res \<Longrightarrow> opt_fits 100 (nullString c) \<Longrightarrow>
     transaction_fits (charge_transaction p c res now u)"
  by (auto simp: charge_transaction_def payment_fits_def result_fits_def transaction_fits_def
      opt_fits_def TransactionTypeCharge_def)

text \<open>The charge is opened: its row is inserted and becomes PROCESSING.\<close>

lemma charge_opened_healthy:
  assumes h: "healthy (w_db w)" and p: "p_ID p \<noteq> 0" "payment_fits p"
    and new: "p_ID p \<notin> p_ID ` set (l_payments (pg_ledger (w_db w)))"
      "\<And>k. p_IdempotencyKey p = Some k \<Longrightarrow>
         Some k \<notin> p_IdempotencyKey ` set (l_payments (pg_ledger (w_db w)))"
  obtains p1 w1 p2 w2 q where "st_CreatePayment (tx_store E) p w = (Inr p1, w1)"
    "st_UpdatePayment (tx_store E) (p1\<lparr>p_Status := PaymentStatusProcessing, p_ProcessedAt := Some now\<rparr>)
       w1 = (Inr p2, w2)"
    "healthy (w_db w2)" "w_ids w2 = w_ids w" "payment_fits p2"
    "l_txs (pg_ledger (w_db w2)) = l_txs (pg_ledger (w_db w))"
    "q \<in> set (l_payments (pg_ledger (w_db w2)))" "p_ID q = p_ID p2"
    "p_IdempotencyKey q = p_IdempotencyKey p2"
proof -
  let ?L = "pg_ledger (w_db w)" and ?k = "keep_payment pg_amount micros"
  obtain p1 w1 where c1: "st_CreatePayment (tx_store E) p w = (Inr p1, w1)"
    and w1: "healthy (w_db w1)" "w_ids w1 = w_ids w"
    by (rule create_payment_healthy [OF h p new])
  obtain i cr up where p1: "p1 = p\<lparr>p_ID := i, p_CreatedAt := cr, p_UpdatedAt := Some up\<rparr>"
    and v1: "pg_ledger (w_db w1) = ?L\<lparr>l_payments := l_payments ?L @ [?k p1]\<rparr>"
    using tx_ledger(1) [OF healthyD(1) [OF h] c1] by blast
  let ?p = "p1\<lparr>p_Status := PaymentStatusProcessing, p_ProcessedAt := Some now\<rparr>"
  have fits: "payment_fits ?p"
    using p(2) by (auto simp: p1 payment_fits_def PaymentStatusProcessing_def)
  obtain p2 w2 where c2: "st_UpdatePayment (tx_store E) ?p w1 = (Inr p2, w2)"
    and w2: "healthy (w_db w2)" "w_ids w2 = w_ids w"
    by (rule update_payment_healthy [OF w1(1) fits, where q = "?k p1"]) (simp_all add: v1 w1(2))
  obtain up2 where p2: "p2 = ?p\<lparr>p_UpdatedAt := Some up2\<rparr>"
    and v2: "pg_ledger (w_db w2) = (pg_ledger (w_db w1))\<lparr>l_payments :=
      replace_payment (?k p2) (l_payments (pg_ledger (w_db w1)))\<rparr>"
    using tx_ledger(2) [OF healthyD(1) [OF w1(1)] c2] by blast
  have "\<exists>q \<in> set (l_payments (pg_ledger (w_db w2))). p_ID q = p_ID p2 \<and>
      p_IdempotencyKey q = p_IdempotencyKey p2"
    by (simp add: v2 v1 p2 replace_payment_append)
  moreover have "payment_fits p2" using fits by (simp add: p2 payment_fits_def)
  moreover have "l_txs (pg_ledger (w_db w2)) = l_txs ?L" by (simp add: v2 v1)
  ultimately show thesis using that [OF c1 c2 w2] by blast
qed

lemma persist_healthy:
  assumes h: "healthy (w_db w)" and p: "p_ID p \<noteq> 0" "payment_fits p"
    and new: "p_ID p \<notin> p_ID ` set (l_payments (pg_ledger (w_db w)))"
      "\<And>k. p_IdempotencyKey p = Some k \<Longrightarrow>
         Some k \<notin> p_IdempotencyKey ` set (l_payments (pg_ledger (w_db w)))"
    and res: "result_fits res" and c: "opt_fits 100 (nullString c)"
    and u: "E_uuid E (w_ids w) \<noteq> 0" "E_uuid E (w_ids w) \<notin> t_ID ` set (l_txs (pg_ledger (w_db w)))"
  obtains p' w' where
    "persistProcessedPayment (with_libs E) (tx_store E) p c res now w = (Inr p', w')"
    "healthy (w_db w')"
proof -
  let ?L = "pg_ledger (w_db w)"
  obtain p1 w1 p2 w2 q where c1: "st_CreatePayment (tx_store E) p w = (Inr p1, w1)"
      "st_UpdatePayment (tx_store E) (p1\<lparr>p_Status := PaymentStatusProcessing,
         p_ProcessedAt := Some now\<rparr>) w1 = (Inr p2, w2)"
    and w2: "healthy (w_db w2)" "w_ids w2 = w_ids w" and f2: "payment_fits p2"
    and L2: "l_txs (pg_ledger (w_db w2)) = l_txs ?L"
    and q: "q \<in> set (l_payments (pg_ledger (w_db w2)))" "p_ID q = p_ID p2"
      "p_IdempotencyKey q = p_IdempotencyKey p2"
    by (rule charge_opened_healthy [OF h p new, where now = now and E = E])
  define t where "t = charge_transaction p2 c res now (E_uuid E (w_ids w2))"
  obtain t' w3 where c3: "st_CreateTransaction (tx_store E) t (w2\<lparr>w_ids := Suc (w_ids w2)\<rparr>) = (Inr t', w3)"
    and w3: "healthy (w_db w3)"
  proof (rule create_transaction_healthy [where t = t and w = "w2\<lparr>w_ids := Suc (w_ids w2)\<rparr>"])
    show "transaction_fits t" unfolding t_def by (rule charge_fits [OF f2 res c])
    show "t_PaymentID t \<in> p_ID ` set (l_payments (pg_ledger (w_db (w2\<lparr>w_ids := Suc (w_ids w2)\<rparr>))))"
      using imageI [OF q(1), of p_ID] by (simp add: t_def charge_transaction_def q(2))
  qed (use w2 u in \<open>simp_all add: t_def charge_transaction_def L2\<close>)
  have v3: "l_payments (pg_ledger (w_db w3)) = l_payments (pg_ledger (w_db w2))"
    using tx_ledger(5) [OF _ c3] healthyD(1) [OF w2(1)] by auto
  define w4 where "w4 = (if pr_Success res then w3\<lparr>w_clk := Suc (w_clk w3)\<rparr> else w3)"
  have w4: "w_db w4 = w_db w3" by (simp add: w4_def)
  define p3 where "p3 = settle res (E_now E (w_clk w3)) p2"
  have f3: "payment_fits p3" unfolding p3_def by (rule settled_fits [OF f2 res])
  have id3: "p_ID p3 = p_ID p2" "p_IdempotencyKey p3 = p_IdempotencyKey p2"
    by (simp_all add: p3_def settle_def completed_payment_def failed_payment_def)
  obtain p' w' where c4: "st_UpdatePayment (tx_store E) p3 w4 = (Inr p', w')"
    and w': "healthy (w_db w')"
    by (rule update_payment_healthy [OF _ f3, where w = w4 and q = q]) (use w3 w4 v3 q id3 in simp_all)
  have "persistProcessedPayment (with_libs E) (tx_store E) p c res now w = (Inr p', w')"
    using c1 c3 c4
    by (cases "pr_Success res") (simp_all add: persistProcessedPayment_def bindE_def draw_defs
        t_def p3_def w4_def settle_def with_libs_draws)
  with w' show thesis by (intro that)
qed

text \<open>The primary keys of a ledger; what they become when only \<open>A\<close> and at most \<open>k\<close> UUIDs drawn
  meanwhile are added.\<close>

definition all_ids :: "exact ledger \<Rightarrow> uuid set" where
  "all_ids L = p_ID ` set (l_payments L) \<union> r_ID ` set (l_refunds L) \<union> t_ID ` set (l_txs L)"

definition drawn :: "exact env \<Rightarrow> nat \<Rightarrow> uuid set \<Rightarrow> exact ledger \<Rightarrow> nat \<Rightarrow> exact ledger \<Rightarrow> nat \<Rightarrow> bool" where
  "drawn E k A L n L' n' \<longleftrightarrow> n \<le> n' \<and> n' \<le> n + k \<and> all_ids L' \<subseteq> A \<union> all_ids L \<union> E_uuid E ` {n..<n'}"

text \<open>The next \<open>k\<close> UUIDs drawn are new.\<close>

definition fresh_ids :: "nat \<Rightarrow> exact env \<Rightarrow> (pg, 'x) world \<Rightarrow> bool" where
  "fresh_ids k E w \<longleftrightarrow> (\<forall>n \<in> {w_ids w ..< w_ids w + k}. E_uuid E n \<noteq> 0 \<and>
     E_uuid E n \<notin> p_ID ` set (l_payments (pg_ledger (w_db w))) \<and>
     E_uuid E n \<notin> r_ID ` set (l_refunds (pg_ledger (w_db w))) \<and>
     E_uuid E n \<notin> t_ID ` set (l_txs (pg_ledger (w_db w))))"

lemma fresh_idsD:
  assumes "fresh_ids k E w" "w_ids w \<le> n" "n < w_ids w + k"
  shows "E_uuid E n \<noteq> 0" "E_uuid E n \<notin> p_ID ` set (l_payments (pg_ledger (w_db w)))"
    "E_uuid E n \<notin> r_ID ` set (l_refunds (pg_ledger (w_db w)))"
    "E_uuid E n \<notin> t_ID ` set (l_txs (pg_ledger (w_db w)))"
  using assms unfolding fresh_ids_def by (meson atLeastLessThan_iff)+

lemma fresh_ids_cong:
  "fresh_ids k E w \<Longrightarrow> pg_ledger (w_db w') = pg_ledger (w_db w) \<Longrightarrow> w_ids w' = w_ids w \<Longrightarrow>
     fresh_ids k E w'"
  by (simp add: fresh_ids_def)

text \<open>A gateway draws at most two UUIDs for a charge, and answers with values that fit.\<close>

definition charge_fits_columns :: "(exact, pg, 'x) payment_gateway \<Rightarrow> exact gateway_payment_request \<Rightarrow>
    bool" where
  "charge_fits_columns g request \<longleftrightarrow> (\<forall>w. case gw_ProcessPayment g request w of
     (res, w') \<Rightarrow> result_fits res \<and> w_ids w \<le> w_ids w' \<and> w_ids w' \<le> w_ids w + 2)"

text \<open>No payment of the ledger answers the request, or holds the key it would store.\<close>

definition unpaid :: "exact process_payment_request \<Rightarrow> string \<Rightarrow> exact ledger \<Rightarrow> bool" where
  "unpaid req key L \<longleftrightarrow> (\<forall>q \<in> set (l_payments L). \<not> earlier_payment req key L q \<and>
     (p_IdempotencyKey q = None \<or> p_IdempotencyKey q \<noteq> nullString key))"

lemma charge_recorded_healthy:
  assumes h: "healthy (w_db w)" and svc: "store.txs.svc_ok E svc"
    and g: "GetGatewayOrDefault (with_libs E) (svc_router svc) (pq_Gateway req) = Inr g"
    and unpaid: "unpaid req key (pg_ledger (w_db w))"
    and fits: "payment_fits (new_payment (with_libs E) req (gw_GetName g) c key 0 0)"
      "charge_fits_columns g (payment_gateway_request (with_libs E) req c key)"
    and fresh: "fresh_ids 4 E w"
  shows "\<exists>q w'. charge_and_persist (with_libs E) svc req c key w = (Inr q, w') \<and> healthy (w_db w')"
proof -
  let ?E = "with_libs E"
  define w0 where "w0 = w\<lparr>w_clk := Suc (w_clk w), w_ids := Suc (w_ids w)\<rparr>"
  define p where "p = new_payment ?E req (gw_GetName g) c key (E_now E (w_clk w)) (E_uuid E (w_ids w))"
  obtain res w1 where gw: "gw_ProcessPayment g (payment_gateway_request ?E req c key) w0 = (res, w1)"
    by fastforce
  have "gateway_contract g"
    using router_ok_default [OF _ g] svc by (simp add: store.txs.svc_ok_def)
  from gateway_contract.payment_db [OF this gw] have db: "w_db w1 = w_db w" by (simp add: w0_def)
  have res: "result_fits res" "w_ids w < w_ids w1" "w_ids w1 < w_ids w + 4"
    using fits(2) gw unfolding charge_fits_columns_def by (auto simp: w0_def dest: spec [of _ w0])
  have p: "payment_fits p" "p_ID p = E_uuid E (w_ids w)" "p_IdempotencyKey p = nullString key"
    "opt_fits 100 (nullString c)"
    using fits(1) by (auto simp: p_def new_payment_def payment_fits_def)
  have "\<exists>q w'. RunInTx (sql_runner ?E pg_pool)
      (\<lambda>store. persistProcessedPayment ?E store p c res (E_now E (w_clk w))) w1 = (Inr q, w') \<and>
      healthy (w_db w')"
  proof (rule RunInTx_healthy [where P = "\<lambda>_ _. True", simplified])
    fix w2 :: "(pg, 'a) world"
    assume w2: "healthy (w_db w2)" "pg_ledger (w_db w2) = pg_ledger (w_db w1)" "w_ids w2 = w_ids w1"
    obtain q w' where "persistProcessedPayment ?E (tx_store E) p c res (E_now E (w_clk w)) w2 = (Inr q, w')"
      "healthy (w_db w')"
    proof (rule persist_healthy [OF w2(1)])
      show "payment_fits p" "result_fits res" "opt_fits 100 (nullString c)" by fact+
      show "p_ID p \<noteq> 0" "p_ID p \<notin> p_ID ` set (l_payments (pg_ledger (w_db w2)))"
        using fresh_idsD [OF fresh, of "w_ids w"] by (simp_all add: p(2) w2(2) db)
      show "E_uuid E (w_ids w2) \<noteq> 0" "E_uuid E (w_ids w2) \<notin> t_ID ` set (l_txs (pg_ledger (w_db w2)))"
        using fresh_idsD [OF fresh, of "w_ids w1"] res by (simp_all add: w2(2,3) db)
      show "Some k \<notin> p_IdempotencyKey ` set (l_payments (pg_ledger (w_db w2)))"
        if "p_IdempotencyKey p = Some k" for k
        using unpaid that unfolding unpaid_def w2(2) db p(3) by force
    qed
    then show "\<exists>q w'. persistProcessedPayment ?E (tx_store E) p c res (E_now E (w_clk w)) w2 = (Inr q, w') \<and>
      healthy (w_db w')" by blast
  qed (use h db in simp)
  then obtain q w' where run: "RunInTx (sql_runner ?E pg_pool)
      (\<lambda>store. persistProcessedPayment ?E store p c res (E_now E (w_clk w))) w1 = (Inr q, w')"
    and w': "healthy (w_db w')" by blast
  have "charge_and_persist ?E svc req c key w = (Inr q, w')"
    using svc g gw run
    by (simp add: charge_and_persist_def persist_or_replay_def run_persist_def store.txs.svc_ok_def
        draw_defs with_libs_draws w0_def p_def)
  with w' show ?thesis by blast
qed

lemma pay_by_order_healthy:
  assumes h: "healthy (w_db w)" and svc: "store.txs.svc_ok E svc"
    and g: "GetGatewayOrDefault (with_libs E) (svc_router svc) (pq_Gateway req) = Inr g"
    and unpaid: "unpaid req key (pg_ledger (w_db w))"
    and fits: "payment_fits (new_payment (with_libs E) req (gw_GetName g) c key 0 0)"
      "charge_fits_columns g (payment_gateway_request (with_libs E) req c key)"
    and fresh: "fresh_ids 4 E w"
  shows "\<exists>q w'. pay_by_order (with_libs E) svc req c key w = (Inr q, w') \<and> healthy (w_db w')"
proof -
  let ?E = "with_libs E"
  let ?S = "sql_store ?E (NewStore pg_pool)"
  have S: "svc_store svc = ?S" using svc by (simp add: store.txs.svc_ok_def)
  obtain r w1 where get: "st_GetPaymentByOrderID ?S (pq_OrderID req) w = (r, w1)"
    and w1: "healthy (w_db w1)" "pg_ledger (w_db w1) = pg_ledger (w_db w)" "w_ids w1 = w_ids w"
    and e: "r = Inl ErrNoRows \<or> (\<exists>x. r = Inr x)"
    by (rule answeredD [OF lookups_healthy(2) [OF h]])
  have "\<exists>q w'. charge_and_persist ?E svc req c key w1 = (Inr q, w') \<and> healthy (w_db w')"
    using charge_recorded_healthy [OF w1(1) svc g _ fits fresh_ids_cong [OF fresh]] unpaid w1 by simp
  moreover have "p_Status q \<noteq> PaymentStatusCompleted" if "r = Inr q" for q
    using store.txs.get_payment_by_order [OF healthyD(1) [OF h], folded pg_ledger_def,
        OF get [unfolded that]] unpaid
    unfolding unpaid_def earlier_payment_def by blast
  ultimately show ?thesis unfolding S get using e by (cases r) auto
qed

lemma ProcessPayment_healthy:
  assumes h: "healthy (w_db w)" and svc: "store.txs.svc_ok E svc"
    and g: "GetGatewayOrDefault (with_libs E) (svc_router svc) (pq_Gateway req) = Inr g"
    and unpaid: "unpaid req key (pg_ledger (w_db w))"
    and fits: "payment_fits (new_payment (with_libs E) req (gw_GetName g) c key 0 0)"
      "charge_fits_columns g (payment_gateway_request (with_libs E) req c key)"
    and fresh: "fresh_ids 4 E w"
  shows "\<exists>q w'. ProcessPayment (with_libs E) svc req c key w = (Inr q, w') \<and> healthy (w_db w')"
proof (cases "blank key")
  case True
  with pay_by_order_healthy [OF h svc g unpaid fits fresh] show ?thesis
    by (simp add: ProcessPayment_def)
next
  case False
  have S: "svc_store svc = sql_store (with_libs E) (NewStore pg_pool)"
    using svc by (simp add: store.txs.svc_ok_def)
  obtain r w1 where get: "st_GetPaymentByIdempotencyKey (svc_store svc) key w = (r, w1)"
    and w1: "healthy (w_db w1)" "pg_ledger (w_db w1) = pg_ledger (w_db w)" "w_ids w1 = w_ids w"
    and e: "r = Inl ErrNoRows \<or> (\<exists>x. r = Inr x)"
    unfolding S by (rule answeredD [OF lookups_healthy(3) [OF h]])
  have "r \<noteq> Inr q" for q
    using store.txs.key_lookup [OF healthyD(1) [OF h] svc get, folded pg_ledger_def] unpaid False
    unfolding unpaid_def earlier_payment_def by auto
  with e have "r = Inl ErrNoRows" by blast
  with get pay_by_order_healthy [OF w1(1) svc g _ fits fresh_ids_cong [OF fresh]] unpaid w1 False
  show ?thesis by (simp add: ProcessPayment_def found_or_def)
qed

text \<open>A key that a stored payment carries is found.\<close>

lemma ProcessPayment_replay_healthy:
  assumes h: "healthy (w_db w)" and svc: "store.txs.svc_ok E svc" and k: "\<not> blank key"
    and stored: "Some key \<in> p_IdempotencyKey ` set (l_payments (pg_ledger (w_db w)))"
  shows "\<exists>q w'. ProcessPayment (with_libs E) svc req c key w = (Inr q, w')"
proof -
  have S: "svc_store svc = sql_store (with_libs E) (NewStore pg_pool)"
    using svc by (simp add: store.txs.svc_ok_def)
  obtain r w1 where get: "st_GetPaymentByIdempotencyKey (svc_store svc) key w = (r, w1)"
    and e: "r = Inl ErrNoRows \<or> (\<exists>x. r = Inr x)"
    unfolding S by (rule answeredD [OF lookups_healthy(3) [OF h]])
  have "r \<noteq> Inl ErrNoRows"
    using store.txs.key_lookup [OF healthyD(1) [OF h] svc get, folded pg_ledger_def] stored by auto
  with e get k show ?thesis by (auto simp: ProcessPayment_def found_or_def)
qed

section \<open>Refunds that are recorded\<close>

definition refund_result_fits :: "refund_result \<Rightarrow> bool" where
  "refund_result_fits res \<longleftrightarrow>
     opt_fits 255 (nullString (rr_RefundID res)) \<and> opt_fits 50 (nullString (rr_ErrorCode res)) \<and>
     opt_fits 500 (nullString (rr_ErrorMessage res))"

definition refunds_fit_columns :: "(exact, pg, 'x) payment_gateway \<Rightarrow> bool" where
  "refunds_fit_columns g \<longleftrightarrow> (\<forall>request w. case gw_ProcessRefund g request w of
     (res, w') \<Rightarrow> refund_result_fits res \<and> w_ids w \<le> w_ids w' \<and> w_ids w' \<le> w_ids w + 2)"

lemma settled_refund_fits:
  "refund_fits r \<Longrightarrow> refund_result_fits res \<Longrightarrow> refund_fits (settled_refund res now r)"
  by (auto simp: settled_refund_def completed_refund_def failed_refund_def refund_fits_def
      refund_result_fits_def opt_fits_def RefundStatusCompleted_def RefundStatusFailed_def)

text \<open>A stored payment still fits when its status changes.\<close>

lemma opt_fits_typed: "has_type (Varchar n) v \<Longrightarrow> opt_fits n (as_text v)"
  by (cases v) (simp_all add: opt_fits_def)

lemma text_fits_typed: "has_type (Varchar n) v \<Longrightarrow> length (text_of v) \<le> n"
  by (cases v) (simp_all add: text_of_def)

lemma amount_fits_typed: "has_type Numeric19_4 v \<Longrightarrow> amount_fits (amount4 exact_ops (as_numeric v))"
  by (cases v) (simp_all add: amount_fits_def store.cents4_amount4)

lemma stored_payment_fits:
  assumes h: "healthy db" and p: "p \<in> set (l_payments (pg_ledger db))"
  shows "payment_fits p"
proof -
  from p obtain r where r: "r \<in> set (pg_tables db Payments)" "p = payment_of_row exact_ops r"
    by (auto simp: pg_ledger_def ledger_of_def)
  have "row_ok Payments r" using store.main.rows_typed [OF healthyD(1) [OF h] r(1)] .
  then have typed: "has_type ty (r c)" if "payments_schema c = Some (ty, n)" for c ty n
    using that by (auto dest: row_okD)
  show ?thesis
    unfolding payment_fits_def r(2) payment_of_row_def payment.simps
    by (intro conjI opt_fits_typed text_fits_typed amount_fits_typed; rule typed, rule payments_schema.simps)
qed

lemma payment_fits_status:
  "payment_fits p \<Longrightarrow> length st \<le> 20 \<Longrightarrow> payment_fits (p\<lparr>p_Status := st\<rparr>)"
  by (simp add: payment_fits_def)

text \<open>The check against the rest passes.\<close>

lemma covered_check:
  assumes L: "refund_covered exact_val L i amount" "distinct (map p_ID (l_payments L))"
    and p: "p \<in> set (l_payments L)" "p_ID p = i"
    and rs: "mset rs = mset (filter (\<lambda>r. r_PaymentID r = i) (l_refunds L))"
  shows "refund_allowed p" "\<not> dec_Cmp exact_ops amount (dec_Sub exact_ops (p_Amount p)
      (add_completed exact_ops (dec_Zero exact_ops) rs)) > 0"
proof -
  obtain q where q: "q \<in> set (l_payments L)" "p_ID q = i" "refund_allowed q"
    "exact_val amount \<le> exact_val (p_Amount q) - refunded exact_val L i"
    using L(1) by (auto simp: refund_covered_def list_ex_iff)
  then have "q = p" using L(2) p by (auto simp: distinct_map dest: inj_onD)
  with q show "refund_allowed p" "\<not> dec_Cmp exact_ops amount (dec_Sub exact_ops (p_Amount p)
      (add_completed exact_ops (dec_Zero exact_ops) rs)) > 0"
    using exact.val_total_of_payment [OF rs] by (simp_all add: exact.Cmp_gt exact.val_Sub)
qed

lemma settle_refund_healthy:
  assumes h: "healthy (w_db w)" and p: "payment_fits p"
    and q: "q \<in> set (l_payments (pg_ledger (w_db w)))" "p_ID q = p_ID p"
      "p_IdempotencyKey q = p_IdempotencyKey p"
    and r: "refund_fits r" "refund_result_fits res"
    and x: "x \<in> set (l_refunds (pg_ledger (w_db w)))" "r_ID x = r_ID r"
      "r_PaymentID x = r_PaymentID r"
  shows "\<exists>r' w'. settle_refund (with_libs E) (tx_store E) p r amount remaining res w = (Inr r', w') \<and>
    healthy (w_db w') \<and> w_ids w' = w_ids w \<and> all_ids (pg_ledger (w_db w')) = all_ids (pg_ledger (w_db w))"
proof -
  define st where "st = final_status (with_libs E) amount remaining res"
  define w0 where "w0 = (if rr_Success res then w\<lparr>w_clk := Suc (w_clk w)\<rparr> else w)"
  have w0: "healthy (w_db w0)" "w_db w0 = w_db w" "w_ids w0 = w_ids w" using h by (simp_all add: w0_def)
  have "length st \<le> 20"
    by (simp add: st_def final_status_def payment_status_defs)
  then have f: "payment_fits (p\<lparr>p_Status := st\<rparr>)" using p by (rule payment_fits_status [rotated])
  obtain p' w1 where u: "st_UpdatePayment (tx_store E) (p\<lparr>p_Status := st\<rparr>) w0 = (Inr p', w1)"
    and w1: "healthy (w_db w1)" "w_ids w1 = w_ids w0"
    by (rule update_payment_healthy [OF w0(1) f, where q = q]) (use q w0 in simp_all)
  have same: "l_refunds (pg_ledger (w_db w1)) = l_refunds (pg_ledger (w_db w))"
    "l_txs (pg_ledger (w_db w1)) = l_txs (pg_ledger (w_db w))"
    "p_ID ` set (l_payments (pg_ledger (w_db w1))) = p_ID ` set (l_payments (pg_ledger (w_db w)))"
    using tx_ledger(2) [OF healthyD(1) [OF w0(1)] u] w0(2) by (auto simp flip: set_map)
  define r' where "r' = settled_refund res (E_now E (w_clk w)) r"
  have r': "refund_fits r'" "r_ID r' = r_ID r" "r_PaymentID r' = r_PaymentID r"
    using settled_refund_fits [OF r] by (simp_all add: r'_def settled_refund_def completed_refund_def
        failed_refund_def)
  obtain w2 where v: "st_UpdateRefund (tx_store E) r' w1 = (Inr r', w2)"
    and w2: "healthy (w_db w2)" "w_ids w2 = w_ids w1"
    by (rule update_refund_healthy [OF w1(1) r'(1), where q = x]) (use x same r' in simp_all)
  have ids: "all_ids (pg_ledger (w_db w2)) = all_ids (pg_ledger (w_db w1))"
    using tx_ledger(4) [OF healthyD(1) [OF w1(1)] v] by (simp add: all_ids_def flip: set_map)
  have "settle_refund (with_libs E) (tx_store E) p r amount remaining res w = (Inr r', w2)"
    using u v unfolding st_def w0_def r'_def
    by (cases "rr_Success res") (simp_all add: settle_refund_def bindE_def draw_defs with_libs_draws
        settled_refund_def final_status_def)
  with w2 w1(2) w0(3) ids same show ?thesis by (simp add: all_ids_def)
qed

text \<open>The parts of the transaction, as in \<open>Refund_Service\<close>.\<close>

lemma refund_locked_healthy:
  assumes h: "healthy (w_db w)"
    and cov: "refund_covered exact_val (pg_ledger (w_db w)) i amount"
  obtains p w1 rs w2 where
    "st_GetPaymentForUpdate (tx_store E) i w = (Inr p, w1)"
    "st_GetRefundsByPayment (tx_store E) i w1 = (Inr rs, w2)"
    "healthy (w_db w2)" "pg_ledger (w_db w2) = pg_ledger (w_db w)" "w_ids w2 = w_ids w"
    "p \<in> set (l_payments (pg_ledger (w_db w)))" "p_ID p = i" "refund_allowed p"
    "\<not> dec_Cmp exact_ops amount (dec_Sub exact_ops (p_Amount p)
       (add_completed exact_ops (dec_Zero exact_ops) rs)) > 0"
proof -
  let ?L = "pg_ledger (w_db w)"
  have ids: "distinct (map p_ID (l_payments ?L))"
    using store.txs.view_ids [OF healthyD(1) [OF h], folded pg_ledger_def] by simp
  obtain p0 where p0: "p0 \<in> set (l_payments ?L)" "p_ID p0 = i"
    using cov by (auto simp: refund_covered_def list_ex_iff)
  obtain r1 w1 where g1: "st_GetPaymentForUpdate (tx_store E) i w = (r1, w1)"
    and w1: "healthy (w_db w1)" "pg_ledger (w_db w1) = ?L" "w_ids w1 = w_ids w"
    by (rule answeredD [OF tx_lookups_healthy(1) [OF h]])
  obtain p where p: "r1 = Inr p" "p \<in> set (l_payments ?L)" "p_ID p = i"
  proof (cases "find (\<lambda>p. p_ID p = i) (l_payments ?L)")
    case None
    with p0 show thesis by (auto simp: find_None_iff)
  next
    case (Some p)
    with tx_lookups_healthy(2) [OF h, of E i] g1 that show thesis
      by (auto simp: find_Some_iff)
  qed
  obtain r2 w2 where g2: "st_GetRefundsByPayment (tx_store E) i w1 = (r2, w2)"
    and w2: "healthy (w_db w2)" "pg_ledger (w_db w2) = ?L" "w_ids w2 = w_ids w"
    by (rule answeredD [OF tx_lookups_healthy(3) [OF w1(1)]]) (use w1 in auto)
  obtain rs where rs: "r2 = Inr rs" using tx_lookups_healthy(4) [OF w1(1), of E i] g2 by auto
  have "mset rs = mset (filter (\<lambda>r. r_PaymentID r = i) (l_refunds ?L))"
    using store.txs.tx.get_refunds_by_payment [OF healthyD(1) [OF w1(1)] g2 [unfolded rs],
        folded pg_ledger_def] w1(2) by simp
  from that [OF g1 [unfolded p(1)] g2 [unfolded rs] w2 p(2,3) covered_check [OF cov ids p(2,3) this]]
  show thesis .
qed

lemma refund_opened_healthy:
  assumes h: "healthy (w_db w)" and p: "p \<in> set (l_payments (pg_ledger (w_db w)))" "p_ID p = i"
    and r: "r_ID refund \<noteq> 0" "refund_fits refund" "r_PaymentID refund = i"
      "r_ID refund \<notin> r_ID ` set (l_refunds (pg_ledger (w_db w)))"
  obtains x1 w3 p1 w4 x2 w5 y q where
    "st_CreateRefund (tx_store E) refund w = (Inr x1, w3)"
    "st_UpdatePayment (tx_store E) (p\<lparr>p_Status := PaymentStatusRefundPending\<rparr>) w3 = (Inr p1, w4)"
    "st_UpdateRefund (tx_store E) (x1\<lparr>r_Status := RefundStatusProcessing,
       r_ProcessedAt := Some (E_now E (w_clk w4))\<rparr>) (w4\<lparr>w_clk := Suc (w_clk w4)\<rparr>) = (Inr x2, w5)"
    "healthy (w_db w5)" "w_ids w5 = w_ids w" "payment_fits p1" "refund_fits x2"
    "l_txs (pg_ledger (w_db w5)) = l_txs (pg_ledger (w_db w))"
    "p_ID ` set (l_payments (pg_ledger (w_db w5))) = p_ID ` set (l_payments (pg_ledger (w_db w)))"
    "q \<in> set (l_payments (pg_ledger (w_db w5)))" "p_ID q = p_ID p1"
    "p_IdempotencyKey q = p_IdempotencyKey p1"
    "y \<in> set (l_refunds (pg_ledger (w_db w5)))" "r_ID y = r_ID x2" "r_PaymentID y = r_PaymentID x2"
    "all_ids (pg_ledger (w_db w5)) = insert (r_ID refund) (all_ids (pg_ledger (w_db w)))"
proof -
  let ?L = "pg_ledger (w_db w)"
  let ?kp = "keep_payment pg_amount micros" and ?kr = "keep_refund pg_amount micros"
  have mem: "i \<in> p_ID ` set (l_payments ?L)" using p by blast
  obtain x1 w3 where c1: "st_CreateRefund (tx_store E) refund w = (Inr x1, w3)"
    and w3: "healthy (w_db w3)" "w_ids w3 = w_ids w"
    by (rule create_refund_healthy [OF h r(1,2)]) (use r mem in auto)
  obtain j cr where x1: "x1 = refund\<lparr>r_ID := j, r_CreatedAt := cr\<rparr>" "r_ID refund \<noteq> 0 \<longrightarrow> j = r_ID refund"
    and v3: "pg_ledger (w_db w3) = ?L\<lparr>l_refunds := l_refunds ?L @ [?kr x1]\<rparr>"
    using tx_ledger(3) [OF healthyD(1) [OF h] c1] by blast
  let ?p = "p\<lparr>p_Status := PaymentStatusRefundPending\<rparr>"
  have fits: "payment_fits ?p"
    using payment_fits_status [OF stored_payment_fits [OF h p(1)]] by (simp add: payment_status_defs)
  obtain p1 w4 where c2: "st_UpdatePayment (tx_store E) ?p w3 = (Inr p1, w4)"
    and w4: "healthy (w_db w4)" "w_ids w4 = w_ids w3"
    by (rule update_payment_healthy [OF w3(1) fits, where q = p]) (use p v3 in simp_all)
  have v4: "pg_ledger (w_db w4) = (pg_ledger (w_db w3))\<lparr>l_payments :=
      replace_payment (?kp p1) (l_payments (pg_ledger (w_db w3)))\<rparr>"
    using tx_ledger(2) [OF healthyD(1) [OF w3(1)] c2] by blast
  let ?x = "x1\<lparr>r_Status := RefundStatusProcessing, r_ProcessedAt := Some (E_now E (w_clk w4))\<rparr>"
  have x: "refund_fits ?x" using r by (simp add: x1(1) refund_fits_def refund_status_defs)
  obtain w5 where c3: "st_UpdateRefund (tx_store E) ?x (w4\<lparr>w_clk := Suc (w_clk w4)\<rparr>) = (Inr ?x, w5)"
    and w5: "healthy (w_db w5)" "w_ids w5 = w_ids (w4\<lparr>w_clk := Suc (w_clk w4)\<rparr>)"
    by (rule update_refund_healthy [OF _ x, where q = "?kr x1" and w = "w4\<lparr>w_clk := Suc (w_clk w4)\<rparr>"])
      (use w4 v4 v3 r x1 in simp_all)
  from store.txs.refund_opened [OF healthyD(1) [OF h] c1 c2 c3 [folded with_libs_draws(1) [of E]]]
  obtain u where p1: "p1 = ?p\<lparr>p_UpdatedAt := Some u\<rparr>"
    and v5: "pg_ledger (w_db w5) = ?L\<lparr>l_payments := replace_payment (?kp p1) (l_payments ?L),
      l_refunds := l_refunds ?L @ [?kr ?x]\<rparr>"
    unfolding pg_ledger_def pg_amount_def by auto
  have q: "(?kp p1)\<lparr>p_CreatedAt := p_CreatedAt p\<rparr> \<in> set (l_payments (pg_ledger (w_db w5)))"
    using p by (force simp: v5 replace_payment_def p1)
  have y: "?kr ?x \<in> set (l_refunds (pg_ledger (w_db w5)))" by (simp add: v5)
  have same: "l_txs (pg_ledger (w_db w5)) = l_txs ?L"
    "p_ID ` set (l_payments (pg_ledger (w_db w5))) = p_ID ` set (l_payments ?L)"
    by (simp_all add: v5 flip: set_map)
  have ids: "all_ids (pg_ledger (w_db w5)) = insert (r_ID refund) (all_ids ?L)"
    using r(1) x1 by (simp add: all_ids_def same) (simp add: v5)
  have "payment_fits p1" using fits by (simp add: p1 payment_fits_def)
  from that [OF c1 c2 c3 w5(1) _ this x same q _ _ y _ _ ids] w5(2) w4(2) w3(2) show thesis by simp
qed

lemma refund_audited_healthy:
  assumes h: "healthy (w_db w)"
    and t: "t = refund_transaction payment i r amount c res u now" "u \<noteq> 0"
      "u \<notin> t_ID ` set (l_txs (pg_ledger (w_db w)))"
    and fits: "amount_fits amount" "length (p_Currency payment) \<le> 3" "opt_fits 100 (nullString c)"
      "refund_result_fits res"
    and refs: "i \<in> p_ID ` set (l_payments (pg_ledger (w_db w)))"
      "r_ID r \<in> r_ID ` set (l_refunds (pg_ledger (w_db w)))"
  obtains t' w' where "st_CreateTransaction (tx_store E) t w = (Inr t', w')" "healthy (w_db w')"
    "l_payments (pg_ledger (w_db w')) = l_payments (pg_ledger (w_db w))"
    "l_refunds (pg_ledger (w_db w')) = l_refunds (pg_ledger (w_db w))"
    "w_ids w' = w_ids w" "all_ids (pg_ledger (w_db w')) = insert u (all_ids (pg_ledger (w_db w)))"
proof -
  obtain t' w' where c: "st_CreateTransaction (tx_store E) t w = (Inr t', w')" "healthy (w_db w')"
    "w_ids w' = w_ids w" "t_ID t' = t_ID t"
  proof (rule create_transaction_healthy [OF h, of t])
    show "transaction_fits t"
      using fits by (simp add: t(1) refund_transaction_def transaction_fits_def
          refund_result_fits_def TransactionTypeRefund_def opt_fits_def)
  qed (use t(2,3) refs in \<open>auto simp: t(1) refund_transaction_def\<close>)
  have L': "pg_ledger (w_db w') = (pg_ledger (w_db w))\<lparr>l_txs := l_txs (pg_ledger (w_db w)) @
      [keep_transaction pg_amount micros t']\<rparr>"
    using tx_ledger(5) [OF healthyD(1) [OF h] c(1)] by blast
  show thesis
    by (rule that [OF c(1,2) _ _ c(3)])
      (use c(4) in \<open>simp_all add: L' all_ids_def t(1) refund_transaction_def\<close>)
qed

text \<open>The gateway is called, and its answer is recorded.\<close>

lemma refund_answered_healthy:
  fixes w :: "(pg, 'x) world"
  assumes h: "healthy (w_db w)" and g: "gateway_contract g" "refunds_fit_columns g"
    and f: "payment_fits p" "refund_fits x"
    and q: "q \<in> set (l_payments (pg_ledger (w_db w)))" "p_ID q = p_ID p" "p_IdempotencyKey q = p_IdempotencyKey p"
    and y: "y \<in> set (l_refunds (pg_ledger (w_db w)))" "r_ID y = r_ID x" "r_PaymentID y = r_PaymentID x"
    and i: "i \<in> p_ID ` set (l_payments (pg_ledger (w_db w)))"
    and fits: "amount_fits amount" "length (p_Currency payment) \<le> 3" "opt_fits 100 (nullString c)"
    and fresh: "\<And>n. w_ids w \<le> n \<Longrightarrow> n \<le> w_ids w + 2 \<Longrightarrow> E_uuid E n \<noteq> 0 \<and>
      E_uuid E n \<notin> t_ID ` set (l_txs (pg_ledger (w_db w)))"
  obtains res w6 t' w7 r' w' where
    "gw_ProcessRefund g (refund_gateway_request p amount reason c) w = (res, w6)"
    "st_CreateTransaction (tx_store E)
       (refund_transaction payment i x amount c res (E_uuid E (w_ids w6)) (E_now E (w_clk w6)))
       (w6\<lparr>w_ids := Suc (w_ids w6), w_clk := Suc (w_clk w6)\<rparr>) = (Inr t', w7)"
    "settle_refund (with_libs E) (tx_store E) p x amount remaining res w7 = (Inr r', w')"
    "healthy (w_db w')" "w_ids w \<le> w_ids w6" "w_ids w6 \<le> w_ids w + 2" "w_ids w' = Suc (w_ids w6)"
    "all_ids (pg_ledger (w_db w')) = insert (E_uuid E (w_ids w6)) (all_ids (pg_ledger (w_db w)))"
proof -
  obtain res w6 where gw: "gw_ProcessRefund g (refund_gateway_request p amount reason c) w = (res, w6)"
    by fastforce
  have w6: "w_db w6 = w_db w" using gateway_contract.refund_db [OF g(1) gw] .
  have res: "refund_result_fits res" "w_ids w \<le> w_ids w6" "w_ids w6 \<le> w_ids w + 2"
    using g(2) gw unfolding refunds_fit_columns_def by (auto dest: spec [of _ w] split: prod.splits)
  note new = fresh [OF res(2,3), THEN conjunct1] fresh [OF res(2,3), THEN conjunct2]
  let ?t = "refund_transaction payment i x amount c res (E_uuid E (w_ids w6)) (E_now E (w_clk w6))"
  let ?w6 = "w6\<lparr>w_ids := Suc (w_ids w6), w_clk := Suc (w_clk w6)\<rparr>"
  obtain t' w7 where c3: "st_CreateTransaction (tx_store E) ?t ?w6 = (Inr t', w7)" and w7: "healthy (w_db w7)"
    and L7: "l_payments (pg_ledger (w_db w7)) = l_payments (pg_ledger (w_db w))"
      "l_refunds (pg_ledger (w_db w7)) = l_refunds (pg_ledger (w_db w))"
    and w7': "w_ids w7 = w_ids ?w6"
      "all_ids (pg_ledger (w_db w7)) = insert (E_uuid E (w_ids w6)) (all_ids (pg_ledger (w_db ?w6)))"
    by (rule refund_audited_healthy [where w = ?w6, OF _ refl])
      (use h fits res(1) new i imageI [OF y(1), of r_ID] in \<open>simp_all add: w6 y(2)\<close>)
  obtain r' w' where c4: "settle_refund (with_libs E) (tx_store E) p x amount remaining res w7 = (Inr r', w')"
    and w': "healthy (w_db w')" "w_ids w' = w_ids w7"
      "all_ids (pg_ledger (w_db w')) = all_ids (pg_ledger (w_db w7))"
    using settle_refund_healthy [OF w7 f(1) _ q(2,3) f(2) res(1) _ y(2,3)] q(1) y(1) L7 by metis
  from that [OF gw c3 c4 w'(1) res(2,3)] w' w7' w6 show thesis by simp
qed

lemma persistRefund_healthy:
  assumes h: "healthy (w_db w)" and g: "gateway_contract g" "refunds_fit_columns g"
    and cov: "refund_covered exact_val (pg_ledger (w_db w)) i amount"
    and r: "r_ID refund \<noteq> 0" "refund_fits refund" "r_PaymentID refund = i"
      "r_ID refund \<notin> r_ID ` set (l_refunds (pg_ledger (w_db w)))"
    and fits: "amount_fits amount" "length (p_Currency payment) \<le> 3" "opt_fits 100 (nullString c)"
    and fresh: "\<And>n. w_ids w \<le> n \<Longrightarrow> n \<le> w_ids w + 2 \<Longrightarrow> E_uuid E n \<noteq> 0 \<and>
      E_uuid E n \<notin> t_ID ` set (l_txs (pg_ledger (w_db w)))"
  shows "\<exists>r' w'. persistRefund (with_libs E) g payment refund i amount reason c (tx_store E) w =
      (Inr r', w') \<and> healthy (w_db w') \<and>
    drawn E 3 {r_ID refund} (pg_ledger (w_db w)) (w_ids w) (pg_ledger (w_db w')) (w_ids w')"
proof -
  let ?S = "tx_store E :: (exact, pg, 'a) payment_store" and ?L = "pg_ledger (w_db w)"
  obtain p w1 rs w2 where c1: "st_GetPaymentForUpdate ?S i w = (Inr p, w1)"
      "st_GetRefundsByPayment ?S i w1 = (Inr rs, w2)"
    and w2: "healthy (w_db w2)" "pg_ledger (w_db w2) = ?L" "w_ids w2 = w_ids w"
    and p: "p \<in> set (l_payments ?L)" "p_ID p = i"
    and check: "refund_allowed p" "\<not> dec_Cmp exact_ops amount (dec_Sub exact_ops (p_Amount p)
       (add_completed exact_ops (dec_Zero exact_ops) rs)) > 0"
    by (rule refund_locked_healthy [OF h cov])
  let ?rest = "dec_Sub exact_ops (p_Amount p) (add_completed exact_ops (dec_Zero exact_ops) rs)"
  obtain x1 w3 p1 w4 x2 w5 y q where c2: "st_CreateRefund ?S refund w2 = (Inr x1, w3)"
      "st_UpdatePayment ?S (p\<lparr>p_Status := PaymentStatusRefundPending\<rparr>) w3 = (Inr p1, w4)"
      "st_UpdateRefund ?S (x1\<lparr>r_Status := RefundStatusProcessing,
         r_ProcessedAt := Some (E_now E (w_clk w4))\<rparr>) (w4\<lparr>w_clk := Suc (w_clk w4)\<rparr>) = (Inr x2, w5)"
    and w5: "healthy (w_db w5)" "w_ids w5 = w_ids w2" and f: "payment_fits p1" "refund_fits x2"
    and L5: "l_txs (pg_ledger (w_db w5)) = l_txs (pg_ledger (w_db w2))"
      "p_ID ` set (l_payments (pg_ledger (w_db w5))) = p_ID ` set (l_payments (pg_ledger (w_db w2)))"
    and q: "q \<in> set (l_payments (pg_ledger (w_db w5)))" "p_ID q = p_ID p1"
      "p_IdempotencyKey q = p_IdempotencyKey p1"
    and y: "y \<in> set (l_refunds (pg_ledger (w_db w5)))" "r_ID y = r_ID x2" "r_PaymentID y = r_PaymentID x2"
    and ids5: "all_ids (pg_ledger (w_db w5)) = insert (r_ID refund) (all_ids (pg_ledger (w_db w2)))"
    by (rule refund_opened_healthy [where w = w2 and p = p and i = i and refund = refund and E = E])
      (use w2 p r in simp_all)
  have i: "i \<in> p_ID ` set (l_payments (pg_ledger (w_db w5)))"
    using imageI [OF p(1), of p_ID] by (simp add: L5 w2(2) p(2))
  obtain res w6 t' w7 r' w' where
    c3: "gw_ProcessRefund g (refund_gateway_request p1 amount reason c) w5 = (res, w6)"
      "st_CreateTransaction ?S
         (refund_transaction payment i x2 amount c res (E_uuid E (w_ids w6)) (E_now E (w_clk w6)))
         (w6\<lparr>w_ids := Suc (w_ids w6), w_clk := Suc (w_clk w6)\<rparr>) = (Inr t', w7)"
      "settle_refund (with_libs E) ?S p1 x2 amount ?rest res w7 = (Inr r', w')"
    and w': "healthy (w_db w')" "w_ids w5 \<le> w_ids w6" "w_ids w6 \<le> w_ids w5 + 2" "w_ids w' = Suc (w_ids w6)"
      "all_ids (pg_ledger (w_db w')) = insert (E_uuid E (w_ids w6)) (all_ids (pg_ledger (w_db w5)))"
    by (rule refund_answered_healthy [OF w5(1) g f q y i fits, of E reason ?rest])
      (use fresh in \<open>simp_all add: w5(2) w2 L5\<close>)
  have "persistRefund (with_libs E) g payment refund i amount reason c ?S w = (Inr r', w')"
    using c1 check c2 c3
    by (simp add: persistRefund_def bindE_def draw_defs with_libs_draws with_libs_dec Let_def
        with_refund_result_def)
  moreover have "drawn E 3 {r_ID refund} ?L (w_ids w) (pg_ledger (w_db w')) (w_ids w')"
    using w'(2,3) by (auto simp: drawn_def w'(4,5) w5(2) ids5 w2)
  ultimately show ?thesis using w'(1) by blast
qed

lemma stored_payment_found:
  assumes h: "healthy (w_db w)" and p: "p \<in> set (l_payments (pg_ledger (w_db w)))" "p_ID p = i"
    and get: "st_GetPayment (sql_store (with_libs E) (NewStore pg_pool)) i w = (r, w')"
    and r: "r = Inl ErrNoRows \<or> (\<exists>x. r = Inr x)"
  shows "r = Inr p"
proof -
  have "r \<noteq> Inl ErrNoRows"
    using store.txs.get_payment_none [OF healthyD(1) [OF h], folded pg_ledger_def, of E i ErrNoRows w']
      get p by auto
  then obtain q where q: "r = Inr q" using r by blast
  have "q \<in> set (l_payments (pg_ledger (w_db w))) \<and> p_ID q = i"
    using store.txs.get_payment [OF healthyD(1) [OF h], folded pg_ledger_def] get unfolding q by blast
  with store.txs.view_ids [OF healthyD(1) [OF h], folded pg_ledger_def] p q show ?thesis
    by (auto simp: distinct_map dest: inj_onD)
qed

lemma stored_refund_found:
  assumes h: "healthy (w_db w)" and x: "x \<in> set (l_refunds (pg_ledger (w_db w)))" "r_ID x = i"
    and get: "st_GetRefund (sql_store (with_libs E) (NewStore pg_pool)) i w = (r, w')"
    and r: "r = Inl ErrNoRows \<or> (\<exists>x. r = Inr x)"
  shows "r = Inr x"
proof -
  have "r \<noteq> Inl ErrNoRows"
    using store.txs.get_refund_none [OF healthyD(1) [OF h], folded pg_ledger_def, of E i ErrNoRows w']
      get x by auto
  then obtain q where q: "r = Inr q" using r by blast
  have "q \<in> set (l_refunds (pg_ledger (w_db w))) \<and> r_ID q = i"
    using store.txs.get_refund [OF healthyD(1) [OF h], folded pg_ledger_def] get unfolding q by blast
  with store.txs.view_ids [OF healthyD(1) [OF h], folded pg_ledger_def] x q show ?thesis
    by (auto simp: distinct_map dest: inj_onD)
qed

lemma rows_found:
  assumes h: "healthy (w_db w)"
  shows "p \<in> set (l_payments (pg_ledger (w_db w))) \<Longrightarrow>
      fst (Store_GetPayment (with_libs E) (NewStore pg_pool) (p_ID p) w) = Inr p"
    and "x \<in> set (l_refunds (pg_ledger (w_db w))) \<Longrightarrow>
      fst (Store_GetRefund (with_libs E) (NewStore pg_pool) (r_ID x) w) = Inr x"
proof -
  have S: "Store_GetPayment (with_libs E) (NewStore pg_pool) =
      st_GetPayment (sql_store (with_libs E) (NewStore pg_pool))"
    "Store_GetRefund (with_libs E) (NewStore pg_pool) =
      st_GetRefund (sql_store (with_libs E) (NewStore pg_pool))"
    by (simp_all add: sql_store_def)
  show "fst (Store_GetPayment (with_libs E) (NewStore pg_pool) (p_ID p) w) = Inr p"
    if p: "p \<in> set (l_payments (pg_ledger (w_db w)))"
  proof -
    obtain r w' where "st_GetPayment (sql_store (with_libs E) (NewStore pg_pool)) (p_ID p) w = (r, w')"
      "r = Inl ErrNoRows \<or> (\<exists>x. r = Inr x)"
      by (rule answeredD [OF lookups_healthy(1) [OF h]])
    with stored_payment_found [OF h p refl this] show ?thesis unfolding S by simp
  qed
  show "fst (Store_GetRefund (with_libs E) (NewStore pg_pool) (r_ID x) w) = Inr x"
    if x: "x \<in> set (l_refunds (pg_ledger (w_db w)))"
  proof -
    obtain r w' where "st_GetRefund (sql_store (with_libs E) (NewStore pg_pool)) (r_ID x) w = (r, w')"
      "r = Inl ErrNoRows \<or> (\<exists>x. r = Inr x)"
      by (rule answeredD [OF lookups_healthy(4) [OF h]])
    with stored_refund_found [OF h x refl this] show ?thesis unfolding S by simp
  qed
qed

text \<open>A payment and a refund of it, stored in one transaction.\<close>

definition store_both :: "'d payment \<Rightarrow> 'd refund \<Rightarrow> ('d, 'db, 'x) payment_store \<Rightarrow>
    ('db, 'x, 'd payment \<times> 'd refund) go" where
  "store_both p r store =
     bindE (st_CreatePayment store p) (\<lambda>p'. bindE (st_CreateRefund store r) (\<lambda>r'. returnE (p', r')))"

lemma store_both_healthy:
  assumes h: "healthy (w_db w)" and p: "p_ID p \<noteq> 0" "payment_fits p"
    and new: "p_ID p \<notin> p_ID ` set (l_payments (pg_ledger (w_db w)))"
      "\<And>k. p_IdempotencyKey p = Some k \<Longrightarrow>
         Some k \<notin> p_IdempotencyKey ` set (l_payments (pg_ledger (w_db w)))"
    and r: "r_ID r \<noteq> 0" "refund_fits r" "r_PaymentID r = p_ID p"
      "r_ID r \<notin> r_ID ` set (l_refunds (pg_ledger (w_db w)))"
  obtains p' r' w' where "RunInTx (sql_runner (with_libs E) pg_pool) (store_both p r) w = (Inr (p', r'), w')"
    "healthy (w_db w')" "keep_payment pg_amount micros p' \<in> set (l_payments (pg_ledger (w_db w')))"
    "keep_refund pg_amount micros r' \<in> set (l_refunds (pg_ledger (w_db w')))"
    "p' = p\<lparr>p_CreatedAt := if p_CreatedAt p = 0 then p_CreatedAt p' else p_CreatedAt p, p_UpdatedAt := p_UpdatedAt p'\<rparr>"
    "r' = r\<lparr>r_CreatedAt := if r_CreatedAt r = 0 then r_CreatedAt r' else r_CreatedAt r\<rparr>"
proof -
  obtain w1 where b: "tr_begin (sql_runner (with_libs E) pg_pool) w = (Inr (), w1)"
    and w1: "healthy (w_db w1)" "pg_ledger (w_db w1) = pg_ledger (w_db w)"
    by (rule begin_healthy [OF h])
  obtain p' w2 where c: "st_CreatePayment (tx_store E) p w1 = (Inr p', w2)" and w2: "healthy (w_db w2)"
    by (rule create_payment_healthy [OF w1(1) p, where E = E]) (use new w1(2) in auto)
  note kept = tx_ledger(1) [OF healthyD(1) [OF w1(1)] c]
  have L2: "pg_ledger (w_db w2) = (pg_ledger (w_db w))\<lparr>l_payments := l_payments (pg_ledger (w_db w)) @
      [keep_payment pg_amount micros p']\<rparr>" using kept w1(2) by simp
  have p': "p_ID p' = p_ID p" "p' = p\<lparr>p_CreatedAt := if p_CreatedAt p = 0 then p_CreatedAt p' else p_CreatedAt p,
      p_UpdatedAt := p_UpdatedAt p'\<rparr>" using kept p(1) by auto
  obtain r' w3 where d: "st_CreateRefund (tx_store E) r w2 = (Inr r', w3)" and w3: "healthy (w_db w3)"
    by (rule create_refund_healthy [OF w2 r(1,2), where E = E]) (simp_all add: L2 r(3,4) p'(1))
  note kept' = tx_ledger(3) [OF healthyD(1) [OF w2] d]
  have r': "r' = r\<lparr>r_CreatedAt := if r_CreatedAt r = 0 then r_CreatedAt r' else r_CreatedAt r\<rparr>"
    using kept' r(1) by auto
  obtain w4 where e: "tr_commit (sql_runner (with_libs E) pg_pool) w3 = (Inr (), w4)"
    and w4: "healthy (w_db w4)" "pg_ledger (w_db w4) = pg_ledger (w_db w3)"
    by (rule commit_healthy [OF w3])
  have "RunInTx (sql_runner (with_libs E) pg_pool) (store_both p r) w = (Inr (p', r'), w4)"
    using b c d e by (simp add: RunInTx_def store_both_def bindE_def returnE_def)
  then show thesis by (rule that) (use w4 kept' L2 p'(2) r' in auto)
qed

lemma refund_tx_healthy:
  assumes h: "healthy (w_db w)" and svc: "store.txs.svc_ok E svc"
    and g: "GetGateway (with_libs E) (svc_router svc) (p_Gateway p) = Inr g" "refunds_fit_columns g"
    and cov: "refund_covered exact_val (pg_ledger (w_db w)) i amount"
    and fits: "refund_fits (new_refund p i amount reason who c 0 0)"
    and fresh: "fresh_ids 4 E w"
  shows "\<exists>r w'. run_persist svc (persistRefund (with_libs E) g p
      (new_refund p i amount reason who c now (E_uuid E (w_ids w))) i amount reason c)
      (w\<lparr>w_clk := Suc (w_clk w), w_ids := Suc (w_ids w)\<rparr>) = (Inr r, w') \<and> healthy (w_db w') \<and>
    drawn E 4 {} (pg_ledger (w_db w)) (w_ids w) (pg_ledger (w_db w')) (w_ids w')"
proof -
  let ?L = "pg_ledger (w_db w)"
  define w2 where "w2 = w\<lparr>w_clk := Suc (w_clk w), w_ids := Suc (w_ids w)\<rparr>"
  define refund where "refund = new_refund p i amount reason who c now (E_uuid E (w_ids w))"
  have refund: "refund_fits refund" "r_ID refund = E_uuid E (w_ids w)" "r_PaymentID refund = i"
    "amount_fits amount" "length (p_Currency p) \<le> 3" "opt_fits 100 (nullString c)"
    using fits by (simp_all add: refund_def new_refund_def refund_fits_def)
  have "\<exists>r w'. RunInTx (sql_runner (with_libs E) pg_pool)
      (persistRefund (with_libs E) g p refund i amount reason c) w2 = (Inr r, w') \<and> healthy (w_db w') \<and>
      drawn E 3 {r_ID refund} ?L (Suc (w_ids w)) (pg_ledger (w_db w')) (w_ids w')"
  proof (rule RunInTx_healthy)
    show "healthy (w_db w2)" using h by (simp add: w2_def)
    fix w3 :: "(pg, 'a) world"
    assume w3: "healthy (w_db w3)" "pg_ledger (w_db w3) = pg_ledger (w_db w2)" "w_ids w3 = w_ids w2"
    then have L3: "pg_ledger (w_db w3) = ?L" "w_ids w3 = Suc (w_ids w)" by (simp_all add: w2_def)
    have gc: "gateway_contract g" using router_okD [OF _ g(1)] svc by (simp add: store.txs.svc_ok_def)
    show "\<exists>x w4. persistRefund (with_libs E) g p refund i amount reason c (tx_store E) w3 = (Inr x, w4) \<and>
        healthy (w_db w4) \<and> drawn E 3 {r_ID refund} ?L (Suc (w_ids w)) (pg_ledger (w_db w4)) (w_ids w4)"
      unfolding L3 [symmetric]
    proof (rule persistRefund_healthy [OF w3(1) gc g(2)])
      show "refund_covered exact_val (pg_ledger (w_db w3)) i amount" using cov by (simp add: L3)
      show "r_ID refund \<noteq> 0" "r_ID refund \<notin> r_ID ` set (l_refunds (pg_ledger (w_db w3)))"
        using fresh_idsD [OF fresh, of "w_ids w"] by (simp_all add: refund(2) L3)
      show "E_uuid E n \<noteq> 0 \<and> E_uuid E n \<notin> t_ID ` set (l_txs (pg_ledger (w_db w3)))"
        if "w_ids w3 \<le> n" "n \<le> w_ids w3 + 2" for n
        using fresh_idsD [OF fresh, of n] that by (simp add: L3)
    qed (use refund in simp_all)
  qed
  moreover have "drawn E 4 {} ?L (w_ids w) L' n" if "drawn E 3 {r_ID refund} ?L (Suc (w_ids w)) L' n" for L' n
    using that by (fastforce simp: drawn_def refund(2))
  ultimately show ?thesis
    using svc by (simp add: run_persist_def store.txs.svc_ok_def refund_def w2_def) blast
qed

lemma refund_it_healthy:
  assumes h: "healthy (w_db w)" and svc: "store.txs.svc_ok E svc"
    and p: "p \<in> set (l_payments (pg_ledger (w_db w)))" "p_ID p = i"
    and g: "GetGateway (with_libs E) (svc_router svc) (p_Gateway p) = Inr g" "refunds_fit_columns g"
    and cov: "refund_covered exact_val (pg_ledger (w_db w)) i amount"
    and fits: "refund_fits (new_refund p i amount reason who c 0 0)"
    and fresh: "fresh_ids 4 E w"
  shows "\<exists>r w'. refund_it (with_libs E) svc i amount reason who c w = (Inr r, w') \<and> healthy (w_db w')"
proof -
  let ?E = "with_libs E" and ?L = "pg_ledger (w_db w)"
  have S: "svc_store svc = sql_store ?E (NewStore pg_pool)"
    using svc by (simp add: store.txs.svc_ok_def)
  have ids: "distinct (map p_ID (l_payments ?L))"
    using store.txs.view_ids [OF healthyD(1) [OF h], folded pg_ledger_def] by simp
  obtain r1 w1 where get: "st_GetPayment (svc_store svc) i w = (r1, w1)"
    and w1: "healthy (w_db w1)" "pg_ledger (w_db w1) = ?L" "w_ids w1 = w_ids w"
    and e: "r1 = Inl ErrNoRows \<or> (\<exists>x. r1 = Inr x)"
    unfolding S by (rule answeredD [OF lookups_healthy(1) [OF h]])
  have r1: "r1 = Inr p" by (rule stored_payment_found [OF h p get [unfolded S] e])
  have allowed: "refund_allowed p"
    using cov ids p by (auto simp: refund_covered_def list_ex_iff distinct_map dest: inj_onD)
  have "refund_covered exact_val (pg_ledger (w_db w1)) i amount" using cov by (simp add: w1(2))
  from refund_tx_healthy [OF w1(1) svc g this fits fresh_ids_cong [OF fresh w1(2,3)],
      of "E_now ?E (w_clk w1)"]
  show ?thesis using get r1 allowed g(1)
    by (auto simp: bindE_def or_not_found_def draw_defs with_libs_draws)
qed

lemma ProcessRefund_healthy:
  assumes h: "healthy (w_db w)" and svc: "store.txs.svc_ok E svc"
    and new: "blank c \<or> Some c \<notin> r_CorrelationID ` set (l_refunds (pg_ledger (w_db w)))"
    and p: "p \<in> set (l_payments (pg_ledger (w_db w)))" "p_ID p = i"
    and g: "GetGateway (with_libs E) (svc_router svc) (p_Gateway p) = Inr g" "refunds_fit_columns g"
    and cov: "refund_covered exact_val (pg_ledger (w_db w)) i amount"
    and fits: "refund_fits (new_refund p i amount reason who c 0 0)"
    and fresh: "fresh_ids 4 E w"
  shows "\<exists>r w'. ProcessRefund (with_libs E) svc i amount reason who c w = (Inr r, w') \<and>
    healthy (w_db w')"
proof (cases "blank c")
  case True
  with refund_it_healthy [OF h svc p g cov fits fresh] show ?thesis by (simp add: ProcessRefund_def)
next
  case False
  have S: "svc_store svc = sql_store (with_libs E) (NewStore pg_pool)"
    using svc by (simp add: store.txs.svc_ok_def)
  obtain r1 w1 where get: "st_GetRefundByCorrelationID (svc_store svc) c w = (r1, w1)"
    and w1: "healthy (w_db w1)" "pg_ledger (w_db w1) = pg_ledger (w_db w)" "w_ids w1 = w_ids w"
    and e: "r1 = Inl ErrNoRows \<or> (\<exists>x. r1 = Inr x)"
    unfolding S by (rule answeredD [OF lookups_healthy(5) [OF h]])
  have "r1 \<noteq> Inr r" for r
    using store.txs.get_refund_by_correlation [OF healthyD(1) [OF h], folded pg_ledger_def, of E c r w1]
      get new False unfolding S by (metis image_eqI)
  with e have "r1 = Inl ErrNoRows" by blast
  with get refund_it_healthy [OF w1(1) svc _ p(2) g _ fits fresh_ids_cong [OF fresh]] p cov w1 False
  show ?thesis by (simp add: ProcessRefund_def found_or_def)
qed

text \<open>The next \<open>k\<close> UUIDs are new and different from each other, and what is left of them later.\<close>

definition fresh_from :: "nat \<Rightarrow> exact env \<Rightarrow> (pg, 'x) world \<Rightarrow> bool" where
  "fresh_from k E w \<longleftrightarrow> fresh_ids k E w \<and> inj_on (E_uuid E) {w_ids w ..< w_ids w + k}"

lemma fresh_ids_all: "fresh_ids k E w \<longleftrightarrow> (\<forall>n \<in> {w_ids w ..< w_ids w + k}.
    E_uuid E n \<noteq> 0 \<and> E_uuid E n \<notin> all_ids (pg_ledger (w_db w)))"
  by (auto simp: fresh_ids_def all_ids_def)

lemma fresh_from_drawn:
  assumes f: "fresh_from k E w"
    and d: "drawn E m {} (pg_ledger (w_db w)) (w_ids w) (pg_ledger (w_db w')) (w_ids w')"
  shows "fresh_from (k - m) E w'"
proof -
  have n: "w_ids w \<le> w_ids w'" "w_ids w' \<le> w_ids w + m"
    and new: "all_ids (pg_ledger (w_db w')) \<subseteq> all_ids (pg_ledger (w_db w)) \<union> E_uuid E ` {w_ids w..<w_ids w'}"
    using d by (simp_all add: drawn_def)
  let ?I = "{w_ids w ..< w_ids w + k}" and ?J = "{w_ids w' ..< w_ids w' + (k - m)}"
  have J: "?J \<subseteq> ?I" using n by auto
  have inj: "inj_on (E_uuid E) ?I" using f by (simp add: fresh_from_def)
  have "E_uuid E j \<notin> E_uuid E ` {w_ids w..<w_ids w'}" if "j \<in> ?J" for j
    using inj_onD [OF inj] J n that by fastforce
  with f new J show ?thesis
    unfolding fresh_from_def fresh_ids_all using inj_on_subset [OF inj J] by blast
qed

section \<open>The mock gateway\<close>

lemma nullString_fits: "length s \<le> n \<Longrightarrow> opt_fits n (nullString s)"
  using TrimRightSpace_prefix [of "TrimLeftSpace s"] strip_words_suffix [of go_spaces s]
  by (auto simp: opt_fits_def nullString_def TrimSpace_def TrimLeftSpace_def Let_def
      dest!: prefix_length_le suffix_length_le)

lemma shortID_length: "16 \<le> n \<Longrightarrow> length (shortID_of E u) \<le> n"
  by (simp add: shortID_of_def)

lemma mock_fits:
  "charge_fits_columns (MockGateway E g) request" "refunds_fit_columns (MockGateway E g)"
proof -
  have n: "length (last4_or_default c) = 4" for c by (simp add: last4_or_default_def)
  show "charge_fits_columns (MockGateway E g) request" "refunds_fit_columns (MockGateway E g)"
    by (auto simp: charge_fits_columns_def refunds_fit_columns_def result_fits_def
        refund_result_fits_def mock_defs result_failure_defs n shortID_length
        intro!: nullString_fits)
qed

section \<open>The sample process\<close>

lemma sample_config_mock: "MockGatewayEnabled sample_config" "PaymentGatewayDefault sample_config = ''mock''"
  by (simp_all add: sample_config_def Load_def boolEnv_def stringEnv_def ParseBool_def)

definition sample_mock :: "(exact, pg, unit) payment_gateway" where
  "sample_mock = MockGateway (with_libs sample_env) (NewMockGateway (MockGatewayEnabled sample_config)
     (MockGatewayDelayMS sample_config) (MockGatewayFailureRate sample_config))"

lemma sample_mock_fits: "charge_fits_columns sample_mock request" "refunds_fit_columns sample_mock"
  by (simp_all add: sample_mock_def mock_fits)

lemma sample_lower: "ToLower u ''mock'' = ''mock''" "ToLower u ''stripe'' = ''stripe''"
    "ToLower u ''paypal'' = ''paypal''"
  by (simp_all add: ToLower_def is_ascii_def ascii_lower_def byte_def)

lemma sample_gateway:
  "GetGatewayOrDefault (with_libs sample_env)
     (server_router (with_libs sample_env) sample_api sample_config) (pq_Gateway sample_request) =
   Inr sample_mock"
  "GetGateway (with_libs sample_env)
     (server_router (with_libs sample_env) sample_api sample_config) ''mock'' = Inr sample_mock"
  by (simp_all add: GetGatewayOrDefault_def GetDefaultGateway_def GetGateway_def server_router_def
      NewRouter_def sample_request_def sample_config_mock sample_lower sample_mock_def
      MockGateway_def StripeGateway_def PayPalGateway_def NewMockGateway_def)

lemma sample_trim: "TrimSpace ''usd'' = ''usd''" "TrimSpace ''key-2'' = ''key-2''"
    "TrimSpace ''key-1'' = ''key-1''" "TrimSpace ''corr-2'' = ''corr-2''"
  by (rule TrimSpace_graphic; simp add: graphic_def byte_def)+

lemma sample_padded: "TrimSpace '' key-1'' = ''key-1''"
  by code_simp

lemma sample_unpaid: "unpaid sample_request ''key-2'' (pg_ledger (w_db sample_world))"
  by (simp add: unpaid_def earlier_payment_def sample_ledger sample_request_def
      nullString_def sample_trim)

lemma sample_fresh_ids: "fresh_ids 4 sample_env sample_world"
proof -
  have "{w_ids sample_world ..< w_ids sample_world + 4} = {10, 11, 12, 13}"
    by (auto simp: sample_world_def)
  then show ?thesis
    by (simp add: fresh_ids_def sample_ledger sample_env_def pg_ledger_def ledger_of_def
        transaction_of_row_def sample_world_def)
qed

lemma round_numeral: "round_half_away (numeral n) = numeral n"
  using round_half_away_of_int [of "numeral n"] by simp

lemma sample_payment_fits:
  "payment_fits (new_payment (with_libs sample_env) sample_request (gw_GetName sample_mock) [] ''key-2'' 0 0)"
  "payment_fits (new_payment (with_libs sample_env) sample_request (gw_GetName sample_mock) [] ''key-1'' 0 u)"
  by (simp_all add: payment_fits_def new_payment_def sample_request_def sample_trim nullString_def
      ToUpper_def is_ascii_def byte_def opt_fits_def amount_fits_def cents4_def exact_val_def round_numeral
      with_libs_def sample_env_def sample_mock_def MockGateway_def PaymentStatusPending_def)

lemma sample_refund_fits:
  "p \<in> set (l_payments (pg_ledger (w_db sample_world))) \<Longrightarrow>
     p_Gateway p = ''mock'' \<and> refund_fits (new_refund p 1 (Exact 6 0) [] [] ''corr-2'' 0 0)"
  by (simp add: sample_ledger refund_fits_def new_refund_def sample_trim nullString_def
      opt_fits_def amount_fits_def cents4_def exact_val_def round_numeral RefundStatusPending_def
      payment_of_row_def)

lemma sample_refund_valid:
  "validateRefundRequest (with_libs sample_env) \<lparr>fq_Amount = Exact 3 0, fq_Reason = []\<rparr> = None"
  by (simp add: validateRefundRequest_def decimalCmpPositive_def with_libs_def exact_ops_def
      exact_cmp_def rescale_def Let_def)

lemma sample_payment_open: "refund_allowed (payment_of_row exact_ops sample_payment_row)"
    "p_Gateway (payment_of_row exact_ops sample_payment_row) = ''mock''"
  by (simp_all add: refund_allowed_def payment_of_row_def payment_status_defs)

lemma sample_payment_stored:
  "payment_of_row exact_ops sample_payment_row \<in> set (l_payments (pg_ledger (w_db sample_world)))"
  by (simp add: sample_ledger)

lemma sample_fresh_from: "fresh_from 8 sample_env sample_world"
proof -
  have "{w_ids sample_world ..< w_ids sample_world + 8} = {10, 11, 12, 13, 14, 15, 16, 17}"
    by (auto simp: sample_world_def)
  then show ?thesis
    by (simp add: fresh_from_def fresh_ids_def sample_ledger sample_env_def pg_ledger_def ledger_of_def
        transaction_of_row_def sample_world_def)
qed

lemma sample_mock_refunds: "rr_Success (fst (gw_ProcessRefund sample_mock request w))"
  by (simp add: sample_mock_def mock_defs NewMockGateway_def sample_config_def Load_def floatEnv_def
      sample_env_def with_libs_def split: prod.split)

lemma sample_small_refund:
  "refund_fits (new_refund (payment_of_row exact_ops sample_payment_row) 1 (Exact 3 0) [] [] ''corr-2'' 0 0)"
  "exact_val (Exact 3 0) + exact_val (Exact 3 0) \<le>
     exact_val (p_Amount (payment_of_row exact_ops sample_payment_row)) -
     refunded exact_val (pg_ledger (w_db sample_world)) 1"
proof -
  show "refund_fits (new_refund (payment_of_row exact_ops sample_payment_row) 1 (Exact 3 0) [] [] ''corr-2'' 0 0)"
    by (simp add: refund_fits_def new_refund_def sample_trim nullString_def opt_fits_def
        amount_fits_def cents4_def exact_val_def round_numeral RefundStatusPending_def
        payment_of_row_def)
  have "exact_val (Exact 3 0) = 3" by (simp add: exact_val_def)
  then show "exact_val (Exact 3 0) + exact_val (Exact 3 0) \<le>
     exact_val (p_Amount (payment_of_row exact_ops sample_payment_row)) -
     refunded exact_val (pg_ledger (w_db sample_world)) 1"
    by (simp add: sample_ledger refunded_def payment_of_row_def refund_of_row_def sample_amounts
      refund_status_defs)
qed

end
