(* ===== verification/Concurrent_Requests.thy ===== *)
theory Concurrent_Requests
  imports Liveness
begin

text \<open>
  Requests that run at the same time.  The HTTP server handles every request in a goroutine of its
  own, and the database and the gateways see the calls of all of them in some order.
  \<open>ProcessPayment\<close> and \<open>ProcessRefund\<close> are taken apart at those calls: a phase is one query, one
  call of a gateway, or one database transaction (whose calls take effect together: a payment's
  transaction writes only its own new row, a refund's locks the row of its payment first).  Run one
  after the other the phases are the functions again; run in any interleaving they still take the
  ledger only through its steps.
\<close>

section \<open>Phases\<close>

text \<open>Where a payment request stands in \<open>ProcessPayment\<close> of \<open>service.go\<close>.\<close>

datatype 'd pay_phase =
    Find_Key
  | Find_Order
  | Charge
  | Persist "'d payment" payment_result time
  | Replay go_error
  | Paid "go_error + 'd payment"

fun pay_step :: "'d env \<Rightarrow> ('d, 'db, 'x) service \<Rightarrow> 'd process_payment_request \<Rightarrow> string \<Rightarrow> string \<Rightarrow>
    'd pay_phase \<Rightarrow> ('db, 'x) world \<Rightarrow> 'd pay_phase \<times> ('db, 'x) world" where
  "pay_step E svc req correlationID idempotencyKey Find_Key w =
     (if blank idempotencyKey then (Find_Order, w)
      else case st_GetPaymentByIdempotencyKey (svc_store svc) idempotencyKey w of
             (Inr existing, w') \<Rightarrow> (Paid (Inr existing), w')
           | (Inl err, w') \<Rightarrow>
               (if \<not> errors_Is err ErrNoRows then Paid (Inl err) else Find_Order, w'))"
| "pay_step E svc req correlationID idempotencyKey Find_Order w =
     (case st_GetPaymentByOrderID (svc_store svc) (pq_OrderID req) w of
        (Inr existing, w') \<Rightarrow>
          (if p_Status existing = PaymentStatusCompleted then Paid (Inr existing) else Charge, w')
      | (Inl err, w') \<Rightarrow> (if \<not> errors_Is err ErrNoRows then Paid (Inl err) else Charge, w'))"
| "pay_step E svc req correlationID idempotencyKey Charge w =
     (case GetGatewayOrDefault E (svc_router svc) (pq_Gateway req) of
        Inl err \<Rightarrow> (Paid (Inl err), w)
      | Inr gatewayImpl \<Rightarrow>
          with_now E (\<lambda>now. with_uuid E (\<lambda>u w.
            case gw_ProcessPayment gatewayImpl
                   (payment_gateway_request E req correlationID idempotencyKey) w of
              (result, w') \<Rightarrow>
                (Persist (new_payment E req (gw_GetName gatewayImpl) correlationID idempotencyKey now u)
                   result now, w'))) w)"
| "pay_step E svc req correlationID idempotencyKey (Persist payment result now) w =
     (case run_persist svc (\<lambda>store.
             persistProcessedPayment E store payment correlationID result now) w of
        (Inr payment, w') \<Rightarrow> (Paid (Inr payment), w')
      | (Inl persistErr, w') \<Rightarrow>
          (if isUniqueViolation persistErr \<and> \<not> blank idempotencyKey then Replay persistErr
           else Paid (Inl persistErr), w'))"
| "pay_step E svc req correlationID idempotencyKey (Replay persistErr) w =
     (case st_GetPaymentByIdempotencyKey (svc_store svc) idempotencyKey w of
        (Inr existing, w') \<Rightarrow> (Paid (Inr existing), w')
      | (Inl _, w') \<Rightarrow> (Paid (Inl persistErr), w'))"
| "pay_step E svc req correlationID idempotencyKey (Paid r) w = (Paid r, w)"

text \<open>Where a refund request stands in \<open>ProcessRefund\<close> of \<open>refund.go\<close>; the transaction contains the
  call of the gateway.\<close>

datatype 'd refund_phase =
    Find_Correlation
  | Find_Payment
  | Refund_Tx "'d payment"
  | Refunded "go_error + 'd refund"

fun refund_step :: "'d env \<Rightarrow> ('d, 'db, 'x) service \<Rightarrow> uuid \<Rightarrow> 'd \<Rightarrow> string \<Rightarrow> string \<Rightarrow> string \<Rightarrow>
    'd refund_phase \<Rightarrow> ('db, 'x) world \<Rightarrow> 'd refund_phase \<times> ('db, 'x) world" where
  "refund_step E svc paymentID amount reason initiatedBy correlationID Find_Correlation w =
     (if blank correlationID then (Find_Payment, w)
      else case st_GetRefundByCorrelationID (svc_store svc) correlationID w of
             (Inr existing, w') \<Rightarrow> (Refunded (Inr existing), w')
           | (Inl err, w') \<Rightarrow>
               (if \<not> errors_Is err ErrNoRows then Refunded (Inl err) else Find_Payment, w'))"
| "refund_step E svc paymentID amount reason initiatedBy correlationID Find_Payment w =
     (case or_not_found ErrPaymentNotFound (st_GetPayment (svc_store svc) paymentID) w of
        (Inl err, w') \<Rightarrow> (Refunded (Inl err), w')
      | (Inr payment, w') \<Rightarrow>
          (if \<not> refund_allowed payment then Refunded (Inl ErrRefundNotAllowed)
           else case GetGateway E (svc_router svc) (p_Gateway payment) of
             Inl err \<Rightarrow> Refunded (Inl err)
           | Inr _ \<Rightarrow> Refund_Tx payment, w'))"
| "refund_step E svc paymentID amount reason initiatedBy correlationID (Refund_Tx payment) w =
     (case GetGateway E (svc_router svc) (p_Gateway payment) of
        Inl err \<Rightarrow> (Refunded (Inl err), w)
      | Inr gatewayImpl \<Rightarrow>
          (case with_now E (\<lambda>now. with_uuid E (\<lambda>u.
             run_persist svc
               (persistRefund E gatewayImpl payment
                  (new_refund payment paymentID amount reason initiatedBy correlationID now u)
                  paymentID amount reason correlationID))) w of
             (r, w') \<Rightarrow> (Refunded r, w')))"
| "refund_step E svc paymentID amount reason initiatedBy correlationID (Refunded r) w =
     (Refunded r, w)"

section \<open>One request alone\<close>

text \<open>Five phases are enough for a payment, three for a refund.\<close>

fun run_phases :: "nat \<Rightarrow> ('p \<Rightarrow> 'w \<Rightarrow> 'p \<times> 'w) \<Rightarrow> 'p \<Rightarrow> 'w \<Rightarrow> 'p \<times> 'w" where
  "run_phases 0 step ph w = (ph, w)"
| "run_phases (Suc n) step ph w = (case step ph w of (ph', w') \<Rightarrow> run_phases n step ph' w')"

lemma run_phases_paid: "run_phases n (pay_step E svc req c k) (Paid r) w = (Paid r, w)"
  by (induction n) simp_all

lemma run_phases_refunded: "run_phases n (refund_step E svc i a reason who c) (Refunded r) w = (Refunded r, w)"
  by (induction n) simp_all

lemma run_persist_phases:
  "run_phases (Suc (Suc n)) (pay_step E svc req c k) (Persist p res now) w =
     (case persist_or_replay E svc p c k res now w of (r, w') \<Rightarrow> (Paid r, w'))"
  by (auto simp: persist_or_replay_def run_phases_paid split: prod.split sum.split)

lemma run_charge_phases:
  "run_phases (Suc (Suc (Suc n))) (pay_step E svc req c k) Charge w =
     (case charge_and_persist E svc req c k w of (r, w') \<Rightarrow> (Paid r, w'))"
proof (cases "GetGatewayOrDefault E (svc_router svc) (pq_Gateway req)")
  case (Inl e)
  then show ?thesis by (simp add: charge_and_persist_def run_phases_paid)
next
  case (Inr g)
  let ?w = "w\<lparr>w_clk := Suc (w_clk w), w_ids := Suc (w_ids w)\<rparr>"
  let ?p = "new_payment E req (gw_GetName g) c k (E_now E (w_clk w)) (E_uuid E (w_ids w))"
  obtain res w1 where gw: "gw_ProcessPayment g (payment_gateway_request E req c k) ?w = (res, w1)"
    by fastforce
  have step: "pay_step E svc req c k Charge w = (Persist ?p res (E_now E (w_clk w)), w1)"
    using Inr gw by (simp add: draw_defs)
  have cp: "charge_and_persist E svc req c k w =
      persist_or_replay E svc ?p c k res (E_now E (w_clk w)) w1"
    using Inr gw by (simp add: charge_and_persist_def draw_defs)
  show ?thesis
    by (simp only: run_phases.simps(2) [of "Suc (Suc n)"] step prod.case run_persist_phases cp)
qed

lemma run_order_phases:
  assumes "svc_store svc = S"
  shows "run_phases 4 (pay_step E svc req c k) Find_Order w =
    (case (case st_GetPaymentByOrderID S (pq_OrderID req) w of
              (Inr existing, w1) \<Rightarrow>
                if p_Status existing = PaymentStatusCompleted then (Inr existing, w1)
                else charge_and_persist E svc req c k w1
            | (Inl err, w1) \<Rightarrow>
                if \<not> errors_Is err ErrNoRows then (Inl err, w1)
                else charge_and_persist E svc req c k w1) of (r, w') \<Rightarrow> (Paid r, w'))"
proof -
  obtain r w1 where get: "st_GetPaymentByOrderID S (pq_OrderID req) w = (r, w1)" by fastforce
  obtain r2 w2 where charge: "charge_and_persist E svc req c k w1 = (r2, w2)" by fastforce
  have rest: "run_phases (Suc (Suc (Suc 0))) (pay_step E svc req c k) Charge w1 = (Paid r2, w2)"
    by (simp only: run_charge_phases charge prod.case)
  have four: "4 = Suc (Suc (Suc (Suc 0)))" by simp
  show ?thesis
    unfolding four run_phases.simps(2) [of "Suc (Suc (Suc 0))"]
    by (cases r) (simp_all add: assms get rest charge run_phases_paid del: run_phases.simps)
qed

lemma run_pay_phases:
  "run_phases 5 (pay_step E svc req c k) Find_Key w =
     (case ProcessPayment E svc req c k w of (r, w') \<Rightarrow> (Paid r, w'))"
proof -
  have five: "5 = Suc 4" by simp
  obtain r1 w1 where get: "st_GetPaymentByIdempotencyKey (svc_store svc) k w = (r1, w1)" by fastforce
  note order = run_order_phases [OF refl, of E svc req c k]
  show ?thesis
    unfolding five run_phases.simps(2) [of 4] ProcessPayment_def Let_def
    by (cases "blank k"; cases r1)
      (simp_all add: get order found_or_def run_phases_paid del: run_phases.simps)
qed

lemma run_refund_phases:
  "run_phases 3 (refund_step E svc i amount reason who c) Find_Correlation w =
     (case ProcessRefund E svc i amount reason who c w of (r, w') \<Rightarrow> (Refunded r, w'))"
proof -
  have three: "3 = Suc (Suc (Suc 0))" by simp
  define refund_it where "refund_it =
        bindE (or_not_found ErrPaymentNotFound (st_GetPayment (svc_store svc) i)) (\<lambda>payment.
          if \<not> refund_allowed payment then failE ErrRefundNotAllowed
          else case GetGateway E (svc_router svc) (p_Gateway payment) of
            Inl err \<Rightarrow> failE err
          | Inr gatewayImpl \<Rightarrow>
              with_now E (\<lambda>now. with_uuid E (\<lambda>u.
                run_persist svc
                  (persistRefund E gatewayImpl payment
                     (new_refund payment i amount reason who c now u) i amount reason c))))"
  have rest: "run_phases (Suc (Suc 0)) (refund_step E svc i amount reason who c) Find_Payment w =
      (case refund_it w of (r, w') \<Rightarrow> (Refunded r, w'))" for w
  proof -
    obtain r1 w1 where get: "or_not_found ErrPaymentNotFound (st_GetPayment (svc_store svc) i) w = (r1, w1)"
      by fastforce
    show ?thesis
      by (cases r1) (auto simp: get refund_it_def bindE_def failE_def split: sum.split prod.split)
  qed
  obtain r1 w1 where get: "st_GetRefundByCorrelationID (svc_store svc) c w = (r1, w1)" by fastforce
  show ?thesis
    unfolding three run_phases.simps(2) [of "Suc (Suc 0)"] ProcessRefund_def Let_def
      refund_it_def [symmetric]
    by (cases "blank c"; cases r1)
      (simp_all add: get rest found_or_def run_phases_refunded del: run_phases.simps)
qed

text \<open>
  Taken one after the other the phases are the functions of the services: five steps of a
  payment request end in the answer and the world of \<open>ProcessPayment\<close>, three steps of a refund
  request in those of \<open>ProcessRefund\<close>.
\<close>

theorem phases_terminate:
  "run_phases 5 (pay_step E svc req correlationID key) Find_Key w =
     (case ProcessPayment E svc req correlationID key w of (r, w') \<Rightarrow> (Paid r, w')) \<and>
   run_phases 3 (refund_step E svc i amount reason who correlationID) Find_Correlation w =
     (case ProcessRefund E svc i amount reason who correlationID w of (r, w') \<Rightarrow> (Refunded r, w'))"
  by (rule conjI [OF run_pay_phases run_refund_phases])

section \<open>What a phase does to the ledger\<close>

text \<open>The row a payment request is about to store carries the amount that was validated.\<close>

fun pay_phase_ok :: "'d process_payment_request \<Rightarrow> 'd pay_phase \<Rightarrow> bool" where
  "pay_phase_ok req (Persist p res now) = (p_Amount p = pq_Amount req)"
| "pay_phase_ok req _ = True"

context transactional_store begin

lemma run_persist_charges:
  assumes svc: "svc_ok svc" and inv: "inv (w_db w)"
    and run: "run_persist svc (\<lambda>store. persistProcessedPayment E store p c res now) w = (r, w')"
  shows "inv (w_db w') \<and> (case r of Inl e \<Rightarrow> view (w_db w') = view (w_db w)
    | Inr q \<Rightarrow> charge_recorded ka kt res q (view (w_db w)) (view (w_db w')) \<and> p_Amount q = p_Amount p)"
proof (cases r)
  case (Inl e)
  have tx: "RunInTx T (\<lambda>store. persistProcessedPayment E store p c res now) w = (Inl e, w')"
    using run svc Inl by (simp add: run_persist_def svc_ok_def)
  from RunInTx_Inl [OF inv tx persist_in_tx] Inl show ?thesis by simp
next
  case (Inr q)
  have tx: "RunInTx T (\<lambda>store. persistProcessedPayment E store p c res now) w = (Inr q, w')"
    using run svc Inr by (simp add: run_persist_def svc_ok_def)
  obtain wa wb where "inv (w_db wa)" "view (w_db wa) = view (w_db w)"
    and b: "persistProcessedPayment E (tr_store T) p c res now wa = (Inr q, wb)"
    and d: "inv (w_db w')" "view (w_db w') = view (w_db wb)"
    by (rule RunInTx_Inr [OF inv tx], rule persist_in_tx, rule that)
  with persist_charges [OF this(1) b] Inr show ?thesis by simp
qed

lemma run_persist_recorded:
  assumes svc: "svc_ok svc" and inv: "inv (w_db w)" and E: "E_dec E = D"
    and g: "gateway_contract g" and refund: "r_PaymentID refund = i" "r_Amount refund = amount"
    and run: "run_persist svc (persistRefund E g payment refund i amount reason c) w = (Inr x, w')"
  shows "inv (w_db w') \<and> r_PaymentID x = i \<and> r_Amount x = amount \<and>
    r_CorrelationID x = r_CorrelationID refund \<and>
    (\<exists>p request result w0 w1. p \<in> set (l_payments (view (w_db w))) \<and> p_ID p = i \<and>
       gw_ProcessRefund g request w0 = (result, w1) \<and>
       refund_recorded val ka kt result p x (view (w_db w)) (view (w_db w')))"
proof -
  have tx: "RunInTx T (persistRefund E g payment refund i amount reason c) w = (Inr x, w')"
    using run svc by (simp add: run_persist_def svc_ok_def)
  obtain wa wb where a: "inv (w_db wa)" "view (w_db wa) = view (w_db w)"
    and b: "persistRefund E g payment refund i amount reason c (tr_store T) wa = (Inr x, wb)"
    and d: "inv (w_db w')" "view (w_db w') = view (w_db wb)"
    by (rule RunInTx_Inr [OF inv tx], rule persistRefund_in_tx [OF g], rule that)
  from persist_refunds [OF a(1) E g refund b] d(1) show ?thesis unfolding a(2) d(2) by blast
qed

lemma run_persist_refunds:
  assumes svc: "svc_ok svc" and inv: "inv (w_db w)" and E: "E_dec E = D"
    and g: "gateway_contract g" and refund: "r_PaymentID refund = i" "r_Amount refund = amount"
    and run: "run_persist svc (persistRefund E g payment refund i amount reason c) w = (r, w')"
  shows "inv (w_db w') \<and> (case r of Inl e \<Rightarrow> view (w_db w') = view (w_db w)
    | Inr x \<Rightarrow> r_Amount x = amount \<and>
        (\<exists>result p. refund_recorded val ka kt result p x (view (w_db w)) (view (w_db w'))))"
proof (cases r)
  case (Inl e)
  have tx: "RunInTx T (persistRefund E g payment refund i amount reason c) w = (Inl e, w')"
    using run svc Inl by (simp add: run_persist_def svc_ok_def)
  from RunInTx_Inl [OF inv tx persistRefund_in_tx [OF g]] Inl show ?thesis by simp
next
  case (Inr x)
  from run_persist_recorded [OF svc inv E g refund run [unfolded Inr]] Inr show ?thesis by auto
qed

lemma lookup_phase:
  assumes inv: "inv (w_db w)"
  shows "st_GetPaymentByIdempotencyKey S s w = (r, w') \<Longrightarrow> inv (w_db w') \<and> view (w_db w') = view (w_db w)"
    "st_GetPaymentByOrderID S s w = (r, w') \<Longrightarrow> inv (w_db w') \<and> view (w_db w') = view (w_db w)"
    "st_GetRefundByCorrelationID S s w = (x, w') \<Longrightarrow> inv (w_db w') \<and> view (w_db w') = view (w_db w)"
    "or_not_found e (st_GetPayment S i) w = (r, w') \<Longrightarrow> inv (w_db w') \<and> view (w_db w') = view (w_db w)"
  using get_view [OF inv] by (auto simp: or_not_found_def split: prod.splits sum.splits if_splits)

lemma pay_step_ok:
  assumes svc: "svc_ok svc" and inv: "inv (w_db w)" and a: "amount_ok D (pq_Amount req)"
    and ok: "pay_phase_ok req ph" and run: "pay_step E svc req c k ph w = (ph', w')"
  shows "inv (w_db w') \<and> step_or_same val ka kt (view (w_db w)) (view (w_db w')) \<and> pay_phase_ok req ph'"
proof -
  have S: "svc_store svc = S" using svc by (simp add: svc_ok_def)
  show ?thesis
  proof (cases ph)
    case Find_Key
    with run inv lookup_phase(1) [OF inv, of k] show ?thesis
      by (auto simp: S step_or_same_def split: if_splits prod.splits sum.splits)
  next
    case Find_Order
    with run inv lookup_phase(2) [OF inv, of "pq_OrderID req"] show ?thesis
      by (auto simp: S step_or_same_def split: if_splits prod.splits sum.splits)
  next
    case Charge
    show ?thesis
    proof (cases "GetGatewayOrDefault E (svc_router svc) (pq_Gateway req)")
      case (Inl e)
      with run Charge inv show ?thesis by (auto simp: step_or_same_def)
    next
      case (Inr g)
      have g: "gateway_contract g"
        using router_ok_default [OF _ Inr] svc by (simp add: svc_ok_def)
      obtain res w1 where gw: "gw_ProcessPayment g (payment_gateway_request E req c k)
          (w\<lparr>w_clk := Suc (w_clk w), w_ids := Suc (w_ids w)\<rparr>) = (res, w1)" by fastforce
      with gateway_contract.payment_db [OF g gw] run Charge Inr inv show ?thesis
        by (auto simp: draw_defs step_or_same_def new_payment_def)
    qed
  next
    case (Persist p res now)
    obtain r where "run_persist svc (\<lambda>store. persistProcessedPayment E store p c res now) w = (r, w')"
      and ph': "pay_phase_ok req ph'"
      using run Persist by (auto split: prod.splits sum.splits if_splits)
    have "ledger_step val ka kt L L'" if "charge_recorded ka kt res q L L'" "p_Amount q = p_Amount p"
      for q L L'
      using that kept_amount [OF a] ok Persist by (intro ledger_step.charge) auto
    with run_persist_charges [OF svc inv \<open>run_persist svc _ w = (r, w')\<close>] ph' show ?thesis
      by (cases r) (auto simp: step_or_same_def)
  next
    case (Replay e)
    with run lookup_phase(1) [OF inv, of k] show ?thesis
      by (auto simp: S step_or_same_def split: prod.splits sum.splits)
  next
    case (Paid r)
    with run inv show ?thesis by (auto simp: step_or_same_def)
  qed
qed

lemma refund_step_ok:
  assumes svc: "svc_ok svc" and inv: "inv (w_db w)" and E: "E_dec E = D"
    and a: "amount_ok D amount"
    and run: "refund_step E svc i amount reason who c ph w = (ph', w')"
  shows "inv (w_db w') \<and> step_or_same val ka kt (view (w_db w)) (view (w_db w'))"
proof -
  have S: "svc_store svc = S" using svc by (simp add: svc_ok_def)
  show ?thesis
  proof (cases ph)
    case Find_Correlation
    with run inv lookup_phase(3) [OF inv, of c] show ?thesis
      by (auto simp: S step_or_same_def split: if_splits prod.splits sum.splits)
  next
    case Find_Payment
    with run inv lookup_phase(4) [OF inv, of ErrPaymentNotFound i] show ?thesis
      by (auto simp: S step_or_same_def split: prod.splits sum.splits)
  next
    case (Refund_Tx p)
    show ?thesis
    proof (cases "GetGateway E (svc_router svc) (p_Gateway p)")
      case (Inl e)
      with run Refund_Tx inv show ?thesis by (auto simp: step_or_same_def)
    next
      case (Inr g)
      have g: "gateway_contract g" using router_okD [OF _ Inr] svc by (simp add: svc_ok_def)
      let ?w = "w\<lparr>w_clk := Suc (w_clk w), w_ids := Suc (w_ids w)\<rparr>"
      let ?r = "new_refund p i amount reason who c (E_now E (w_clk w)) (E_uuid E (w_ids w))"
      obtain r where "run_persist svc (persistRefund E g p ?r i amount reason c) ?w = (r, w')"
        using run Refund_Tx Inr by (auto simp: draw_defs split: prod.splits)
      from run_persist_refunds [OF svc _ E g _ _ this] inv have out: "inv (w_db w')"
        "case r of Inl e \<Rightarrow> view (w_db w') = view (w_db w)
         | Inr x \<Rightarrow> r_Amount x = amount \<and>
             (\<exists>result p. refund_recorded val ka kt result p x (view (w_db w)) (view (w_db w')))"
        by (cases r; simp add: new_refund_def)+
      have "ledger_step val ka kt L L'" if "refund_recorded val ka kt res q x L L'" "r_Amount x = amount"
        for res q x L L'
        using that kept_amount [OF a] by (intro ledger_step.refund) auto
      with out show ?thesis by (cases r) (auto simp: step_or_same_def)
    qed
  next
    case (Refunded r)
    with run inv show ?thesis by (auto simp: step_or_same_def)
  qed
qed

end

section \<open>Many requests\<close>

datatype 'd request =
    Payment_Request "'d process_payment_request" string string "'d pay_phase"
  | Refund_Request uuid "'d refund_request" string string "'d refund_phase"

definition request_step :: "'d env \<Rightarrow> ('d, 'db, 'x) handler \<Rightarrow> 'd request \<Rightarrow> ('db, 'x) world \<Rightarrow>
    'd request \<times> ('db, 'x) world" where
  "request_step E h rq w =
     (case rq of
        Payment_Request req c k ph \<Rightarrow>
          (case pay_step E (h_paymentService h) req c k ph w of
             (ph', w') \<Rightarrow> (Payment_Request req c k ph', w'))
      | Refund_Request i req who c ph \<Rightarrow>
          (case refund_step E (h_refundService h) i (fq_Amount req) (fq_Reason req) who c ph w of
             (ph', w') \<Rightarrow> (Refund_Request i req who c ph', w')))"

text \<open>The requests that have arrived, each at its phase, and the world they share; a request that has
  passed its validation arrives, or one of them takes its next phase.\<close>

inductive concurrent :: "'d env \<Rightarrow> ('d, 'db, 'x) handler \<Rightarrow> ('db, 'x) world \<Rightarrow> 'd request list \<Rightarrow>
    ('db, 'x) world \<Rightarrow> bool"
  for E :: "'d env" and h :: "('d, 'db, 'x) handler" and w0 :: "('db, 'x) world" where
  idle: "concurrent E h w0 [] w0"
| payment: "concurrent E h w0 rqs w \<Longrightarrow> validateProcessPaymentRequest E req = None \<Longrightarrow>
    concurrent E h w0 (rqs @ [Payment_Request req c k Find_Key]) w"
| refund: "concurrent E h w0 rqs w \<Longrightarrow> validateRefundRequest E rreq = None \<Longrightarrow>
    concurrent E h w0 (rqs @ [Refund_Request i rreq who c Find_Correlation]) w"
| step: "concurrent E h w0 rqs w \<Longrightarrow> n < length rqs \<Longrightarrow>
    request_step E h (rqs ! n) w = (rq, w') \<Longrightarrow> concurrent E h w0 (rqs[n := rq]) w'"

fun request_ok :: "'d decimal_ops \<Rightarrow> 'd request \<Rightarrow> bool" where
  "request_ok D (Payment_Request req c k ph) \<longleftrightarrow> amount_ok D (pq_Amount req) \<and> pay_phase_ok req ph"
| "request_ok D (Refund_Request i req who c ph) \<longleftrightarrow> amount_ok D (fq_Amount req)"

context transactional_store begin

lemma request_step_ok:
  assumes h: "handler_ok h" and inv: "inv (w_db w)" and E: "E_dec E = D"
    and ok: "request_ok D rq" and run: "request_step E h rq w = (rq', w')"
  shows "inv (w_db w') \<and> step_or_same val ka kt (view (w_db w)) (view (w_db w')) \<and> request_ok D rq'"
proof (cases rq)
  case (Payment_Request req c k ph)
  with run obtain ph' where p: "pay_step E (h_paymentService h) req c k ph w = (ph', w')"
    "rq' = Payment_Request req c k ph'"
    by (auto simp: request_step_def split: prod.splits)
  from pay_step_ok [OF _ inv _ _ p(1)] h ok Payment_Request p(2) show ?thesis
    by (simp add: handler_ok_def)
next
  case (Refund_Request i req who c ph)
  with run obtain ph' where p: "refund_step E (h_refundService h) i (fq_Amount req) (fq_Reason req)
      who c ph w = (ph', w')" "rq' = Refund_Request i req who c ph'"
    by (auto simp: request_step_def split: prod.splits)
  from refund_step_ok [OF _ inv E _ p(1)] h ok Refund_Request p(2) show ?thesis
    by (simp add: handler_ok_def)
qed

lemma concurrent_reachable:
  assumes h: "handler_ok h" and inv: "inv (w_db w0)" and E: "E_dec E = D"
    and start: "ledger_reachable val ka kt (view (w_db w0))"
    and run: "concurrent E h w0 rqs w"
  shows "inv (w_db w) \<and> ledger_reachable val ka kt (view (w_db w)) \<and> list_all (request_ok D) rqs"
  using run
proof (induction rule: concurrent.induct)
  case idle
  with inv start show ?case by simp
next
  case (payment rqs w req c k)
  with validated_payment [of E req] E show ?case by simp
next
  case (refund rqs w rreq i who c)
  with validated_refund [of E rreq] E show ?case by simp
next
  case (step rqs w n rq w')
  then have "request_ok D (rqs ! n)" by (simp add: list_all_length)
  from request_step_ok [OF h _ E this step(3)] step(4)
  have out: "inv (w_db w')" "step_or_same val ka kt (view (w_db w)) (view (w_db w'))"
    "request_ok D rq" by auto
  with step(2,4) reachable_step [of val ka kt "view (w_db w)"] show ?case
    by (auto simp: list_all_length nth_list_update)
qed

end

section \<open>Answers\<close>

text \<open>The payment or refund that a request has been answered with is in the ledger (a payment may
  have been refunded since).\<close>

definition payment_kept :: "'d ledger \<Rightarrow> 'd payment \<Rightarrow> bool" where
  "payment_kept L q \<longleftrightarrow> list_ex (\<lambda>p. p_ID p = p_ID q \<and> p_OrderID p = p_OrderID q \<and>
     p_IdempotencyKey p = p_IdempotencyKey q) (l_payments L)"

definition answer_kept :: "('d \<Rightarrow> 'd) \<Rightarrow> (time \<Rightarrow> time) \<Rightarrow> 'd ledger \<Rightarrow> 'd request \<Rightarrow> bool" where
  "answer_kept ka kt L rq =
     (case rq of
        Payment_Request _ _ _ ph \<Rightarrow>
          (case ph of Paid (Inr q) \<Rightarrow> payment_kept L q | _ \<Rightarrow> True)
      | Refund_Request _ _ _ _ ph \<Rightarrow>
          (case ph of Refunded (Inr r) \<Rightarrow> keep_refund ka kt r \<in> set (l_refunds L) | _ \<Rightarrow> True))"

lemma payment_keptI: "p \<in> set (l_payments L) \<Longrightarrow> payment_kept L p"
  by (auto simp: payment_kept_def list_ex_iff)

lemma ledger_step_keeps:
  assumes "ledger_step val ka kt L L'" "distinct (map p_ID (l_payments L))"
  shows "payment_kept L q \<Longrightarrow> payment_kept L' q" "set (l_refunds L) \<subseteq> set (l_refunds L')"
proof -
  have "(payment_kept L q \<longrightarrow> payment_kept L' q) \<and> set (l_refunds L) \<subseteq> set (l_refunds L')"
    using assms(1)
  proof (cases rule: ledger_step.cases)
    case (charge p res)
    then show ?thesis by (auto simp: charge_recorded_def payment_kept_def)
  next
    case (refund r res p)
    then obtain u t st where p: "p \<in> set (l_payments L)"
      and L': "L' = L\<lparr>l_payments := replace_payment (p\<lparr>p_Status := st, p_UpdatedAt := Some u\<rparr>)
          (l_payments L), l_refunds := l_refunds L @ [keep_refund ka kt r], l_txs := l_txs L @ [t]\<rparr>"
      unfolding refund_recorded_def by blast
    have "\<exists>x' \<in> set (l_payments L'). p_ID x' = p_ID x \<and> p_OrderID x' = p_OrderID x \<and>
        p_IdempotencyKey x' = p_IdempotencyKey x" if "x \<in> set (l_payments L)" for x
    proof -
      have "p_ID x = p_ID p \<longrightarrow> x = p"
        using assms(2) that p by (auto simp: distinct_map dest: inj_onD)
      then show ?thesis
        by (intro bexI [of _ "if p_ID x = p_ID p then p\<lparr>p_Status := st, p_UpdatedAt := Some u,
              p_CreatedAt := p_CreatedAt x\<rparr> else x"])
          (use that in \<open>auto simp: L' replace_payment_def\<close>)
    qed
    then have "payment_kept L q \<longrightarrow> payment_kept L' q"
      unfolding payment_kept_def list_ex_iff by metis
    then show ?thesis by (auto simp: L')
  qed
  then show "payment_kept L q \<Longrightarrow> payment_kept L' q" "set (l_refunds L) \<subseteq> set (l_refunds L')"
    by simp_all
qed

lemma answer_kept_step:
  "step_or_same val ka kt L L' \<Longrightarrow> distinct (map p_ID (l_payments L)) \<Longrightarrow> answer_kept ka kt L rq \<Longrightarrow>
     answer_kept ka kt L' rq"
  using ledger_step_keeps [of val ka kt L L']
  by (auto simp: step_or_same_def answer_kept_def split: request.splits pay_phase.splits
      refund_phase.splits sum.splits)

context transactional_store begin

lemma pay_step_answer:
  assumes svc: "svc_ok svc" and inv: "inv (w_db w)"
    and run: "pay_step E svc req c k ph w = (Paid (Inr q), w')"
    and ph: "\<And>q. ph \<noteq> Paid (Inr q)"
  shows "payment_kept (view (w_db w')) q"
proof -
  have S: "svc_store svc = S" using svc by (simp add: svc_ok_def)
  have found: "payment_kept (view (w_db w')) q"
    if "st_GetPaymentByIdempotencyKey S k w = (Inr q, w') \<or>
      st_GetPaymentByOrderID S (pq_OrderID req) w = (Inr q, w')"
    using that get_payment_by_key [OF inv] get_payment_by_order [OF inv] get_view(3,4) [OF inv]
    by (metis payment_keptI)
  show ?thesis
  proof (cases ph)
    case (Persist p res now)
    with run have "run_persist svc (\<lambda>store. persistProcessedPayment E store p c res now) w = (Inr q, w')"
      by (auto split: prod.splits sum.splits if_splits)
    from run_persist_charges [OF svc inv this]
    have "keep_payment ka kt q \<in> set (l_payments (view (w_db w')))"
      by (auto simp: charge_recorded_def)
    from payment_keptI [OF this] show ?thesis by (simp add: payment_kept_def)
  qed (use run ph found S in \<open>auto simp: draw_defs split: if_splits prod.splits sum.splits\<close>)
qed

lemma refund_step_answer:
  assumes svc: "svc_ok svc" and inv: "inv (w_db w)" and E: "E_dec E = D"
    and run: "refund_step E svc i amount reason who c ph w = (Refunded (Inr r), w')"
    and ph: "\<And>r. ph \<noteq> Refunded (Inr r)"
  shows "keep_refund ka kt r \<in> set (l_refunds (view (w_db w')))"
proof (cases ph)
  case Find_Correlation
  with run svc have get: "st_GetRefundByCorrelationID S c w = (Inr r, w')"
    by (auto simp: svc_ok_def split: if_splits prod.splits sum.splits)
  from get_refund_by_correlation [OF inv get] get_view(7) [OF inv get] refunds_kept [OF inv, of r]
  show ?thesis by simp
next
  case (Refund_Tx p)
  with run obtain g where g: "GetGateway E (svc_router svc) (p_Gateway p) = Inr g"
    by (auto split: sum.splits)
  have gc: "gateway_contract g" using router_okD [OF _ g] svc by (simp add: svc_ok_def)
  let ?w = "w\<lparr>w_clk := Suc (w_clk w), w_ids := Suc (w_ids w)\<rparr>"
  let ?r = "new_refund p i amount reason who c (E_now E (w_clk w)) (E_uuid E (w_ids w))"
  have "run_persist svc (persistRefund E g p ?r i amount reason c) ?w = (Inr r, w')"
    using run Refund_Tx g by (auto simp: draw_defs split: prod.splits)
  from run_persist_refunds [OF svc _ E gc _ _ this] inv show ?thesis
    by (auto simp: new_refund_def refund_recorded_def)
qed (use run ph in \<open>auto split: if_splits prod.splits sum.splits\<close>)

lemma request_step_answer:
  assumes h: "handler_ok h" and inv: "inv (w_db w)" and E: "E_dec E = D"
    and ok: "request_ok D rq" and kept: "answer_kept ka kt (view (w_db w)) rq"
    and run: "request_step E h rq w = (rq', w')"
  shows "answer_kept ka kt (view (w_db w')) rq'"
proof (cases rq)
  case (Payment_Request req c k ph)
  with run obtain ph' where p: "pay_step E (h_paymentService h) req c k ph w = (ph', w')"
    "rq' = Payment_Request req c k ph'"
    by (auto simp: request_step_def split: prod.splits)
  show ?thesis
  proof (cases "\<exists>q. ph = Paid (Inr q)")
    case True
    with p Payment_Request kept show ?thesis by auto
  next
    case False
    with pay_step_answer [OF _ inv] p h show ?thesis
      by (auto simp: answer_kept_def handler_ok_def split: pay_phase.split sum.split)
  qed
next
  case (Refund_Request i req who c ph)
  with run obtain ph' where p: "refund_step E (h_refundService h) i (fq_Amount req) (fq_Reason req)
      who c ph w = (ph', w')" "rq' = Refund_Request i req who c ph'"
    by (auto simp: request_step_def split: prod.splits)
  show ?thesis
  proof (cases "\<exists>r. ph = Refunded (Inr r)")
    case True
    with p Refund_Request kept show ?thesis by auto
  next
    case False
    with refund_step_answer [OF _ inv E] p h show ?thesis
      by (auto simp: answer_kept_def handler_ok_def split: refund_phase.split sum.split)
  qed
qed

lemma concurrent_answers:
  assumes h: "handler_ok h" and inv: "inv (w_db w0)" and E: "E_dec E = D"
    and start: "ledger_reachable val ka kt (view (w_db w0))"
    and run: "concurrent E h w0 rqs w"
  shows "list_all (answer_kept ka kt (view (w_db w))) rqs"
  using run
proof (induction rule: concurrent.induct)
  case (step rqs w n rq w')
  note ok = concurrent_reachable [OF h inv E start step(1)]
  then have rq: "request_ok D (rqs ! n)" "answer_kept ka kt (view (w_db w)) (rqs ! n)"
    using step by (auto simp: list_all_length)
  have inv': "inv (w_db w)" using ok by simp
  from request_step_ok [OF h inv' E rq(1) step(3)]
  have "step_or_same val ka kt (view (w_db w)) (view (w_db w'))" by simp
  from answer_kept_step [OF this conjunct1 [OF view_ids [OF inv']]]
    request_step_answer [OF h inv' E rq step(3)] step(2,4)
  show ?case by (auto simp: list_all_length nth_list_update)
qed (simp_all add: answer_kept_def)

end

section \<open>Two requests with the same key\<close>

text \<open>The insert of the second is refused by the unique index, and nothing is kept of it.\<close>

lemma duplicate_key_insert:
  assumes h: "healthy (w_db w)" and p: "p_ID p \<noteq> 0" "payment_fits p"
    and k: "p_IdempotencyKey p = Some k"
      "Some k \<in> p_IdempotencyKey ` set (l_payments (pg_ledger (w_db w)))"
  obtains e w' where "st_CreatePayment (tx_store E) p w = (Inl e, w')" "isUniqueViolation e"
    "pg_saved (w_db w') = pg_saved (w_db w)" "pg_faults (w_db w') = pg_faults (w_db w)"
proof -
  obtain t cols where st: "insert_payment = Insert t cols" by (simp add: insert_payment_def)
  define w1 where "w1 = w\<lparr>w_clk := Suc (w_clk w)\<rparr>"
  define p' where "p' = (if p_CreatedAt p = 0 then p\<lparr>p_CreatedAt := E_now (with_libs E) (w_clk w)\<rparr>
    else p)\<lparr>p_UpdatedAt := Some (E_now (with_libs E) (w_clk w))\<rparr>"
  have p': "payment_fits p'" "p_IdempotencyKey p' = Some k"
    using p(2) k(1) by (auto simp: p'_def payment_fits_def)
  let ?args = "insert_payment_args (with_libs E) p'"
  let ?T = "pg_tables (w_db w)" and ?r = "assigned cols ?args (\<lambda>_. VNull)"
  have t: "t = Payments" and r: "?r C_idempotency_key = VText k"
    using st p' by (auto simp: insert_payment_def insert_payment_args_def)
  have "VText k \<in> values_of C_idempotency_key (?T Payments)" using k(2) by (simp add: key_stored)
  then have "\<not> unique_ok t (?T t @ [?r])"
    using r unfolding unique_ok_def t by (auto simp: values_of_def)
  moreover have "list_all (not_null_ok t) (?T t @ [?r])"
    using healthy_tables [OF h] inserted_not_null(1) [OF st, of E p']
    by (auto simp: tables_ok_def row_ok_split list_all_iff)
  ultimately obtain m where "check_rows t (?T t @ [?r]) ?T = Some (PgError ''23505'' m)"
    by (simp add: check_rows_def)
  then have run: "run_statement insert_payment ?args ?T = Inl (PgError ''23505'' m)"
    using insert_payment_checked [OF st, of E p'] p'(1) by (simp add: st Let_def)
  let ?db = "(w_db w)\<lparr>pg_calls := Suc (pg_calls (w_db w)), pg_aborted := True\<rparr>"
  have h1: "healthy (w_db w1)" using h by (simp add: w1_def)
  have "q_Exec (pool_tx pg_pool) insert_payment ?args w1 = (Inl (PgError ''23505'' m), w1\<lparr>w_db := ?db\<rparr>)"
    using run by (simp add: pg_pool_def pg_querier_def on_db_def pg_call_healthy [OF h1] pg_exec_def)
      (simp add: w1_def)
  then have "st_CreatePayment (tx_store E) p w = (Inl (PgError ''23505'' m), w1\<lparr>w_db := ?db\<rparr>)"
    using p(1) by (simp add: sql_runner_def sql_store_def Store_CreatePayment_def Let_def with_now_def
        bindE_def p'_def [symmetric] w1_def [symmetric])
  then show thesis by (rule that) (simp_all add: isUniqueViolation_def)
qed

lemma duplicate_key_persist:
  assumes h: "healthy (w_db w)" and svc: "store.txs.svc_ok E svc"
    and p: "p_ID p \<noteq> 0" "payment_fits p" "p_IdempotencyKey p = Some k"
      "Some k \<in> p_IdempotencyKey ` set (l_payments (pg_ledger (w_db w)))"
  obtains e w' where
    "run_persist svc (\<lambda>store. persistProcessedPayment (with_libs E) store p c res now) w = (Inl e, w')"
    "isUniqueViolation e" "healthy (w_db w')" "pg_ledger (w_db w') = pg_ledger (w_db w)"
proof -
  let ?w1 = "w\<lparr>w_db := (w_db w)\<lparr>pg_calls := Suc (pg_calls (w_db w)), pg_saved := pg_tables (w_db w),
    pg_aborted := False, pg_locks := []\<rparr>\<rparr>"
  have b: "tr_begin (sql_runner (with_libs E) pg_pool) w = (Inr (), ?w1)"
    by (simp add: sql_runner_def pg_pool_def on_db_def pg_call_healthy [OF h] pg_begin_def)
  have h1: "healthy (w_db ?w1)" using h by (simp add: healthy_def pg_ok_def)
  obtain e w2 where c: "st_CreatePayment (tx_store E) p ?w1 = (Inl e, w2)" and e: "isUniqueViolation e"
    and w2: "pg_saved (w_db w2) = pg_tables (w_db w)" "pg_faults (w_db w2) = (\<lambda>_. None)"
    by (rule duplicate_key_insert [OF h1 p(1,2,3), of E])
      (use p(4) h in \<open>simp_all add: pg_ledger_def healthy_def\<close>)
  let ?w3 = "w2\<lparr>w_db := (w_db w2)\<lparr>pg_tables := pg_saved (w_db w2), pg_aborted := False,
    pg_calls := Suc (pg_calls (w_db w2)), pg_locks := []\<rparr>\<rparr>"
  have rb: "tr_rollback (sql_runner (with_libs E) pg_pool) w2 = (Inr (), ?w3)"
    using w2(2) by (simp add: sql_runner_def pg_pool_def on_db_def pg_rollback_def)
  show thesis
  proof (rule that [OF _ e])
    show "run_persist svc (\<lambda>store. persistProcessedPayment (with_libs E) store p c res now) w = (Inl e, ?w3)"
      using svc b c rb by (simp add: run_persist_def store.txs.svc_ok_def RunInTx_def bindE_def
          persistProcessedPayment_def)
    show "healthy (w_db ?w3)" using h w2 by (simp add: healthy_def pg_ok_def)
    show "pg_ledger (w_db ?w3) = pg_ledger (w_db w)" by (simp add: pg_ledger_def w2(1))
  qed
qed

text \<open>A key with white space around it: the lookups take it as it was sent and find nothing, but the row
  that is inserted carries it trimmed, and is refused after the gateway has been called.\<close>

lemma padded_key_persist:
  assumes h: "healthy (w_db w)" and svc: "store.txs.svc_ok E svc"
    and p: "p_ID p \<noteq> 0" "payment_fits p" "p_IdempotencyKey p = Some (TrimSpace k)"
    and stored: "Some (TrimSpace k) \<in> p_IdempotencyKey ` set (l_payments (pg_ledger (w_db w)))"
      "Some k \<notin> p_IdempotencyKey ` set (l_payments (pg_ledger (w_db w)))"
  obtains e w' where "persist_or_replay (with_libs E) svc p c k res now w = (Inl e, w')"
    "isUniqueViolation e" "pg_ledger (w_db w') = pg_ledger (w_db w)" "quiet w w'"
proof -
  have S: "svc_store svc = sql_store (with_libs E) (NewStore pg_pool)"
    using svc by (simp add: store.txs.svc_ok_def)
  obtain e w1 where
    run: "run_persist svc (\<lambda>store. persistProcessedPayment (with_libs E) store p c res now) w = (Inl e, w1)"
    and e: "isUniqueViolation e" and w1: "healthy (w_db w1)" "pg_ledger (w_db w1) = pg_ledger (w_db w)"
    by (rule duplicate_key_persist [OF h svc p stored(1)])
  have q1: "quiet w w1"
    using stepsD [OF store.txs.run_persist_quiet] run svc
    by (fastforce simp: run_persist_def store.txs.svc_ok_def)
  obtain r w2 where get: "st_GetPaymentByIdempotencyKey (svc_store svc) k w1 = (r, w2)"
    and w2: "pg_ledger (w_db w2) = pg_ledger (w_db w1)" "quiet w1 w2"
    unfolding S by (rule answeredD [OF lookups_healthy(3) [OF w1(1)]])
  have "r \<noteq> Inr q" for q
    using store.txs.key_lookup [OF healthyD(1) [OF w1(1)] svc get, folded pg_ledger_def] stored(2) w1(2)
    by (metis image_eqI)
  then obtain e2 where "r = Inl e2" by (cases r) auto
  with run e get have "persist_or_replay (with_libs E) svc p c k res now w =
      (Inl e, if blank k then w1 else w2)"
    by (simp add: persist_or_replay_def)
  then show thesis by (rule that) (use e w1 w2 q1 quiet_trans [OF q1 w2(2)] in auto)
qed

lemma padded_key_charges:
  assumes h: "healthy (w_db w)" and svc: "store.txs.svc_ok E svc"
    and g: "GetGatewayOrDefault (with_libs E) (svc_router svc) (pq_Gateway req) = Inr g"
    and k: "\<not> blank k" and stored: "Some (TrimSpace k) \<in> p_IdempotencyKey ` set (l_payments (pg_ledger (w_db w)))"
      "Some k \<notin> p_IdempotencyKey ` set (l_payments (pg_ledger (w_db w)))"
    and fits: "payment_fits (new_payment (with_libs E) req (gw_GetName g) c k 0 0)"
    and fresh: "E_uuid E (w_ids w) \<noteq> 0"
  obtains res e w' where "charge_and_persist (with_libs E) svc req c k w = (Inl e, w')"
    "isUniqueViolation e" "pg_ledger (w_db w') = pg_ledger (w_db w)"
    "gateway_charged (with_libs E) svc req c k w res w'"
proof -
  let ?E = "with_libs E"
  define w0 where "w0 = w\<lparr>w_clk := Suc (w_clk w), w_ids := Suc (w_ids w)\<rparr>"
  define p where "p = new_payment ?E req (gw_GetName g) c k (E_now E (w_clk w)) (E_uuid E (w_ids w))"
  obtain res w1 where gw: "gw_ProcessPayment g (payment_gateway_request ?E req c k) w0 = (res, w1)"
    by fastforce
  have "gateway_contract g"
    using router_ok_default [OF _ g] svc by (simp add: store.txs.svc_ok_def)
  from gateway_contract.payment_db [OF this gw] have db: "w_db w1 = w_db w" by (simp add: w0_def)
  have p: "payment_fits p" "p_ID p \<noteq> 0" "p_IdempotencyKey p = Some (TrimSpace k)"
    using fits fresh k by (auto simp: p_def new_payment_def payment_fits_def nullString_def Let_def)
  obtain e w' where pr: "persist_or_replay ?E svc p c k res (E_now E (w_clk w)) w1 = (Inl e, w')"
    and out: "isUniqueViolation e" "pg_ledger (w_db w') = pg_ledger (w_db w1)" "quiet w1 w'"
    by (rule padded_key_persist [where w = w1, OF _ svc p(2,1,3)]) (use h stored db in simp_all)
  have "charge_and_persist ?E svc req c k w = (Inl e, w')"
    using g gw pr by (simp add: charge_and_persist_def draw_defs with_libs_draws w0_def p_def)
  moreover have "gateway_charged ?E svc req c k w res w'"
    unfolding gateway_charged_def
    by (intro exI [of _ g] exI [of _ w0] exI [of _ w1]) (simp add: g gw out(3), simp add: w0_def quiet_def)
  ultimately show thesis using out db by (intro that) simp_all
qed

lemma padded_key_processed:
  assumes h: "healthy (w_db w)" and svc: "store.txs.svc_ok E svc"
    and g: "GetGatewayOrDefault (with_libs E) (svc_router svc) (pq_Gateway req) = Inr g"
    and k: "\<not> blank k" and stored: "Some (TrimSpace k) \<in> p_IdempotencyKey ` set (l_payments (pg_ledger (w_db w)))"
      "Some k \<notin> p_IdempotencyKey ` set (l_payments (pg_ledger (w_db w)))"
    and unpaid: "list_all (\<lambda>q. p_OrderID q \<noteq> pq_OrderID req \<or> p_Status q \<noteq> PaymentStatusCompleted)
      (l_payments (pg_ledger (w_db w)))"
    and fits: "payment_fits (new_payment (with_libs E) req (gw_GetName g) c k 0 0)"
    and fresh: "E_uuid E (w_ids w) \<noteq> 0"
  obtains res e w' where "ProcessPayment (with_libs E) svc req c k w = (Inl e, w')"
    "isUniqueViolation e" "pg_ledger (w_db w') = pg_ledger (w_db w)"
    "gateway_charged (with_libs E) svc req c k w res w'"
proof -
  let ?S = "sql_store (with_libs E) (NewStore pg_pool)" and ?L = "pg_ledger (w_db w)"
  have S: "svc_store svc = ?S" using svc by (simp add: store.txs.svc_ok_def)
  obtain r1 w1 where get1: "st_GetPaymentByIdempotencyKey ?S k w = (r1, w1)"
    and w1: "healthy (w_db w1)" "pg_ledger (w_db w1) = ?L" "w_ids w1 = w_ids w" "quiet w w1"
    and r1: "r1 = Inl ErrNoRows \<or> (\<exists>x. r1 = Inr x)"
    by (rule answeredD [OF lookups_healthy(3) [OF h]])
  have "r1 \<noteq> Inr q" for q
    using store.txs.key_lookup [OF healthyD(1) [OF h] svc get1 [folded S], folded pg_ledger_def] stored(2)
    by (metis image_eqI)
  with r1 have r1: "r1 = Inl ErrNoRows" by blast
  obtain r2 w2 where get2: "st_GetPaymentByOrderID ?S (pq_OrderID req) w1 = (r2, w2)"
    and w2: "healthy (w_db w2)" "pg_ledger (w_db w2) = pg_ledger (w_db w1)" "w_ids w2 = w_ids w1" "quiet w1 w2"
    and r2: "r2 = Inl ErrNoRows \<or> (\<exists>x. r2 = Inr x)"
    by (rule answeredD [OF lookups_healthy(2) [OF w1(1)]])
  have open_order: "p_Status q \<noteq> PaymentStatusCompleted" if "r2 = Inr q" for q
    using store.txs.get_payment_by_order [OF healthyD(1) [OF w1(1)], folded pg_ledger_def,
        OF get2 [unfolded that]] unpaid w1(2) by (auto simp: list_all_iff)
  obtain res e w' where charge: "charge_and_persist (with_libs E) svc req c k w2 = (Inl e, w')"
    and out: "isUniqueViolation e" "pg_ledger (w_db w') = pg_ledger (w_db w2)"
      "gateway_charged (with_libs E) svc req c k w2 res w'"
    by (rule padded_key_charges [where w = w2, OF w2(1) svc g k _ _ fits]) (use stored fresh w1 w2 in simp_all)
  have "ProcessPayment (with_libs E) svc req c k w = (Inl e, w')"
    using k get1 r1 get2 r2 open_order charge
    by (cases r2) (auto simp: ProcessPayment_def found_or_def S)
  moreover have "gateway_charged (with_libs E) svc req c k w res w'"
    using gateway_charged_quiet [OF quiet_trans [OF w1(4) w2(4)] out(3)] .
  ultimately show thesis using out w1 w2 by (intro that) simp_all
qed

lemma race_lost:
  assumes h: "healthy (w_db w)" and svc: "store.txs.svc_ok E svc"
    and p: "p_ID p \<noteq> 0" "payment_fits p" "p_IdempotencyKey p = Some k" "\<not> blank k"
      "Some k \<in> p_IdempotencyKey ` set (l_payments (pg_ledger (w_db w)))"
  shows "case run_phases 2 (pay_step (with_libs E) svc req c k) (Persist p res now) w of
    (ph, w') \<Rightarrow> pg_ledger (w_db w') = pg_ledger (w_db w) \<and>
      (\<exists>q \<in> set (l_payments (pg_ledger (w_db w))). ph = Paid (Inr q) \<and> p_IdempotencyKey q = Some k)"
proof -
  have S: "svc_store svc = sql_store (with_libs E) (NewStore pg_pool)"
    using svc by (simp add: store.txs.svc_ok_def)
  obtain e w1 where
    run: "run_persist svc (\<lambda>store. persistProcessedPayment (with_libs E) store p c res now) w = (Inl e, w1)"
    and e: "isUniqueViolation e" and w1: "healthy (w_db w1)" "pg_ledger (w_db w1) = pg_ledger (w_db w)"
    by (rule duplicate_key_persist [OF h svc p(1,2,3,5)])
  obtain r w2 where get: "st_GetPaymentByIdempotencyKey (sql_store (with_libs E) (NewStore pg_pool)) k w1 = (r, w2)"
    and w2: "pg_ledger (w_db w2) = pg_ledger (w_db w1)"
    and r: "r = Inl ErrNoRows \<or> (\<exists>x. r = Inr x)"
    by (rule answeredD [OF lookups_healthy(3) [OF w1(1)]])
  have "r \<noteq> Inl ErrNoRows"
    using store.txs.get_payment_by_key_none [OF healthyD(1) [OF w1(1)], folded pg_ledger_def, of E k
        ErrNoRows w2] get p(5) w1(2) by auto
  with r obtain q where q: "r = Inr q" by blast
  from store.txs.get_payment_by_key [OF healthyD(1) [OF w1(1)] get [unfolded q], folded pg_ledger_def]
  have "q \<in> set (l_payments (pg_ledger (w_db w)))" "p_IdempotencyKey q = Some k"
    by (simp_all add: w1(2))
  moreover have "run_phases 2 (pay_step (with_libs E) svc req c k) (Persist p res now) w = (Paid (Inr q), w2)"
    using run e p(4) get q S by (simp add: numeral_2_eq_2)
  ultimately show ?thesis using w1 w2 by simp
qed

text \<open>Nothing stops both from charging: neither lookup finds a payment before one of them has stored
  its own.\<close>

lemma find_phases:
  assumes h: "healthy (w_db w)" and svc: "store.txs.svc_ok E svc"
    and unpaid: "unpaid req k (pg_ledger (w_db w))"
  obtains w1 w2 where "pay_step (with_libs E) svc req c k Find_Key w = (Find_Order, w1)"
    "pay_step (with_libs E) svc req c k Find_Order w1 = (Charge, w2)" "healthy (w_db w2)"
    "pg_ledger (w_db w2) = pg_ledger (w_db w)" "quiet w w2"
proof -
  let ?S = "sql_store (with_libs E) (NewStore pg_pool)"
  have S: "svc_store svc = ?S" using svc by (simp add: store.txs.svc_ok_def)
  obtain r w1 where key: "st_GetPaymentByIdempotencyKey ?S k w = (r, w1)"
    and w1: "healthy (w_db w1)" "pg_ledger (w_db w1) = pg_ledger (w_db w)" "quiet w w1"
    and r: "r = Inl ErrNoRows \<or> (\<exists>x. r = Inr x)"
    by (rule answeredD [OF lookups_healthy(3) [OF h]])
  have "r = Inl ErrNoRows" if "\<not> blank k"
    using store.txs.get_payment_by_key [OF healthyD(1) [OF h], folded pg_ledger_def, of E k _ w1]
      key r unpaid that unfolding unpaid_def earlier_payment_def by auto
  then have "\<exists>w1. pay_step (with_libs E) svc req c k Find_Key w = (Find_Order, w1) \<and>
      healthy (w_db w1) \<and> pg_ledger (w_db w1) = pg_ledger (w_db w) \<and> quiet w w1"
    using key S w1 h by (cases "blank k") auto
  then obtain w1 where s1: "pay_step (with_libs E) svc req c k Find_Key w = (Find_Order, w1)"
    and w1: "healthy (w_db w1)" "pg_ledger (w_db w1) = pg_ledger (w_db w)" "quiet w w1" by blast
  obtain r2 w2 where order: "st_GetPaymentByOrderID ?S (pq_OrderID req) w1 = (r2, w2)"
    and w2: "healthy (w_db w2)" "pg_ledger (w_db w2) = pg_ledger (w_db w1)" "quiet w1 w2"
    and r2: "r2 = Inl ErrNoRows \<or> (\<exists>x. r2 = Inr x)"
    by (rule answeredD [OF lookups_healthy(2) [OF w1(1)]])
  have "p_Status q \<noteq> PaymentStatusCompleted" if "r2 = Inr q" for q
    using store.txs.get_payment_by_order [OF healthyD(1) [OF w1(1)], folded pg_ledger_def,
        OF order [unfolded that]] unpaid
    unfolding unpaid_def earlier_payment_def w1(2) by blast
  then have "pay_step (with_libs E) svc req c k Find_Order w1 = (Charge, w2)"
    using order r2 S by auto
  with s1 show thesis by (rule that) (use w1 w2 quiet_trans in auto)
qed

lemma charge_phase:
  assumes g: "GetGatewayOrDefault E (svc_router svc) (pq_Gateway req) = Inr g"
  obtains p res now w' where "pay_step E svc req c k Charge w = (Persist p res now, w')"
    "gw_ProcessPayment g (payment_gateway_request E req c k)
       (w\<lparr>w_clk := Suc (w_clk w), w_ids := Suc (w_ids w)\<rparr>) = (res, w')"
proof -
  obtain res w' where "gw_ProcessPayment g (payment_gateway_request E req c k)
       (w\<lparr>w_clk := Suc (w_clk w), w_ids := Suc (w_ids w)\<rparr>) = (res, w')" by fastforce
  then show thesis using g by (intro that) (auto simp: draw_defs)
qed

lemma both_charge:
  assumes hd: "healthy (w_db w)" and h: "store.txs.handler_ok E h"
    and unpaid: "unpaid req k (pg_ledger (w_db w))"
    and v: "validateProcessPaymentRequest (with_libs E) req = None"
    and g: "GetGatewayOrDefault (with_libs E) (svc_router (h_paymentService h)) (pq_Gateway req) = Inr g"
  shows "\<exists>wa resa wb wc resb wd pa pb ta tb. quiet w wa \<and>
    gw_ProcessPayment g (payment_gateway_request (with_libs E) req c k) wa = (resa, wb) \<and> quiet wb wc \<and>
    gw_ProcessPayment g (payment_gateway_request (with_libs E) req c k) wc = (resb, wd) \<and>
    concurrent (with_libs E) h w [Payment_Request req c k (Persist pa resa ta),
      Payment_Request req c k (Persist pb resb tb)] wd"
proof -
  let ?E = "with_libs E" and ?svc = "h_paymentService h"
  let ?rq = "\<lambda>ph. Payment_Request req c k ph"
  have svc: "store.txs.svc_ok E ?svc" using h by (simp add: store.txs.handler_ok_def)
  obtain w1 w2 where a: "pay_step ?E ?svc req c k Find_Key w = (Find_Order, w1)"
    "pay_step ?E ?svc req c k Find_Order w1 = (Charge, w2)"
    and w2: "healthy (w_db w2)" "pg_ledger (w_db w2) = pg_ledger (w_db w)" "quiet w w2"
    by (rule find_phases [OF hd svc unpaid])
  obtain w3 w4 where b: "pay_step ?E ?svc req c k Find_Key w2 = (Find_Order, w3)"
    "pay_step ?E ?svc req c k Find_Order w3 = (Charge, w4)" and w4: "quiet w2 w4"
    by (rule find_phases [OF w2(1) svc]) (use unpaid w2(2) in auto)
  obtain pa resa ta wb where ca: "pay_step ?E ?svc req c k Charge w4 = (Persist pa resa ta, wb)"
    and ga: "gw_ProcessPayment g (payment_gateway_request ?E req c k)
      (w4\<lparr>w_clk := Suc (w_clk w4), w_ids := Suc (w_ids w4)\<rparr>) = (resa, wb)"
    by (rule charge_phase [OF g])
  obtain pb resb tb wd where cb: "pay_step ?E ?svc req c k Charge wb = (Persist pb resb tb, wd)"
    and gb: "gw_ProcessPayment g (payment_gateway_request ?E req c k)
      (wb\<lparr>w_clk := Suc (w_clk wb), w_ids := Suc (w_ids wb)\<rparr>) = (resb, wd)"
    by (rule charge_phase [OF g])
  note arrive = concurrent.payment [OF concurrent.payment [OF concurrent.idle v, simplified] v, simplified]
  have first: "concurrent ?E h w [?rq ph', y] w'" if "concurrent ?E h w [?rq ph, y] u"
    "pay_step ?E ?svc req c k ph u = (ph', w')" for ph ph' y u w'
    using concurrent.step [OF that(1), of 0] that(2) by (simp add: request_step_def)
  have second: "concurrent ?E h w [x, ?rq ph'] w'" if "concurrent ?E h w [x, ?rq ph] u"
    "pay_step ?E ?svc req c k ph u = (ph', w')" for ph ph' x u w'
    using concurrent.step [OF that(1), of 1] that(2) by (simp add: request_step_def)
  have "concurrent ?E h w [?rq (Persist pa resa ta), ?rq (Persist pb resb tb)] wd"
    by (rule second [OF first [OF second [OF second [OF first [OF first [OF arrive a(1)] a(2)] b(1)] b(2)]
          ca] cb])
  moreover have "quiet w (w4\<lparr>w_clk := Suc (w_clk w4), w_ids := Suc (w_ids w4)\<rparr>)"
    using quiet_trans [OF w2(3) w4] by (simp add: quiet_def)
  moreover have "quiet wb (wb\<lparr>w_clk := Suc (w_clk wb), w_ids := Suc (w_ids wb)\<rparr>)"
    by (simp add: quiet_def)
  ultimately show ?thesis using ga gb by blast
qed

section \<open>Two refunds with the same correlation id\<close>

text \<open>Nor does the lookup of a refund's correlation id stop a second copy that arrives before the
  first is stored; no unique index backs it.\<close>

lemma find_refund_phases:
  assumes h: "healthy (w_db w)" and svc: "store.txs.svc_ok E svc"
    and new: "blank c \<or> Some c \<notin> r_CorrelationID ` set (l_refunds (pg_ledger (w_db w)))"
    and p: "p \<in> set (l_payments (pg_ledger (w_db w)))" "p_ID p = i" "refund_allowed p"
    and g: "GetGateway (with_libs E) (svc_router svc) (p_Gateway p) = Inr g"
  obtains w1 w2 where
    "refund_step (with_libs E) svc i amount reason who c Find_Correlation w = (Find_Payment, w1)"
    "refund_step (with_libs E) svc i amount reason who c Find_Payment w1 = (Refund_Tx p, w2)"
    "healthy (w_db w2)" "pg_ledger (w_db w2) = pg_ledger (w_db w)" "w_ids w2 = w_ids w"
proof -
  let ?S = "sql_store (with_libs E) (NewStore pg_pool)"
  have S: "svc_store svc = ?S" using svc by (simp add: store.txs.svc_ok_def)
  obtain r w1 where corr: "st_GetRefundByCorrelationID ?S c w = (r, w1)"
    and w1: "healthy (w_db w1)" "pg_ledger (w_db w1) = pg_ledger (w_db w)" "w_ids w1 = w_ids w"
    and r: "r = Inl ErrNoRows \<or> (\<exists>x. r = Inr x)"
    by (rule answeredD [OF lookups_healthy(5) [OF h]])
  have "r \<noteq> Inr x" if "\<not> blank c" for x
    using store.txs.get_refund_by_correlation [OF healthyD(1) [OF h], folded pg_ledger_def, of E c x w1]
      corr new that by (metis image_eqI)
  then have "\<not> blank c \<Longrightarrow> r = Inl ErrNoRows" using r by blast
  then have "\<exists>w1. refund_step (with_libs E) svc i amount reason who c Find_Correlation w = (Find_Payment, w1) \<and>
      healthy (w_db w1) \<and> pg_ledger (w_db w1) = pg_ledger (w_db w) \<and> w_ids w1 = w_ids w"
    using corr S w1 h by (cases "blank c") auto
  then obtain w1 where
    s1: "refund_step (with_libs E) svc i amount reason who c Find_Correlation w = (Find_Payment, w1)"
    and w1: "healthy (w_db w1)" "pg_ledger (w_db w1) = pg_ledger (w_db w)" "w_ids w1 = w_ids w" by blast
  obtain r2 w2 where get: "st_GetPayment ?S i w1 = (r2, w2)"
    and w2: "healthy (w_db w2)" "pg_ledger (w_db w2) = pg_ledger (w_db w1)" "w_ids w2 = w_ids w1"
    and r2: "r2 = Inl ErrNoRows \<or> (\<exists>x. r2 = Inr x)"
    by (rule answeredD [OF lookups_healthy(1) [OF w1(1)]])
  have "r2 = Inr p"
    by (rule stored_payment_found [OF w1(1) _ p(2) get r2]) (simp add: w1(2) p(1))
  then have "refund_step (with_libs E) svc i amount reason who c Find_Payment w1 = (Refund_Tx p, w2)"
    using get S p(3) g by (simp add: or_not_found_def)
  with s1 show thesis by (rule that) (use w1 w2 in auto)
qed

text \<open>A refund that leaves enough of the payment for itself once more.\<close>

lemma covered_again:
  assumes rec: "refund_recorded exact_val pg_amount micros result p x L L'" and ok: "rr_Success result"
    and p: "p_ID p = i" "distinct (map p_ID (l_payments L))"
    and x: "r_PaymentID x = i" "0 < exact_val (r_Amount x)"
      "exact_val (pg_amount (r_Amount x)) = exact_val (r_Amount x)"
    and twice: "exact_val (r_Amount x) + exact_val (r_Amount x) \<le> exact_val (p_Amount p) - refunded exact_val L i"
  shows "refund_covered exact_val L' i (r_Amount x)"
proof -
  obtain u t where mem: "p \<in> set (l_payments L)"
    and s: "r_Status x = (if rr_Success result then RefundStatusCompleted else RefundStatusFailed)"
    and L': "L' = L\<lparr>l_payments := replace_payment (p\<lparr>p_Status := PaymentStatusCompleted,
        p_UpdatedAt := Some u\<rparr>) (l_payments L), l_refunds := l_refunds L @ [keep_refund pg_amount micros x],
      l_txs := l_txs L @ [t]\<rparr>"
    using rec ok twice x(2) p(1) unfolding refund_recorded_def status_after_def by auto
  let ?p = "p\<lparr>p_Status := PaymentStatusCompleted, p_UpdatedAt := Some u\<rparr>"
  have "?p \<in> set (l_payments L')"
    using mem by (simp add: L' replace_payment_row [OF p(2) mem])
  moreover have "refunded exact_val L' i = refunded exact_val L i + exact_val (r_Amount x)"
    using refunded_with [of L' L pg_amount micros x exact_val "rr_Success result" i] x s ok
    by (simp add: L')
  ultimately show ?thesis
    using twice p(1) unfolding refund_covered_def list_ex_iff
    by (intro bexI [of _ ?p]) (simp_all add: refund_allowed_def)
qed

lemma refund_tx_phase:
  assumes h: "healthy (w_db w)" and svc: "store.txs.svc_ok E svc"
    and g: "GetGateway (with_libs E) (svc_router svc) (p_Gateway p) = Inr g" "refunds_fit_columns g"
    and cov: "refund_covered exact_val (pg_ledger (w_db w)) i amount"
    and fits: "refund_fits (new_refund p i amount reason who c 0 0)"
    and fresh: "fresh_from k E w" "4 \<le> k"
  obtains x w' q request result w0 w1 where
    "refund_step (with_libs E) svc i amount reason who c (Refund_Tx p) w = (Refunded (Inr x), w')"
    "healthy (w_db w')" "fresh_from (k - 4) E w'" "r_PaymentID x = i" "r_Amount x = amount"
    "r_CorrelationID x = nullString c" "q \<in> set (l_payments (pg_ledger (w_db w)))" "p_ID q = i"
    "gw_ProcessRefund g request w0 = (result, w1)"
    "refund_recorded exact_val pg_amount micros result q x (pg_ledger (w_db w)) (pg_ledger (w_db w'))"
proof -
  let ?w = "w\<lparr>w_clk := Suc (w_clk w), w_ids := Suc (w_ids w)\<rparr>"
  let ?r = "new_refund p i amount reason who c (E_now E (w_clk w)) (E_uuid E (w_ids w))"
  have "fresh_ids 4 E w" using fresh by (auto simp: fresh_from_def fresh_ids_all)
  from refund_tx_healthy [OF h svc g cov fits this] obtain x w' where
    run: "run_persist svc (persistRefund (with_libs E) g p ?r i amount reason c) ?w = (Inr x, w')"
    and w': "healthy (w_db w')"
    and d: "drawn E 4 {} (pg_ledger (w_db w)) (w_ids w) (pg_ledger (w_db w')) (w_ids w')" by blast
  have gc: "gateway_contract g" using router_okD [OF _ g(1)] svc by (simp add: store.txs.svc_ok_def)
  have step: "refund_step (with_libs E) svc i amount reason who c (Refund_Tx p) w = (Refunded (Inr x), w')"
    using run g(1) by (simp add: draw_defs with_libs_draws)
  have "pg_ok (w_db ?w)" using healthyD(1) [OF h] by simp
  from store.txs.run_persist_recorded [OF svc this with_libs_dec gc _ _ run]
  show thesis
    using that [OF step w' fresh_from_drawn [OF fresh(1) d]]
    unfolding pg_ledger_def [symmetric] pg_amount_def [symmetric]
    by (auto simp: new_refund_def)
qed

lemma two_refund_phases:
  assumes h: "healthy (w_db w)" and svc: "store.txs.svc_ok E svc"
    and p: "p \<in> set (l_payments (pg_ledger (w_db w)))" "p_ID p = i" "refund_allowed p"
    and g: "GetGateway (with_libs E) (svc_router svc) (p_Gateway p) = Inr g" "refunds_fit_columns g"
    and amount: "amount_ok exact_ops amount"
    and fits: "refund_fits (new_refund p i amount reason who c 0 0)"
    and yes: "\<And>request w0. rr_Success (fst (gw_ProcessRefund g request w0))"
    and twice: "exact_val amount + exact_val amount \<le>
      exact_val (p_Amount p) - refunded exact_val (pg_ledger (w_db w)) i"
    and fresh: "fresh_from 8 E w"
  obtains x w1 y w2 where
    "refund_step (with_libs E) svc i amount reason who c (Refund_Tx p) w = (Refunded (Inr x), w1)"
    "refund_step (with_libs E) svc i amount reason who c (Refund_Tx p) w1 = (Refunded (Inr y), w2)"
    "l_refunds (pg_ledger (w_db w2)) = l_refunds (pg_ledger (w_db w)) @
      [keep_refund pg_amount micros x, keep_refund pg_amount micros y]"
    "r_CorrelationID x = nullString c" "r_CorrelationID y = nullString c"
    "r_Status x = RefundStatusCompleted" "r_Status y = RefundStatusCompleted"
proof -
  let ?step = "refund_step (with_libs E) svc i amount reason who c (Refund_Tx p)"
  let ?rec = "refund_recorded exact_val pg_amount micros"
  have a: "0 < exact_val amount" "exact_val (pg_amount amount) = exact_val amount"
    using store.txs.kept_amount [OF amount] unfolding pg_amount_def by simp_all
  have ids: "distinct (map p_ID (l_payments (pg_ledger (w_db w))))"
    using store.txs.view_ids [OF healthyD(1) [OF h], folded pg_ledger_def] by simp
  have cov: "refund_covered exact_val (pg_ledger (w_db w)) i amount"
    using p twice a(1) unfolding refund_covered_def list_ex_iff by (intro bexI [of _ p]) auto
  obtain x w1 qx rx resx wx0 wx1 where x: "?step w = (Refunded (Inr x), w1)" "healthy (w_db w1)"
    "fresh_from (8 - 4) E w1" "r_PaymentID x = i" "r_Amount x = amount" "r_CorrelationID x = nullString c"
    "qx \<in> set (l_payments (pg_ledger (w_db w)))" "p_ID qx = i"
    "gw_ProcessRefund g rx wx0 = (resx, wx1)" "?rec resx qx x (pg_ledger (w_db w)) (pg_ledger (w_db w1))"
    by (rule refund_tx_phase [OF h svc g cov fits fresh]) simp
  have resx: "rr_Success resx" using yes [of rx wx0] x(9) by simp
  have "qx = p" using x(7,8) p(1,2) ids by (auto simp: distinct_map dest: inj_onD)
  then have cov1: "refund_covered exact_val (pg_ledger (w_db w1)) i amount"
    using covered_again [OF x(10) resx x(8) ids x(4)] a twice by (simp add: x(5))
  obtain y w2 qy ry resy wy0 wy1 where y: "?step w1 = (Refunded (Inr y), w2)" "healthy (w_db w2)"
    "fresh_from (8 - 4 - 4) E w2" "r_PaymentID y = i" "r_Amount y = amount" "r_CorrelationID y = nullString c"
    "qy \<in> set (l_payments (pg_ledger (w_db w1)))" "p_ID qy = i"
    "gw_ProcessRefund g ry wy0 = (resy, wy1)" "?rec resy qy y (pg_ledger (w_db w1)) (pg_ledger (w_db w2))"
    by (rule refund_tx_phase [OF x(2) svc g cov1 fits x(3)]) simp
  have resy: "rr_Success resy" using yes [of ry wy0] y(9) by simp
  have "l_refunds (pg_ledger (w_db w2)) = l_refunds (pg_ledger (w_db w)) @
      [keep_refund pg_amount micros x, keep_refund pg_amount micros y]"
    using x(10) y(10) by (auto simp: refund_recorded_def)
  moreover have "r_Status x = RefundStatusCompleted" "r_Status y = RefundStatusCompleted"
    using x(10) y(10) resx resy by (simp_all add: refund_recorded_def)
  ultimately show thesis using that [OF x(1) y(1)] x(6) y(6) by blast
qed

lemma both_refund:
  assumes hd: "healthy (w_db w)" and h: "store.txs.handler_ok E h"
    and new: "blank c \<or> Some c \<notin> r_CorrelationID ` set (l_refunds (pg_ledger (w_db w)))"
    and p: "p \<in> set (l_payments (pg_ledger (w_db w)))" "p_ID p = i" "refund_allowed p"
    and g: "GetGateway (with_libs E) (svc_router (h_refundService h)) (p_Gateway p) = Inr g"
    and v: "validateRefundRequest (with_libs E) req = None"
    and fits: "refund_fits (new_refund p i (fq_Amount req) (fq_Reason req) who c 0 0)" "refunds_fit_columns g"
    and yes: "\<And>request w0. rr_Success (fst (gw_ProcessRefund g request w0))"
    and twice: "exact_val (fq_Amount req) + exact_val (fq_Amount req) \<le>
      exact_val (p_Amount p) - refunded exact_val (pg_ledger (w_db w)) i"
    and fresh: "fresh_from 8 E w"
  shows "\<exists>x y w'. concurrent (with_libs E) h w [Refund_Request i req who c (Refunded (Inr x)),
      Refund_Request i req who c (Refunded (Inr y))] w' \<and>
    l_refunds (pg_ledger (w_db w')) = l_refunds (pg_ledger (w_db w)) @
      [keep_refund pg_amount micros x, keep_refund pg_amount micros y] \<and>
    r_CorrelationID x = nullString c \<and> r_CorrelationID y = nullString c \<and>
    r_Status x = RefundStatusCompleted \<and> r_Status y = RefundStatusCompleted"
proof -
  let ?E = "with_libs E" and ?svc = "h_refundService h"
  let ?step = "refund_step ?E ?svc i (fq_Amount req) (fq_Reason req) who c"
  let ?rq = "\<lambda>ph. Refund_Request i req who c ph"
  have svc: "store.txs.svc_ok E ?svc" using h by (simp add: store.txs.handler_ok_def)
  obtain w1 w2 where a: "?step Find_Correlation w = (Find_Payment, w1)"
    "?step Find_Payment w1 = (Refund_Tx p, w2)"
    and w2: "healthy (w_db w2)" "pg_ledger (w_db w2) = pg_ledger (w_db w)" "w_ids w2 = w_ids w"
    by (rule find_refund_phases [OF hd svc new p g])
  obtain w3 w4 where b: "?step Find_Correlation w2 = (Find_Payment, w3)"
    "?step Find_Payment w3 = (Refund_Tx p, w4)"
    and w4: "healthy (w_db w4)" "pg_ledger (w_db w4) = pg_ledger (w_db w2)" "w_ids w4 = w_ids w2"
    by (rule find_refund_phases [OF w2(1) svc _ _ p(2,3) g]) (use new p w2(2) in auto)
  note arrive = concurrent.refund [OF concurrent.refund [OF concurrent.idle v, simplified] v, simplified]
  have first: "concurrent ?E h w [?rq ph', y] w'" if "concurrent ?E h w [?rq ph, y] u"
    "?step ph u = (ph', w')" for ph ph' y u w'
    using concurrent.step [OF that(1), of 0] that(2) by (simp add: request_step_def)
  have second: "concurrent ?E h w [x, ?rq ph'] w'" if "concurrent ?E h w [x, ?rq ph] u"
    "?step ph u = (ph', w')" for ph ph' x u w'
    using concurrent.step [OF that(1), of 1] that(2) by (simp add: request_step_def)
  have L4: "pg_ledger (w_db w4) = pg_ledger (w_db w)" "w_ids w4 = w_ids w" using w2 w4 by simp_all
  have f4: "fresh_from 8 E w4" using fresh fresh_ids_cong [of 8 E w w4] L4 by (simp add: fresh_from_def)
  obtain x w5 y w6 where t: "?step (Refund_Tx p) w4 = (Refunded (Inr x), w5)"
      "?step (Refund_Tx p) w5 = (Refunded (Inr y), w6)"
    and out: "l_refunds (pg_ledger (w_db w6)) = l_refunds (pg_ledger (w_db w4)) @
        [keep_refund pg_amount micros x, keep_refund pg_amount micros y]"
      "r_CorrelationID x = nullString c" "r_CorrelationID y = nullString c"
      "r_Status x = RefundStatusCompleted" "r_Status y = RefundStatusCompleted"
    by (rule two_refund_phases [OF w4(1) svc _ p(2,3) g fits(2) validated_refund [OF v, unfolded with_libs_dec]
          fits(1) yes _ f4]) (use p(1) twice L4 in simp_all)
  have "concurrent ?E h w [?rq (Refunded (Inr x)), ?rq (Refunded (Inr y))] w6"
    by (rule second [OF first [OF second [OF second [OF first [OF first [OF arrive a(1)] a(2)] b(1)] b(2)]
          t(1)] t(2)])
  with out L4 show ?thesis by auto
qed

end
