(* ===== verification/Overlapping_Transactions.thy ===== *)
theory Overlapping_Transactions
  imports Healthy_Store
begin

text \<open>
  Database transactions that overlap.  The transaction of a refund (the closure \<open>persist\<close> of
  \<open>refund.go\<close>) begins with \<open>SELECT ... FOR UPDATE\<close> of its payment (\<open>GetPaymentForUpdate\<close> of
  \<open>store.go\<close>); others may begin and commit while it is open.  What a transaction has locked is what
  the statements of its body left in \<open>pg_locks\<close> of the database of \<open>Postgres\<close>, and PostgreSQL
  grants no two open transactions a lock of the same row.  A transaction is open from the lock to
  its commit: its body has run on the ledger as it was when the lock was granted, and what it has
  written is not seen by others before the commit, which puts the rows it has changed or inserted
  into the ledger as it is then (PostgreSQL's READ COMMITTED).
\<close>

section \<open>Open transactions\<close>

text \<open>The rows it has locked, the ledger the body began with and the one it left.\<close>

record 'd open_tx =
  ot_locks :: "(table \<times> sql_value) list"
  ot_snap :: "'d ledger"
  ot_after :: "'d ledger"

definition granted :: "(table \<times> sql_value) list \<Rightarrow> 'd open_tx list \<Rightarrow> bool" where
  "granted ks txs \<longleftrightarrow> list_all (\<lambda>t. set ks \<inter> set (ot_locks t) = {}) txs"

text \<open>The rows a transaction changed replace the rows with their keys, the rows it inserted come last.\<close>

definition rebase_rows :: "('r \<Rightarrow> 'k) \<Rightarrow> 'r list \<Rightarrow> 'r list \<Rightarrow> 'r list \<Rightarrow> 'r list" where
  "rebase_rows key before after current =
     map (\<lambda>r. case find (\<lambda>(b, a). key b = key r \<and> a \<noteq> b) (zip before after) of
                Some (_, a) \<Rightarrow> a | None \<Rightarrow> r) current @ drop (length before) after"

definition rebase :: "'d open_tx \<Rightarrow> 'd ledger \<Rightarrow> 'd ledger" where
  "rebase t L = L\<lparr>
     l_payments := rebase_rows p_ID (l_payments (ot_snap t)) (l_payments (ot_after t)) (l_payments L),
     l_refunds := rebase_rows r_ID (l_refunds (ot_snap t)) (l_refunds (ot_after t)) (l_refunds L),
     l_txs := rebase_rows t_ID (l_txs (ot_snap t)) (l_txs (ot_after t)) (l_txs L)\<rparr>"

text \<open>The primary keys and the unique index of the schema.\<close>

definition unique_rows :: "'d ledger \<Rightarrow> bool" where
  "unique_rows L \<longleftrightarrow> distinct (map p_ID (l_payments L)) \<and> keys_unique (l_payments L) \<and>
     distinct (map r_ID (l_refunds L)) \<and> distinct (map t_ID (l_txs L))"

text \<open>The ledger that is committed, and the open transactions.  A transaction opens when its body
  succeeds on some state of the database with the committed ledger, at any time and with any
  failures scheduled for it, and the locks it has taken by then are granted.\<close>

definition opened :: "pg \<Rightarrow> exact ledger \<Rightarrow> exact open_tx" where
  "opened db L = \<lparr>ot_locks = pg_locks db, ot_snap = L, ot_after = pg_ledger db\<rparr>"

inductive overlapping :: "exact env \<Rightarrow> (exact, pg, 'x) handler \<Rightarrow> exact ledger \<Rightarrow>
    exact open_tx list \<Rightarrow> bool"
  for E :: "exact env" and h :: "(exact, pg, 'x) handler" where
  start: "ledger_ok exact_val L \<Longrightarrow> overlapping E h L []"
| payment: "overlapping E h L txs \<Longrightarrow> pg_ok (w_db (w :: (pg, 'x) world)) \<Longrightarrow> pg_ledger (w_db w) = L \<Longrightarrow>
    validateProcessPaymentRequest (with_libs E) req = None \<Longrightarrow>
    pool_Begin pg_pool w = (Inr (), w1) \<Longrightarrow>
    persistProcessedPayment (with_libs E) (tx_store E)
      (new_payment (with_libs E) req name c key now u) c result now w1 = (Inr q, w2) \<Longrightarrow>
    granted (pg_locks (w_db w2)) txs \<Longrightarrow> overlapping E h L (txs @ [opened (w_db w2) L])"
| refund: "overlapping E h L txs \<Longrightarrow> pg_ok (w_db w) \<Longrightarrow> pg_ledger (w_db w) = L \<Longrightarrow>
    validateRefundRequest (with_libs E) req = None \<Longrightarrow>
    GetGateway (with_libs E) (svc_router (h_refundService h)) (p_Gateway p) = Inr g \<Longrightarrow>
    pool_Begin pg_pool w = (Inr (), w1) \<Longrightarrow>
    persistRefund (with_libs E) g p (new_refund p i (fq_Amount req) (fq_Reason req) who c now u) i
      (fq_Amount req) (fq_Reason req) c (tx_store E) w1 = (Inr r, w2) \<Longrightarrow>
    granted (pg_locks (w_db w2)) txs \<Longrightarrow> overlapping E h L (txs @ [opened (w_db w2) L])"
| commit: "overlapping E h L (txs1 @ t # txs2) \<Longrightarrow> unique_rows (rebase t L) \<Longrightarrow>
    overlapping E h (rebase t L) (txs1 @ txs2)"
| rollback: "overlapping E h L (txs1 @ t # txs2) \<Longrightarrow> overlapping E h L (txs1 @ txs2)"

section \<open>What the statements lock\<close>

definition locks_grow :: "(pg, 'x) world_rel" where
  "locks_grow w w' \<longleftrightarrow> set (pg_locks (w_db w)) \<subseteq> set (pg_locks (w_db w'))"

lemma frame_locks_grow [simp]: "frame_rel locks_grow"
  by (auto simp: frame_rel_def locks_grow_def)

lemma pg_call_locks:
  assumes "\<And>db. set (pg_locks db) \<subseteq> set (pg_locks (snd (f db)))"
  shows "steps locks_grow (on_db (pg_call b f))"
proof -
  have "set (pg_locks db) \<subseteq> set (pg_locks (snd (pg_call b f db)))" for db
    using assms [of "db\<lparr>pg_calls := Suc (pg_calls db)\<rparr>"]
    by (auto simp: pg_call_def Let_def split: option.split)
  then show ?thesis
    unfolding locks_grow_def [abs_def]
    by (rule on_db_steps [where P = "\<lambda>db db'. set (pg_locks db) \<subseteq> set (pg_locks db')"])
qed

lemma pg_locks_select: "set (pg_locks db) \<subseteq> set (pg_locks (snd (pg_select b sel v db)))"
  by (auto simp: pg_select_def lock_rows_def Let_def split: list.split)

lemma querier_locks:
  "steps locks_grow (q_Exec (pg_querier b) st v)" "steps locks_grow (q_Query (pg_querier b) sel v)"
  "steps locks_grow (q_QueryRow (pg_querier b) sel v)"
  unfolding pg_querier_def querier.simps
proof (rule_tac [!] pg_call_locks)
  fix db
  show "set (pg_locks db) \<subseteq> set (pg_locks (snd (pg_exec st v db)))"
    by (auto simp: pg_exec_def split: sum.split prod.split)
  show "set (pg_locks db) \<subseteq> set (pg_locks (snd (pg_query b sel v db)))"
    using pg_locks_select [of db b sel v]
    by (auto simp: pg_query_def split: sum.split prod.split)
  show "set (pg_locks db) \<subseteq> set (pg_locks (snd (pg_query_row b sel v db)))"
    using pg_locks_select [of db b sel v]
    by (auto simp: pg_query_row_def split: sum.split prod.split list.split)
qed

lemma tx_store_eq:
  "tx_store E = sql_store (with_libs E) \<lparr>s_pool = Some pg_pool, s_db = pg_querier True\<rparr>"
  by (simp add: sql_runner_def pg_pool_def)

lemma tx_store_locks: "reads locks_grow (tx_store E)" "writes locks_grow (tx_store E)"
  unfolding tx_store_eq
  by (auto intro!: sql_store_reads sql_store_writes querier_locks)

text \<open>A transaction begins without locks, and a payment's takes none: it reads nothing.\<close>

lemma Begin_unlocked: "pool_Begin pg_pool w = (Inr (), w1) \<Longrightarrow> pg_locks (w_db w1) = []"
  by (auto simp: pg_pool_def on_db_eq pg_begin_def elim!: pg_call_cases)

lemma persist_unlocked:
  assumes "persistProcessedPayment (with_libs E) (tx_store E) p c result now w = (r, w')"
  shows "pg_locks (w_db w') = pg_locks (w_db w)"
proof -
  let ?R = "\<lambda>w w'. pg_locks (w_db w') = pg_locks (w_db w)"
  have R: "frame_rel ?R" by (simp add: frame_rel_def)
  have "pg_locks (snd (pg_call True (pg_exec st v) db)) = pg_locks db" for st v db
    by (auto simp: pg_call_def pg_exec_def Let_def split: option.split sum.split prod.split)
  then have "steps ?R (q_Exec (pg_querier True) st v)" for st v
    unfolding pg_querier_def querier.simps
    by (intro on_db_steps [where P = "\<lambda>db db'. pg_locks db' = pg_locks db"])
  then have "writes ?R (tx_store E)" unfolding tx_store_eq by (intro sql_store_writes R) simp
  from stepsD [OF steps_persist [OF R this] assms] show ?thesis .
qed

text \<open>The read of \<open>GetPaymentForUpdate\<close> locks the row it returns.\<close>

lemma for_update_locks:
  assumes "st_GetPaymentForUpdate (tx_store E) i w = (Inr p, w')"
  shows "(Payments, VUuid i) \<in> set (pg_locks (w_db w'))"
proof -
  let ?sel = "select_payment C_id False False True"
  from assms obtain row db where call: "pg_call True (pg_query_row True ?sel [VUuid i]) (w_db w) = (Inr row, db)"
    and w': "w' = w\<lparr>w_db := db\<rparr>"
    unfolding tx_store_eq
    by (auto simp: sql_store_def Store_GetPaymentForUpdate_def query_row_def bindE_Inr pg_querier_def
        on_db_eq)
  let ?db = "(w_db w)\<lparr>pg_calls := Suc (pg_calls (w_db w))\<rparr>"
  let ?rows = "select_rows ?sel (VUuid i) (pg_tables ?db)"
  have "pg_query_row True ?sel [VUuid i] ?db = (Inr row, db)"
    using call by (rule pg_call_cases) simp_all
  then have "?rows \<noteq> []" "db = lock_rows True ?sel ?rows ?db"
    by (auto simp: pg_query_row_def pg_select_def Let_def split: list.splits)
  moreover from this(1) obtain r where "r \<in> set ?rows" by (cases ?rows) auto
  moreover from this have "r C_id = VUuid i" by (auto simp: select_rows_def select_payment_def)
  ultimately show ?thesis
    by (auto simp: w' lock_rows_def select_payment_def intro!: image_eqI [where x = r])
qed

lemma persistRefund_reads_first:
  "persistRefund E g p refund i amount reason c store =
     bindE (st_GetPaymentForUpdate store i) (\<lambda>locked.
       persistRefund E g p refund i amount reason c (store\<lparr>st_GetPaymentForUpdate := \<lambda>_. returnE locked\<rparr>))"
proof -
  have "settle_refund E (store\<lparr>st_GetPaymentForUpdate := f\<rparr>) = settle_refund E store" for f
    by (intro ext) (simp add: settle_refund_def)
  then show ?thesis by (simp add: persistRefund_def Let_def cong: if_cong)
qed

lemma persistRefund_locks:
  assumes g: "gateway_contract g"
    and run: "persistRefund (with_libs E) g p refund i amount reason c (tx_store E) w = (Inr r, w')"
  shows "(Payments, VUuid i) \<in> set (pg_locks (w_db w'))"
proof -
  define rest where "rest = (\<lambda>locked. persistRefund (with_libs E) g p refund i amount reason c
    ((tx_store E)\<lparr>st_GetPaymentForUpdate := \<lambda>_. returnE locked\<rparr>))"
  obtain locked w1 where get: "st_GetPaymentForUpdate (tx_store E) i w = (Inr locked, w1)"
    and run1: "rest locked w1 = (Inr r, w')"
    using run unfolding persistRefund_reads_first [of _ _ _ _ _ _ _ _ "tx_store E"] bindE_Inr rest_def by blast
  have "steps locks_grow (rest locked)"
    unfolding rest_def
  proof (rule steps_persistRefund)
    show "reads locks_grow ((tx_store E)\<lparr>st_GetPaymentForUpdate := \<lambda>_. returnE locked\<rparr>)"
      "writes locks_grow ((tx_store E)\<lparr>st_GetPaymentForUpdate := \<lambda>_. returnE locked\<rparr>)"
      by (simp_all add: reads_def writes_def readsD [OF tx_store_locks(1)] writesD [OF tx_store_locks(2)]
          steps_returnE)
    show "locks_grow w w1" if "gw_ProcessRefund g q w = (res, w1)" for q w res w1
      using gateway_contract.refund_db [OF g that] by (simp add: locks_grow_def)
  qed simp
  from stepsD [OF this run1] for_update_locks [OF get] show ?thesis
    by (auto simp: locks_grow_def)
qed

section \<open>Rebasing\<close>

lemma rebase_rows_append: "rebase_rows key xs (xs @ ys) cur = cur @ ys"
proof -
  have "zip xs (xs @ ys) = map (\<lambda>x. (x, x)) xs" by (induction xs) simp_all
  then have "find (\<lambda>(b, a). key b = key r \<and> a \<noteq> b) (zip xs (xs @ ys)) = None" for r
    by (auto simp: find_None_iff)
  then show ?thesis by (simp add: rebase_rows_def)
qed

lemma rebase_rows_same: "rebase_rows key xs xs cur = cur"
  using rebase_rows_append [of key xs "[]"] by simp

lemma find_replaced:
  assumes "distinct (map key xs)" "p \<in> set xs" "key p' = key p"
  shows "find (\<lambda>(b, a). key b = key r \<and> a \<noteq> b) (zip xs (map (\<lambda>q. if q = p then p' else q) xs)) =
    (if key r = key p \<and> p' \<noteq> p then Some (p, p') else None)"
  using assms by (induction xs) (auto simp: find_None_iff zip_map2 set_zip image_iff)

lemma rebase_rows_replace:
  assumes "distinct (map key xs)" "p \<in> set xs" "key p' = key p"
  shows "rebase_rows key xs (map (\<lambda>q. if q = p then p' else q) xs) cur =
    map (\<lambda>q. if key q = key p \<and> p' \<noteq> p then p' else q) cur"
  unfolding rebase_rows_def find_replaced [OF assms] by (auto intro: map_cong)

lemma rebase_charge:
  assumes "charge_recorded ka kt result p (ot_snap t) (ot_after t)" and "unique_rows (rebase t L)"
  shows "charge_recorded ka kt result p L (rebase t L)"
proof -
  from assms(1) obtain u where u: "t_PaymentID u = p_ID p" "t_RefundID u = None"
      "t_Type u = TransactionTypeCharge" "t_Success u = pr_Success result" "t_Amount u = ka (p_Amount p)"
    and status: "p_Status p = (if pr_Success result then PaymentStatusCompleted else PaymentStatusFailed)"
    and after: "ot_after t = (ot_snap t)\<lparr>l_payments := l_payments (ot_snap t) @ [keep_payment ka kt p],
      l_txs := l_txs (ot_snap t) @ [u]\<rparr>"
    unfolding charge_recorded_def by blast
  have L': "rebase t L = L\<lparr>l_payments := l_payments L @ [keep_payment ka kt p], l_txs := l_txs L @ [u]\<rparr>"
    unfolding rebase_def after
    by (simp add: rebase_rows_append rebase_rows_same)
  have "p_ID p \<notin> p_ID ` set (l_payments L)" "\<And>k. p_IdempotencyKey p = Some k \<Longrightarrow>
      Some k \<notin> p_IdempotencyKey ` set (l_payments L)"
    using assms(2) unfolding unique_rows_def L' by (simp_all add: keys_unique_append)
  then show ?thesis unfolding charge_recorded_def L' using u status by blast
qed

text \<open>What the holder of a lock has seen of its payment.\<close>

definition same_rows :: "uuid \<Rightarrow> 'd ledger \<Rightarrow> 'd ledger \<Rightarrow> bool" where
  "same_rows i L L' \<longleftrightarrow>
     filter (\<lambda>p. p_ID p = i) (l_payments L') = filter (\<lambda>p. p_ID p = i) (l_payments L) \<and>
     filter (\<lambda>r. r_PaymentID r = i) (l_refunds L') = filter (\<lambda>r. r_PaymentID r = i) (l_refunds L)"

lemma same_rows_refl: "same_rows i L L"
  by (simp add: same_rows_def)

lemma same_rows_trans: "same_rows i L L' \<Longrightarrow> same_rows i L' L'' \<Longrightarrow> same_rows i L L''"
  by (simp add: same_rows_def)

lemma same_rows_payment: "same_rows (p_ID p) L L' \<Longrightarrow> p \<in> set (l_payments L) \<Longrightarrow> p \<in> set (l_payments L')"
proof -
  assume "same_rows (p_ID p) L L'" "p \<in> set (l_payments L)"
  then have "p \<in> set (filter (\<lambda>q. p_ID q = p_ID p) (l_payments L'))" by (simp add: same_rows_def)
  then show ?thesis by simp
qed

lemma same_rows_refunded: "same_rows i L L' \<Longrightarrow> refunded val L' i = refunded val L i"
proof -
  have split: "filter (\<lambda>r. r_PaymentID r = i \<and> Q r) rs = filter Q (filter (\<lambda>r. r_PaymentID r = i) rs)"
    for Q :: "'a refund \<Rightarrow> bool" and rs by (induction rs) auto
  assume "same_rows i L L'"
  then show ?thesis unfolding refunded_def same_rows_def split by simp
qed

lemma rebase_refund:
  assumes rec: "refund_recorded val ka kt result p r (ot_snap t) (ot_after t)"
    and ids: "distinct (map p_ID (l_payments (ot_snap t)))" "distinct (map p_ID (l_payments L))"
    and same: "same_rows (p_ID p) (ot_snap t) L" and unique: "unique_rows (rebase t L)"
  shows "refund_recorded val ka kt result p r L (rebase t L)"
proof -
  let ?S = "ot_snap t"
  from rec obtain u n where p: "p \<in> set (l_payments ?S)" "p_ID p = r_PaymentID r" "refund_allowed p"
      "val (r_Amount r) \<le> val (p_Amount p) - refunded val ?S (p_ID p)"
      "r_Status r = (if rr_Success result then RefundStatusCompleted else RefundStatusFailed)"
    and u: "t_PaymentID u = p_ID p" "t_RefundID u = Some (r_ID r)" "t_Type u = TransactionTypeRefund"
      "t_Success u = rr_Success result" "t_Amount u = ka (r_Amount r)"
    and after: "ot_after t = ?S\<lparr>l_payments := replace_payment
          (p\<lparr>p_Status := status_after (rr_Success result) (val (r_Amount r))
               (val (p_Amount p) - refunded val ?S (p_ID p)), p_UpdatedAt := Some n\<rparr>) (l_payments ?S),
        l_refunds := l_refunds ?S @ [keep_refund ka kt r], l_txs := l_txs ?S @ [u]\<rparr>"
    unfolding refund_recorded_def by blast
  define p' where "p' = p\<lparr>p_Status := status_after (rr_Success result) (val (r_Amount r))
      (val (p_Amount p) - refunded val ?S (p_ID p)), p_UpdatedAt := Some n\<rparr>"
  have p': "p_ID p' = p_ID p" "p_CreatedAt p' = p_CreatedAt p" by (simp_all add: p'_def)
  have pL: "p \<in> set (l_payments L)" using same p(1) by (rule same_rows_payment)
  have "rebase_rows p_ID (l_payments ?S) (replace_payment p' (l_payments ?S)) (l_payments L) =
      map (\<lambda>q. if p_ID q = p_ID p \<and> p' \<noteq> p then p' else q) (l_payments L)"
    unfolding replace_payment_row [OF ids(1) p(1) p'] by (rule rebase_rows_replace [OF ids(1) p(1) p'(1)])
  also have "\<dots> = replace_payment p' (l_payments L)"
    unfolding replace_payment_row [OF ids(2) pL p']
    using ids(2) pL by (auto simp: distinct_map dest: inj_onD)
  finally have L': "rebase t L = L\<lparr>l_payments := replace_payment p' (l_payments L),
      l_refunds := l_refunds L @ [keep_refund ka kt r], l_txs := l_txs L @ [u]\<rparr>"
    unfolding rebase_def after p'_def [symmetric] by (simp add: rebase_rows_append)
  have new: "r_ID r \<notin> r_ID ` set (l_refunds L)" using unique by (simp add: unique_rows_def L')
  show ?thesis
    unfolding refund_recorded_def L' p'_def
    using p u new pL same_rows_refunded [OF same, of val]
    by (intro conjI exI [where x = n] exI [where x = u]) simp_all
qed

section \<open>The lock protects what its holder has seen\<close>

text \<open>A commit leaves the rows of every payment it has not locked.\<close>

lemma charge_same_rows:
  "charge_recorded ka kt result p L L' \<Longrightarrow> i \<in> p_ID ` set (l_payments L) \<Longrightarrow> same_rows i L L'"
  by (auto simp: charge_recorded_def same_rows_def)

lemma replace_payment_other:
  "i \<noteq> p_ID p \<Longrightarrow> filter (\<lambda>q. p_ID q = i) (replace_payment p ps) = filter (\<lambda>q. p_ID q = i) ps"
  by (induction ps) (auto simp: replace_payment_def)

lemma refund_same_rows:
  "refund_recorded val ka kt result p r L L' \<Longrightarrow> i \<noteq> p_ID p \<Longrightarrow> same_rows i L L'"
  by (auto simp: refund_recorded_def same_rows_def replace_payment_other)

text \<open>An open transaction records, at its snapshot, a charge or the refund of a payment whose row it
  holds; and the payments it has locked are still as it has seen them.\<close>

definition locks_payment :: "'d open_tx \<Rightarrow> uuid \<Rightarrow> bool" where
  "locks_payment t i \<longleftrightarrow> (Payments, VUuid i) \<in> set (ot_locks t)"

definition as_locked :: "'d ledger \<Rightarrow> 'd open_tx \<Rightarrow> bool" where
  "as_locked L t \<longleftrightarrow>
     list_all (\<lambda>i. \<not> locks_payment t i \<or> same_rows i (ot_snap t) L) (map p_ID (l_payments (ot_snap t)))"

definition tx_ok :: "('d \<Rightarrow> rat) \<Rightarrow> ('d \<Rightarrow> 'd) \<Rightarrow> (time \<Rightarrow> time) \<Rightarrow> 'd ledger \<Rightarrow> 'd open_tx \<Rightarrow> bool" where
  "tx_ok val ka kt L t \<longleftrightarrow>
     ((\<exists>result p. charge_recorded ka kt result p (ot_snap t) (ot_after t) \<and>
         0 < val (p_Amount p) \<and> val (ka (p_Amount p)) = val (p_Amount p)) \<or>
      (\<exists>result p r. refund_recorded val ka kt result p r (ot_snap t) (ot_after t) \<and>
         0 < val (r_Amount r) \<and> val (ka (r_Amount r)) = val (r_Amount r) \<and> locks_payment t (p_ID p))) \<and>
     as_locked L t \<and> distinct (map p_ID (l_payments (ot_snap t)))"

lemma as_lockedD:
  "as_locked L t \<Longrightarrow> locks_payment t i \<Longrightarrow> i \<in> p_ID ` set (l_payments (ot_snap t)) \<Longrightarrow>
     same_rows i (ot_snap t) L"
  by (auto simp: as_locked_def list_all_iff)

lemma commit_step:
  assumes t: "tx_ok val ka kt L t" and ids: "distinct (map p_ID (l_payments L))"
    and unique: "unique_rows (rebase t L)"
  shows "ledger_step val ka kt L (rebase t L)"
    and "\<And>i. i \<in> p_ID ` set (l_payments L) \<Longrightarrow> \<not> locks_payment t i \<Longrightarrow> same_rows i L (rebase t L)"
proof -
  have "ledger_step val ka kt L (rebase t L) \<and> (\<forall>i. i \<in> p_ID ` set (l_payments L) \<longrightarrow>
      \<not> locks_payment t i \<longrightarrow> same_rows i L (rebase t L))"
    using t unfolding tx_ok_def
  proof (elim conjE disjE exE)
    fix result p
    assume rec: "charge_recorded ka kt result p (ot_snap t) (ot_after t)"
      and pos: "0 < val (p_Amount p)" "val (ka (p_Amount p)) = val (p_Amount p)"
    from rebase_charge [OF rec unique] pos charge_same_rows show ?thesis
      by (blast intro: ledger_step.charge)
  next
    fix result p r
    assume rec: "refund_recorded val ka kt result p r (ot_snap t) (ot_after t)"
      and pos: "0 < val (r_Amount r)" "val (ka (r_Amount r)) = val (r_Amount r)"
      and i: "locks_payment t (p_ID p)" "as_locked L t" "distinct (map p_ID (l_payments (ot_snap t)))"
    have "p \<in> set (l_payments (ot_snap t))" using rec by (simp add: refund_recorded_def)
    then have "same_rows (p_ID p) (ot_snap t) L" using as_lockedD [OF i(2,1)] by simp
    note rec' = rebase_refund [OF rec i(3) ids this unique]
    have "same_rows j L (rebase t L)" if "\<not> locks_payment t j" for j
      by (rule refund_same_rows [OF rec']) (use that i(1) in auto)
    with ledger_step.refund [OF pos rec'] show ?thesis by simp
  qed
  then show "ledger_step val ka kt L (rebase t L)"
    "\<And>i. i \<in> p_ID ` set (l_payments L) \<Longrightarrow> \<not> locks_payment t i \<Longrightarrow> same_rows i L (rebase t L)"
    by blast+
qed

abbreviation disjoint_locks :: "'d open_tx \<Rightarrow> 'd open_tx \<Rightarrow> bool" where
  "disjoint_locks t u \<equiv> set (ot_locks t) \<inter> set (ot_locks u) = {}"

lemma tx_ok_other:
  assumes t: "tx_ok val ka kt L t" and ids: "distinct (map p_ID (l_payments L))"
    and unique: "unique_rows (rebase t L)" and u: "tx_ok val ka kt L u" and locks: "disjoint_locks t u"
  shows "tx_ok val ka kt (rebase t L) u"
proof -
  have old: "as_locked L u" using u by (simp add: tx_ok_def)
  have "same_rows i (ot_snap u) (rebase t L)"
    if i: "i \<in> p_ID ` set (l_payments (ot_snap u))" "locks_payment u i" for i
  proof (rule same_rows_trans)
    show same: "same_rows i (ot_snap u) L" by (rule as_lockedD [OF old i(2,1)])
    have "i \<in> p_ID ` set (l_payments L)" using i(1) same by (auto dest: same_rows_payment)
    moreover have "\<not> locks_payment t i" using locks i(2) by (auto simp: locks_payment_def)
    ultimately show "same_rows i L (rebase t L)" by (rule commit_step(2) [OF t ids unique])
  qed
  then have "as_locked (rebase t L) u" by (auto simp: as_locked_def list_all_iff)
  with u show ?thesis by (simp add: tx_ok_def)
qed

definition open_ok :: "('d \<Rightarrow> rat) \<Rightarrow> ('d \<Rightarrow> 'd) \<Rightarrow> (time \<Rightarrow> time) \<Rightarrow> 'd ledger \<Rightarrow> 'd open_tx list \<Rightarrow> bool" where
  "open_ok val ka kt L txs \<longleftrightarrow> list_all (tx_ok val ka kt L) txs \<and> sorted_wrt disjoint_locks txs"

lemma open_ok_commit:
  assumes ok: "open_ok val ka kt L (txs1 @ t # txs2)" and ids: "distinct (map p_ID (l_payments L))"
    and unique: "unique_rows (rebase t L)"
  shows "open_ok val ka kt (rebase t L) (txs1 @ txs2)"
proof -
  have t: "tx_ok val ka kt L t" using ok by (simp add: open_ok_def)
  have "tx_ok val ka kt (rebase t L) u" if "u \<in> set (txs1 @ txs2)" for u
    using ok that
    by (intro tx_ok_other [OF t ids unique]) (auto simp: open_ok_def list_all_iff sorted_wrt_append)
  then show ?thesis using ok by (auto simp: open_ok_def list_all_iff sorted_wrt_append)
qed

lemma open_ok_append:
  "open_ok val ka kt L txs \<Longrightarrow> tx_ok val ka kt L t \<Longrightarrow> granted (ot_locks t) txs \<Longrightarrow>
     open_ok val ka kt L (txs @ [t])"
  by (auto simp: open_ok_def granted_def sorted_wrt_append list_all_iff)

lemma open_ok_rollback: "open_ok val ka kt L (txs1 @ t # txs2) \<Longrightarrow> open_ok val ka kt L (txs1 @ txs2)"
  by (auto simp: open_ok_def sorted_wrt_append)

lemma as_locked_refl: "as_locked L \<lparr>ot_locks = ks, ot_snap = L, ot_after = L'\<rparr>"
  by (simp add: as_locked_def same_rows_refl list_all_iff)

lemma overlapping_ok:
  assumes h: "store.txs.handler_ok E h" and run: "overlapping E h L txs"
  shows "ledger_ok exact_val L \<and> open_ok exact_val pg_amount micros L txs"
  using run
proof (induction rule: overlapping.induct)
  case (start L)
  then show ?case by (simp add: open_ok_def)
next
  case (payment L txs w req w1 name c key now u result q w2)
  have b: "pg_ok (w_db w1)" "pg_ledger (w_db w1) = L"
    using store.txs.begin_ok [folded pg_ledger_def, OF payment(2), of E "()" w1] payment(3,5)
    by (simp_all add: sql_runner_def)
  have a: "amount_ok exact_ops (pq_Amount req)" using validated_payment [OF payment(4)] by (simp add: with_libs_dec)
  have "charge_recorded pg_amount micros result q L (pg_ledger (w_db w2))" "p_Amount q = pq_Amount req"
    using store.txs.persist_charges [folded pg_ledger_def pg_amount_def, OF b(1) payment(6)] b(2)
    by (simp_all add: new_payment_def)
  then have "\<exists>result p. charge_recorded pg_amount micros result p L (pg_ledger (w_db w2)) \<and>
      0 < exact_val (p_Amount p) \<and> exact_val (pg_amount (p_Amount p)) = exact_val (p_Amount p)"
    using store.txs.kept_amount [folded pg_amount_def, OF a]
    by (intro exI [of _ result] exI [of _ q]) simp
  then have "tx_ok exact_val pg_amount micros L (opened (w_db w2) L)"
    using store.txs.view_ids [folded pg_ledger_def, OF payment(2)] payment(3)
    by (simp add: tx_ok_def opened_def as_locked_refl)
  with payment(7,8) show ?case by (auto intro: open_ok_append simp: opened_def)
next
  case (refund L txs w req p g w1 i who c now u r w2)
  have b: "pg_ok (w_db w1)" "pg_ledger (w_db w1) = L"
    using store.txs.begin_ok [folded pg_ledger_def, OF refund(2), of E "()" w1] refund(3,6)
    by (simp_all add: sql_runner_def)
  have a: "amount_ok exact_ops (fq_Amount req)" using validated_refund [OF refund(4)] by (simp add: with_libs_dec)
  have g: "gateway_contract g"
    using router_okD [OF _ refund(5)] h by (simp add: store.txs.handler_ok_def store.txs.svc_ok_def)
  from store.txs.persist_refunds [folded pg_ledger_def pg_amount_def, OF b(1) with_libs_dec g _ _ refund(7)] b(2)
  obtain p' result where p': "p_ID p' = i" and r: "r_Amount r = fq_Amount req"
    and rec: "refund_recorded exact_val pg_amount micros result p' r L (pg_ledger (w_db w2))"
    by (auto simp: new_refund_def)
  have "locks_payment (opened (w_db w2) L) i"
    using persistRefund_locks [OF g refund(7)] by (simp add: locks_payment_def opened_def)
  with p' r rec have "\<exists>result p r. refund_recorded exact_val pg_amount micros result p r L (pg_ledger (w_db w2)) \<and>
      0 < exact_val (r_Amount r) \<and> exact_val (pg_amount (r_Amount r)) = exact_val (r_Amount r) \<and>
      locks_payment (opened (w_db w2) L) (p_ID p)"
    using store.txs.kept_amount [folded pg_amount_def, OF a]
    by (intro exI [of _ result] exI [of _ p'] exI [of _ r]) simp
  then have "tx_ok exact_val pg_amount micros L (opened (w_db w2) L)"
    using store.txs.view_ids [folded pg_ledger_def, OF refund(2)] refund(3)
    by (simp add: tx_ok_def opened_def as_locked_refl)
  with refund(8,9) show ?case by (auto intro: open_ok_append simp: opened_def)
next
  case (commit L txs1 t txs2)
  have ids: "distinct (map p_ID (l_payments L))"
    using commit(3) by (simp add: ledger_ok_def)
  have "tx_ok exact_val pg_amount micros L t" using commit(3) by (simp add: open_ok_def)
  from commit_step(1) [OF this ids commit(2)] open_ok_commit [OF _ ids commit(2)] commit(3)
  show ?case by (blast intro: step_ok)
next
  case (rollback L txs1 t txs2)
  then show ?case by (blast intro: open_ok_rollback)
qed

end
