(* ===== verification/Http_Middleware.thy ===== *)
theory Http_Middleware
  imports Http_Handler
begin

text \<open>
  \<open>go/internal/httpx/middleware.go\<close> and \<open>go/internal/health/health.go\<close>: the security headers,
  the rate limiter per client address with its sweep, the request log entry, and the health
  endpoints.  A token bucket (\<open>golang.org/x/time/rate\<close>) is a library value: its constructor and
  \<open>Allow\<close> are the parameters of the record \<open>rate\<close>.  The mutex of the limiter makes each of its
  operations one step; the sweep is the step its ticker triggers.
\<close>

section \<open>Security headers\<close>

definition securityHeaderXSSProtection :: string where
  "securityHeaderXSSProtection = ''X-XSS-Protection''"
definition securityHeaderFrameOptions :: string where
  "securityHeaderFrameOptions = ''X-Frame-Options''"
definition securityHeaderContentType :: string where
  "securityHeaderContentType = ''X-Content-Type-Options''"
definition securityHeaderCSP :: string where "securityHeaderCSP = ''Content-Security-Policy''"
definition securityHeaderReferrer :: string where "securityHeaderReferrer = ''Referrer-Policy''"
definition securityHeaderHSTS :: string where
  "securityHeaderHSTS = ''Strict-Transport-Security''"
definition securityHeaderPermissions :: string where
  "securityHeaderPermissions = ''Permissions-Policy''"

text \<open>\<open>Header.Set\<close> replaces a value: the header is a map.\<close>

type_synonym header = "string \<rightharpoonup> string"

definition quoted :: "string \<Rightarrow> string" where
  "quoted s = CHR 0x27 # s @ [CHR 0x27]"

definition SecurityHeaders :: "header \<Rightarrow> header" where
  "SecurityHeaders h =
     h(securityHeaderXSSProtection \<mapsto> ''1; mode=block'',
       securityHeaderFrameOptions \<mapsto> ''DENY'',
       securityHeaderContentType \<mapsto> ''nosniff'',
       securityHeaderCSP \<mapsto>
         ''default-src '' @ quoted ''self'' @ ''; script-src '' @ quoted ''self'' @
         ''; style-src '' @ quoted ''self'' @ ''; img-src '' @ quoted ''self'' @
         '' data:; font-src '' @ quoted ''self'' @ ''; frame-ancestors '' @ quoted ''none'' @
         ''; form-action '' @ quoted ''self'',
       securityHeaderReferrer \<mapsto> ''strict-origin-when-cross-origin'',
       securityHeaderHSTS \<mapsto> ''max-age=31536000; includeSubDomains'',
       securityHeaderPermissions \<mapsto> ''geolocation=(), microphone=(), camera=()'')"

section \<open>The rate limiter\<close>

text \<open>\<open>NewLimiter limit burst\<close> and \<open>Allow\<close> at a time, which returns the limiter it leaves.\<close>

record 'l rate =
  rate_NewLimiter :: "int \<Rightarrow> int \<Rightarrow> 'l"
  rate_Allow :: "time \<Rightarrow> 'l \<Rightarrow> bool \<times> 'l"

record 'l limiterEntry =
  le_limiter :: 'l
  le_lastSeen :: time

record 'l limiter =
  lm_enabled :: bool
  lm_limiters :: "string \<rightharpoonup> 'l limiterEntry"
  lm_limit :: int
  lm_burst :: int

text \<open>Durations in nanoseconds.\<close>

definition rateLimiterEntryTTL :: time where "rateLimiterEntryTTL = 10 * 60 * 1000000000"
definition rateLimiterSweepEvery :: time where "rateLimiterSweepEvery = 60 * 1000000000"

definition NewRateLimiter :: "bool \<Rightarrow> int \<Rightarrow> int \<Rightarrow> 'l limiter" where
  "NewRateLimiter enabled perSecond burst =
     \<lparr>lm_enabled = enabled, lm_limiters = Map.empty, lm_limit = perSecond, lm_burst = burst\<rparr>"

definition getLimiter :: "'l rate \<Rightarrow> time \<Rightarrow> string \<Rightarrow> 'l limiter \<Rightarrow> 'l \<times> 'l limiter" where
  "getLimiter R now ip l =
     (let entry = (case lm_limiters l ip of
            None \<Rightarrow> \<lparr>le_limiter = rate_NewLimiter R (lm_limit l) (lm_burst l), le_lastSeen = 0\<rparr>
          | Some e \<Rightarrow> e);
          entry = entry\<lparr>le_lastSeen := now\<rparr>
      in (le_limiter entry, l\<lparr>lm_limiters := (lm_limiters l)(ip \<mapsto> entry)\<rparr>))"

text \<open>\<open>rl.Allow()\<close> changes the limiter the entry points to.\<close>

definition set_limiter :: "string \<Rightarrow> 'l \<Rightarrow> 'l limiter \<Rightarrow> 'l limiter" where
  "set_limiter ip rl l =
     (case lm_limiters l ip of
        None \<Rightarrow> l
      | Some e \<Rightarrow> l\<lparr>lm_limiters := (lm_limiters l)(ip \<mapsto> e\<lparr>le_limiter := rl\<rparr>)\<rparr>)"

text \<open>Whether a request is let through; health and metrics paths and a disabled limiter always are.
  \<open>getLimiter\<close> reads the clock (\<open>seen\<close>), and \<open>Allow\<close> reads it again (\<open>now\<close>).\<close>

definition bypasses :: "string \<Rightarrow> 'l limiter \<Rightarrow> bool" where
  "bypasses full_path l \<longleftrightarrow> \<not> lm_enabled l \<or> HasPrefix full_path ''/actuator/''"

definition admit :: "'l rate \<Rightarrow> time \<Rightarrow> time \<Rightarrow> string \<Rightarrow> string \<Rightarrow> 'l limiter \<Rightarrow> bool \<times> 'l limiter" where
  "admit R seen now full_path ip l =
     (if bypasses full_path l then (True, l)
      else case getLimiter R seen ip l of
             (rl, l1) \<Rightarrow>
               (case rate_Allow R now rl of
                  (allowed, rl') \<Rightarrow> (allowed, set_limiter ip rl' l1)))"

definition limit_exceeded :: "string \<Rightarrow> 'd response" where
  "limit_exceeded ip =
     c_JSON 429 (ErrorBody ''RATE_LIMIT_EXCEEDED'' (''rate limit exceeded for '' @ ip))"

text \<open>The middleware: \<open>Inl\<close> an aborting response, \<open>Inr ()\<close> for \<open>c.Next()\<close>.\<close>

definition rate_limit :: "'l rate \<Rightarrow> time \<Rightarrow> time \<Rightarrow> string \<Rightarrow> string \<Rightarrow> 'l limiter \<Rightarrow>
    ('d response + unit) \<times> 'l limiter" where
  "rate_limit R seen now full_path ip l =
     (case admit R seen now full_path ip l of
        (allowed, l') \<Rightarrow> (if allowed then Inr () else Inl (limit_exceeded ip), l'))"

definition sweep :: "time \<Rightarrow> 'l limiter \<Rightarrow> 'l limiter" where
  "sweep now l =
     (let cutoff = now - rateLimiterEntryTTL
      in l\<lparr>lm_limiters := (\<lambda>ip. case lm_limiters l ip of
             None \<Rightarrow> None
           | Some e \<Rightarrow> if le_lastSeen e < cutoff then None else Some e)\<rparr>)"

text \<open>What can happen to the limiter: a request of a client, or the sweep.\<close>

inductive limiter_step :: "'l rate \<Rightarrow> 'l limiter \<Rightarrow> 'l limiter \<Rightarrow> bool" for R where
  request: "admit R seen now full_path ip l = (allowed, l') \<Longrightarrow> limiter_step R l l'"
| swept: "limiter_step R l (sweep now l)"

inductive_cases limiter_stepE: "limiter_step R l l'"

section \<open>Health\<close>

datatype health_body = HealthStatus string | AppInfo string

text \<open>\<open>h_DB\<close> is the pool, if there is one.\<close>

definition health_ok :: "int \<times> health_body" where
  "health_ok = (StatusOK, HealthStatus ''UP'')"

definition health_info :: "int \<times> health_body" where
  "health_info = (StatusOK, AppInfo ''payment-service'')"

definition readiness :: "('db, 'x, unit) go option \<Rightarrow> ('db, 'x) world \<Rightarrow>
    (int \<times> health_body) \<times> ('db, 'x) world" where
  "readiness db w =
     (case db of
        None \<Rightarrow> ((503, HealthStatus ''DOWN''), w)
      | Some ping \<Rightarrow>
          (case ping w of
             (Inl err, w') \<Rightarrow> ((503, HealthStatus ''DOWN''), w')
           | (Inr _, w') \<Rightarrow> ((StatusOK, HealthStatus ''UP''), w')))"

datatype health_endpoint = HE_ok | HE_readiness | HE_info

definition health_Register :: "(string \<times> string \<times> health_endpoint) list" where
  "health_Register =
     [(''GET'', ''/actuator/health'', HE_ok), (''GET'', ''/actuator/health/liveness'', HE_ok),
      (''GET'', ''/actuator/health/readiness'', HE_readiness),
      (''GET'', ''/actuator/info'', HE_info)]"

section \<open>Lemmas\<close>

lemma getLimiter_lookup:
  "getLimiter R now ip l = (rl, l') \<Longrightarrow>
     lm_limiters l' ip = Some \<lparr>le_limiter = rl, le_lastSeen = now\<rparr> \<and>
     (\<forall>other. other \<noteq> ip \<longrightarrow> lm_limiters l' other = lm_limiters l other) \<and>
     rl = (case lm_limiters l ip of None \<Rightarrow> rate_NewLimiter R (lm_limit l) (lm_burst l)
           | Some e \<Rightarrow> le_limiter e)"
  by (auto simp: getLimiter_def Let_def split: option.splits)

lemma admit_other:
  "admit R seen now full_path ip l = (allowed, l') \<Longrightarrow> other \<noteq> ip \<Longrightarrow>
     lm_limiters l' other = lm_limiters l other"
  by (auto simp: admit_def bypasses_def set_limiter_def dest: getLimiter_lookup
      split: if_splits prod.splits option.splits)

lemma admit_params:
  "admit R seen now full_path ip l = (allowed, l') \<Longrightarrow>
     lm_limit l' = lm_limit l \<and> lm_burst l' = lm_burst l \<and> lm_enabled l' = lm_enabled l"
  by (auto simp: admit_def bypasses_def set_limiter_def getLimiter_def Let_def
      split: if_splits prod.splits option.splits)

lemma step_params:
  "limiter_step R l l' \<Longrightarrow> lm_limit l' = lm_limit l \<and> lm_burst l' = lm_burst l"
  by (erule limiter_stepE) (auto dest: admit_params simp: sweep_def Let_def)

text \<open>A client's entry is only touched by its own requests, and swept only when idle.\<close>

lemma sweep_keeps:
  "lm_limiters l ip = Some e \<Longrightarrow> now - rateLimiterEntryTTL \<le> le_lastSeen e \<Longrightarrow>
     lm_limiters (sweep now l) ip = Some e"
  by (simp add: sweep_def Let_def)

lemma sweep_idle:
  "lm_limiters (sweep now l) ip = Some e \<Longrightarrow>
     lm_limiters l ip = Some e \<and> now - rateLimiterEntryTTL \<le> le_lastSeen e"
  by (auto simp: sweep_def Let_def split: option.splits if_splits)

lemma admit_spends:
  assumes "admit R seen now full_path ip l = (allowed, l')" "lm_enabled l"
    and "\<not> HasPrefix full_path ''/actuator/''"
  shows "\<exists>rl. rate_Allow R now (case lm_limiters l ip of
           None \<Rightarrow> rate_NewLimiter R (lm_limit l) (lm_burst l) | Some e \<Rightarrow> le_limiter e) =
         (allowed, rl) \<and>
       lm_limiters l' ip = Some \<lparr>le_limiter = rl, le_lastSeen = seen\<rparr>"
proof -
  obtain rl l1 where g: "getLimiter R seen ip l = (rl, l1)" by fastforce
  obtain a rl' where al: "rate_Allow R now rl = (a, rl')" by fastforce
  from assms g al have "allowed = a" "l' = set_limiter ip rl' l1" by (simp_all add: admit_def bypasses_def)
  with getLimiter_lookup [OF g] al show ?thesis by (auto simp: set_limiter_def)
qed

section \<open>Clients do not limit each other\<close>

text \<open>A run of requests, each at a time, on a path, from an address.\<close>

fun admit_all :: "'l rate \<Rightarrow> (time \<times> time \<times> string \<times> string) list \<Rightarrow> 'l limiter \<Rightarrow> 'l limiter" where
  "admit_all R [] l = l"
| "admit_all R ((seen, now, full_path, ip) # rs) l = admit_all R rs (snd (admit R seen now full_path ip l))"

lemma admit_all_other:
  "list_all (\<lambda>(seen, now, full_path, other). other \<noteq> ip) rs \<Longrightarrow>
     lm_limiters (admit_all R rs l) ip = lm_limiters l ip \<and>
     lm_limit (admit_all R rs l) = lm_limit l \<and> lm_burst (admit_all R rs l) = lm_burst l \<and>
     lm_enabled (admit_all R rs l) = lm_enabled l"
proof (induction R rs l rule: admit_all.induct)
  case (2 R seen now full_path other rs l)
  obtain allowed l' where a: "admit R seen now full_path other l = (allowed, l')" by fastforce
  from 2(2) have "ip \<noteq> other" by auto
  with a 2 admit_other [OF a, of ip] admit_params [OF a] show ?case by simp
qed simp

lemma admit_cong:
  assumes "lm_limiters l ip = lm_limiters m ip" "lm_limit l = lm_limit m" "lm_burst l = lm_burst m"
    and "lm_enabled l = lm_enabled m"
  shows "fst (admit R seen now full_path ip l) = fst (admit R seen now full_path ip m)"
  using assms by (cases "lm_limiters m ip") (simp_all add: admit_def bypasses_def getLimiter_def Let_def case_prod_beta)

text \<open>
  C39.  Whether a request is let through does not depend on what other clients have sent before
  it, however much that is.
\<close>

theorem clients_limited_separately:
  assumes "list_all (\<lambda>(seen, now, full_path, other). other \<noteq> ip) rs"
  shows "fst (admit R seen now full_path ip (admit_all R rs l)) = fst (admit R seen now full_path ip l)"
  using admit_all_other [OF assms, of R l] by (intro admit_cong) simp_all

theorem clients_limited_separately_witness:
  "fst (admit \<lparr>rate_NewLimiter = (\<lambda>limit burst. burst), rate_Allow = (\<lambda>now n. (0 < n, n - 1))\<rparr> 7 7 ''/api''
     ''10.0.0.1'' (admit_all \<lparr>rate_NewLimiter = (\<lambda>limit burst. burst),
       rate_Allow = (\<lambda>now n. (0 < n, n - 1))\<rparr> [(1, 1, ''/api'', ''10.0.0.2''), (2, 3, ''/api'', ''10.0.0.2'')]
       (NewRateLimiter True 1 1))) = True"
  by (subst clients_limited_separately)
    (simp_all add: admit_def bypasses_def getLimiter_def NewRateLimiter_def HasPrefix_def set_limiter_def)

text \<open>
  C40.  The sweep only forgets clients that have sent nothing for ten minutes: after it, a client
  seen since is limited as before.
\<close>

theorem sweep_spares_recent_clients:
  assumes "lm_limiters l ip = Some e" and "now - le_lastSeen e \<le> 600000000000"
  shows "fst (admit R seen later full_path ip (sweep now l)) = fst (admit R seen later full_path ip l)"
proof (rule admit_cong)
  have "now - rateLimiterEntryTTL \<le> le_lastSeen e"
    using assms(2) by (simp add: rateLimiterEntryTTL_def)
  with assms(1) show "lm_limiters (sweep now l) ip = lm_limiters l ip" by (simp add: sweep_keeps)
qed (simp_all add: sweep_def Let_def)

theorem sweep_spares_recent_clients_witness:
  "fst (admit \<lparr>rate_NewLimiter = (\<lambda>limit burst. burst), rate_Allow = (\<lambda>now n. (0 < n, n - 1))\<rparr>
       700000000000 700000000000 ''/api'' ''10.0.0.1''
       (sweep 650000000000 ((NewRateLimiter True 1 1)\<lparr>lm_limiters :=
          [''10.0.0.1'' \<mapsto> \<lparr>le_limiter = (0 :: int), le_lastSeen = 100000000000\<rparr>]\<rparr>))) =
     fst (admit \<lparr>rate_NewLimiter = (\<lambda>limit burst. burst), rate_Allow = (\<lambda>now n. (0 < n, n - 1))\<rparr>
       700000000000 700000000000 ''/api'' ''10.0.0.1'' ((NewRateLimiter True 1 1)\<lparr>lm_limiters :=
          [''10.0.0.1'' \<mapsto> \<lparr>le_limiter = (0 :: int), le_lastSeen = 100000000000\<rparr>]\<rparr>))"
  by (rule sweep_spares_recent_clients [where e =
        "\<lparr>le_limiter = (0 :: int), le_lastSeen = 100000000000\<rparr>"]) simp_all

end
