(* ===== verification/Engine.thy ===== *)
theory Engine
  imports Sample_Ledger Http_Middleware
begin

text \<open>
  The gin engine that \<open>go/cmd/server/main.go\<close> builds, with \<open>RequestLogger\<close> of
  \<open>go/internal/httpx/middleware.go\<close>: every request passes \<open>SecurityHeaders\<close>, \<open>RequestLogger\<close> and the
  rate limiter, in this order, before its handler.  gin is a library: for a request it has found
  the pattern of the route that matches (none for an unknown path), the address of the client and,
  when no route matches but one does with or without a trailing slash, where to redirect to; the
  redirect passes by the middleware.  \<open>gin.Recovery\<close> passes requests on, there being no panics.  The
  metrics page is that of the Prometheus library, a parameter.  So are the parts of zap: the names of
  its levels, whether a logger can be built, and which of the entries with the same message it keeps
  (the production configuration keeps the first hundred of a second and then every hundredth).
\<close>

section \<open>State, requests and responses\<close>

record log_entry =
  lg_method :: string
  lg_path :: string
  lg_status :: int
  lg_duration :: time
  lg_client_ip :: string
  lg_errors :: "go_error list"

text \<open>The limiter, the log with the number of entries the logger has seen, and the world of the handlers.\<close>

record ('l, 'db, 'x) engine_state =
  es_limiter :: "'l limiter"
  es_log :: "log_entry list"
  es_seen :: nat
  es_world :: "('db, 'x) world"

record http_request =
  hr_Method :: string
  hr_Path :: string
  hr_Pattern :: string
  hr_Redirect :: "string option"
  hr_ClientIP :: string
  hr_Context :: gin_context

datatype 'd page =
    ApiPage "'d body"
  | HealthPage health_body
  | MetricsPage string
  | NotFoundPage
  | RedirectPage

record 'd http_response =
  hs_Status :: int
  hs_Header :: header
  hs_Body :: "'d page"
  hs_Errors :: "go_error list"

text \<open>A handler or middleware chain: it is given the header written so far.\<close>

type_synonym ('l, 'd, 'db, 'x) chain =
  "header \<Rightarrow> ('l, 'db, 'x) engine_state \<Rightarrow> 'd http_response \<times> ('l, 'db, 'x) engine_state"

section \<open>Routes\<close>

datatype route = R_health health_endpoint | R_prometheus | R_payment endpoint

definition engine_routes :: "((string \<times> string) \<times> route) list" where
  "engine_routes =
     map (\<lambda>(method, pattern, he). ((method, pattern), R_health he)) health_Register @
     [((''GET'', ''/actuator/prometheus''), R_prometheus)] @
     map (\<lambda>(method, pattern, ep). ((method, pattern), R_payment ep)) h_Register"

definition route_of :: "http_request \<Rightarrow> route option" where
  "route_of rq = map_of engine_routes (hr_Method rq, hr_Pattern rq)"

definition c_FullPath :: "http_request \<Rightarrow> string" where
  "c_FullPath rq = (case route_of rq of None \<Rightarrow> [] | Some _ \<Rightarrow> hr_Pattern rq)"

text \<open>Where gin redirects a request to, if it does.\<close>

definition redirect_of :: "http_request \<Rightarrow> string option" where
  "redirect_of rq = (if route_of rq = None then hr_Redirect rq else None)"

text \<open>What a handler of the service, a health endpoint, and gin for an unknown path write.\<close>

definition api_response :: "header \<Rightarrow> 'd response \<Rightarrow> 'd http_response" where
  "api_response hdr r =
     \<lparr>hs_Status = rp_Status r, hs_Header = hdr ++ map_of (rev (rp_Headers r)),
      hs_Body = ApiPage (rp_Body r), hs_Errors = rp_Errors r\<rparr>"

definition page_response :: "header \<Rightarrow> int \<Rightarrow> 'd page \<Rightarrow> 'd http_response" where
  "page_response hdr status page =
     \<lparr>hs_Status = status, hs_Header = hdr, hs_Body = page, hs_Errors = []\<rparr>"

definition redirect_response :: "http_request \<Rightarrow> string \<Rightarrow> 'd http_response" where
  "redirect_response rq location =
     page_response [''Location'' \<mapsto> location] (if hr_Method rq = ''GET'' then 301 else 307) RedirectPage"

fun serve_health :: "('db, 'x) pool \<Rightarrow> health_endpoint \<Rightarrow> ('db, 'x) world \<Rightarrow>
    (int \<times> health_body) \<times> ('db, 'x) world" where
  "serve_health db HE_ok w = (health_ok, w)"
| "serve_health db HE_readiness w = readiness (Some (pool_Ping db)) w"
| "serve_health db HE_info w = (health_info, w)"

definition dispatch :: "'d env \<Rightarrow> 'd gin \<Rightarrow> (('db, 'x) world \<Rightarrow> string) \<Rightarrow> ('d, 'db, 'x) handler \<Rightarrow>
    ('db, 'x) pool \<Rightarrow> http_request \<Rightarrow> ('l, 'd, 'db, 'x) chain" where
  "dispatch E G metrics h db rq hdr s =
     (case route_of rq of
        None \<Rightarrow> (page_response hdr 404 NotFoundPage, s)
      | Some (R_health he) \<Rightarrow>
          (case serve_health db he (es_world s) of
             ((status, b), w) \<Rightarrow> (page_response hdr status (HealthPage b), s\<lparr>es_world := w\<rparr>))
      | Some R_prometheus \<Rightarrow> (page_response hdr StatusOK (MetricsPage (metrics (es_world s))), s)
      | Some (R_payment ep) \<Rightarrow>
          (case serve E G h ep (hr_Context rq) (es_world s) of
             (r, w) \<Rightarrow> (api_response hdr r, s\<lparr>es_world := w\<rparr>)))"

section \<open>Middleware\<close>

definition clock :: "'d env \<Rightarrow> ('l, 'db, 'x) engine_state \<Rightarrow> time \<times> ('l, 'db, 'x) engine_state" where
  "clock E s = with_now E (\<lambda>now w. (now, s\<lparr>es_world := w\<rparr>)) (es_world s)"

definition with_headers :: "('l, 'd, 'db, 'x) chain \<Rightarrow> ('l, 'd, 'db, 'x) chain" where
  "with_headers next_chain hdr = next_chain (SecurityHeaders hdr)"

text \<open>What \<open>newLogger\<close> takes from zap: \<open>zapcore.ParseLevel\<close>, and \<open>Build\<close> of the production
  configuration with a level, which may fail.  The logger that is built writes the entries at or above its
  level; of those with the same message its sampling keeps some, told by their number.\<close>

record logger =
  lg_Level :: int
  lg_Sampled :: "nat \<Rightarrow> bool"

record zap =
  zap_ParseLevel :: "string \<Rightarrow> int option"
  zap_Build :: "int \<Rightarrow> go_error + (nat \<Rightarrow> bool)"

definition InfoLevel :: int where "InfoLevel = 0"

text \<open>\<open>newLogger\<close>: the level of the configuration, or \<open>InfoLevel\<close> when it is none of zap's; a logger
  that cannot be built is a panic, \<open>Inl\<close>.\<close>

definition newLogger :: "'d env \<Rightarrow> zap \<Rightarrow> string \<Rightarrow> go_error + logger" where
  "newLogger E Z level =
     (let parsed = (case zap_ParseLevel Z (ToLower (E_lower E) level) of None \<Rightarrow> InfoLevel | Some l \<Rightarrow> l)
      in case zap_Build Z parsed of
           Inl buildErr \<Rightarrow> Inl buildErr
         | Inr sampled \<Rightarrow> Inr \<lparr>lg_Level = parsed, lg_Sampled = sampled\<rparr>)"

definition log_info :: "logger \<Rightarrow> log_entry \<Rightarrow> ('l, 'db, 'x) engine_state \<Rightarrow> ('l, 'db, 'x) engine_state"
  where
  "log_info logger entry s =
     (if lg_Level logger \<le> InfoLevel
      then s\<lparr>es_log := es_log s @ (if lg_Sampled logger (es_seen s) then [entry] else []),
             es_seen := Suc (es_seen s)\<rparr>
      else s)"

definition RequestLogger :: "'d env \<Rightarrow> logger \<Rightarrow> http_request \<Rightarrow> ('l, 'd, 'db, 'x) chain \<Rightarrow>
    ('l, 'd, 'db, 'x) chain" where
  "RequestLogger E logger rq next_chain hdr s =
     (case clock E s of (start, s1) \<Rightarrow>
        (case next_chain hdr s1 of (resp, s2) \<Rightarrow>
           (case clock E s2 of (now, s3) \<Rightarrow>
              (resp, log_info logger
                 \<lparr>lg_method = hr_Method rq, lg_path = hr_Path rq, lg_status = hs_Status resp,
                  lg_duration = now - start, lg_client_ip = hr_ClientIP rq,
                  lg_errors = hs_Errors resp\<rparr> s3))))"

definition RateLimiter :: "'d env \<Rightarrow> 'l rate \<Rightarrow> http_request \<Rightarrow> ('l, 'd, 'db, 'x) chain \<Rightarrow>
    ('l, 'd, 'db, 'x) chain" where
  "RateLimiter E R rq next_chain hdr s =
     (if bypasses (c_FullPath rq) (es_limiter s) then next_chain hdr s
      else case clock E s of (seen, s1) \<Rightarrow>
        (case clock E s1 of (now, s2) \<Rightarrow>
           (case rate_limit R seen now (c_FullPath rq) (hr_ClientIP rq) (es_limiter s2) of
              (Inl resp, l) \<Rightarrow> (api_response hdr resp, s2\<lparr>es_limiter := l\<rparr>)
            | (Inr _, l) \<Rightarrow> next_chain hdr (s2\<lparr>es_limiter := l\<rparr>))))"

section \<open>The engine\<close>

text \<open>The parts \<open>main\<close> puts together, besides the configuration.\<close>

record ('l, 'd, 'db, 'x) engine =
  en_logger :: logger
  en_rate :: "'l rate"
  en_gin :: "'d gin"
  en_metrics :: "('db, 'x) world \<Rightarrow> string"
  en_handler :: "('d, 'db, 'x) handler"
  en_db :: "('db, 'x) pool"

definition handle :: "'d env \<Rightarrow> ('l, 'd, 'db, 'x) engine \<Rightarrow> http_request \<Rightarrow>
    ('l, 'db, 'x) engine_state \<Rightarrow> 'd http_response \<times> ('l, 'db, 'x) engine_state" where
  "handle E N rq s =
     (case redirect_of rq of
        Some location \<Rightarrow> (redirect_response rq location, s)
      | None \<Rightarrow>
          with_headers (RequestLogger E (en_logger N) rq
            (RateLimiter E (en_rate N) rq
              (dispatch E (en_gin N) (en_metrics N) (en_handler N) (en_db N) rq))) Map.empty s)"

text \<open>\<open>main\<close>: the engine of a configuration, and the state it starts with.\<close>

definition main_engine :: "'d env \<Rightarrow> 'x stripe_api \<Rightarrow> logger \<Rightarrow> 'l rate \<Rightarrow> 'd gin \<Rightarrow>
    (('db, 'x) world \<Rightarrow> string) \<Rightarrow> config \<Rightarrow> ('db, 'x) pool \<Rightarrow> ('l, 'd, 'db, 'x) engine" where
  "main_engine E api logger R G metrics cfg db =
     \<lparr>en_logger = logger, en_rate = R, en_gin = G,
      en_metrics = metrics, en_handler = server_handler E api cfg db, en_db = db\<rparr>"

definition main_state :: "config \<Rightarrow> ('db, 'x) world \<Rightarrow> ('l, 'db, 'x) engine_state" where
  "main_state cfg w =
     \<lparr>es_limiter = NewRateLimiter (RateLimitEnabled cfg) (RateLimitPerSecond cfg) (RateLimitBurst cfg),
      es_log = [], es_seen = 0, es_world = w\<rparr>"

text \<open>What happens to the engine: a request arrives, or the sweep's ticker fires, which it only has
  when the limiter is enabled.\<close>

datatype event = Arrives http_request | Ticks

fun run_engine :: "'d env \<Rightarrow> ('l, 'd, 'db, 'x) engine \<Rightarrow> event list \<Rightarrow> ('l, 'db, 'x) engine_state \<Rightarrow>
    (http_request \<times> 'd http_response) list \<times> ('l, 'db, 'x) engine_state" where
  "run_engine E N [] s = ([], s)"
| "run_engine E N (Arrives rq # evs) s =
     (case handle E N rq s of
        (resp, s1) \<Rightarrow> (case run_engine E N evs s1 of (out, s2) \<Rightarrow> ((rq, resp) # out, s2)))"
| "run_engine E N (Ticks # evs) s =
     (if lm_enabled (es_limiter s)
      then case clock E s of (now, s1) \<Rightarrow>
        run_engine E N evs (s1\<lparr>es_limiter := sweep now (es_limiter s1)\<rparr>)
      else run_engine E N evs s)"

section \<open>The chain\<close>

lemma clock_eq:
  "clock E s = (E_now E (w_clk (es_world s)),
     s\<lparr>es_world := (es_world s)\<lparr>w_clk := Suc (w_clk (es_world s))\<rparr>\<rparr>)"
  by (simp add: clock_def with_now_def)

text \<open>Only the clock has been read.\<close>

definition only_clock :: "('db, 'x) world_rel" where
  "only_clock w w' \<longleftrightarrow> w' = w\<lparr>w_clk := w_clk w'\<rparr>"

lemma only_clock_keeps: "only_clock w w' \<Longrightarrow> w_db w' = w_db w \<and> quiet w w' \<and> w_ids w' = w_ids w"
  by (cases w; cases w') (auto simp: only_clock_def quiet_def)

lemma only_clock_I [simp]: "only_clock w (w\<lparr>w_clk := n\<rparr>)" "only_clock w w"
  by (simp_all add: only_clock_def)

lemma only_clock_trans: "only_clock u v \<Longrightarrow> only_clock v w \<Longrightarrow> only_clock u w"
  by (cases u; cases v; cases w) (auto simp: only_clock_def)

lemma only_clock_update: "only_clock u v \<Longrightarrow> only_clock u (v\<lparr>w_clk := n\<rparr>)"
  by (erule only_clock_trans) simp

lemma dispatch_log:
  "dispatch E G metrics h db rq hdr s = (resp, s') \<Longrightarrow>
     es_log s' = es_log s \<and> es_seen s' = es_seen s \<and> es_limiter s' = es_limiter s"
  by (auto simp: dispatch_def split: option.splits route.splits prod.splits)

lemma serve_sets_correlation:
  "serve E G h ep c w = (r, w') \<Longrightarrow> set (rp_Headers r) \<subseteq> {''X-Correlation-ID''} \<times> UNIV"
  by (cases ep)
    (auto simp: h_processPayment_def h_getPayment_def h_getPayments_def h_getPaymentByOrder_def
      h_getPaymentsByCustomer_def h_getRefundsForPayment_def h_refundPayment_def with_payment_id_def
      or_abort_def payment_answer_def payments_answer_def c_JSON_def abortWithError_def Let_def
      split: prod.splits sum.splits option.splits if_splits)

lemma header_kept:
  assumes "set hs \<subseteq> {k} \<times> UNIV" and "k \<notin> dom hdr"
  shows "hdr \<subseteq>\<^sub>m hdr ++ map_of (rev hs)"
proof -
  have "map_of (rev hs) x = None" if "x \<in> dom hdr" for x
    using assms that by (auto simp: map_of_eq_None_iff)
  then show ?thesis by (auto simp: map_le_def map_add_def)
qed

lemma api_response_simps [simp]:
  "hs_Status (api_response hdr r) = rp_Status r" "hs_Errors (api_response hdr r) = rp_Errors r"
  "hs_Header (api_response hdr r) = hdr ++ map_of (rev (rp_Headers r))"
  "hs_Body (api_response hdr r) = ApiPage (rp_Body r)"
  by (simp_all add: api_response_def)

lemma dispatch_header:
  assumes "dispatch E G metrics h db rq hdr s = (resp, s')" and "''X-Correlation-ID'' \<notin> dom hdr"
  shows "hdr \<subseteq>\<^sub>m hs_Header resp"
  using assms
  by (auto simp: dispatch_def page_response_def dest!: serve_sets_correlation intro!: header_kept
      split: option.splits route.splits prod.splits)

text \<open>Whether the limiter lets a request through that reaches it now.\<close>

definition admitted :: "'d env \<Rightarrow> 'l rate \<Rightarrow> http_request \<Rightarrow> ('l, 'db, 'x) engine_state \<Rightarrow> bool" where
  "admitted E R rq s =
     fst (admit R (E_now E (w_clk (es_world s))) (E_now E (Suc (w_clk (es_world s))))
       (c_FullPath rq) (hr_ClientIP rq) (es_limiter s))"

lemma RateLimiter_outcome:
  assumes "RateLimiter E R rq next_chain hdr s = (resp, s')"
  shows "if admitted E R rq s
    then \<exists>s1. only_clock (es_world s) (es_world s1) \<and> es_log s1 = es_log s \<and>
      es_seen s1 = es_seen s \<and> next_chain hdr s1 = (resp, s')
    else resp = api_response hdr (limit_exceeded (hr_ClientIP rq)) \<and>
      only_clock (es_world s) (es_world s') \<and> es_log s' = es_log s \<and> es_seen s' = es_seen s"
proof (cases "bypasses (c_FullPath rq) (es_limiter s)")
  case True
  with assms have "admitted E R rq s" "next_chain hdr s = (resp, s')"
    by (simp_all add: admitted_def admit_def RateLimiter_def)
  then show ?thesis by (auto intro: exI [of _ s])
next
  case False
  obtain ok l where adm: "admit R (E_now E (w_clk (es_world s))) (E_now E (Suc (w_clk (es_world s))))
      (c_FullPath rq) (hr_ClientIP rq) (es_limiter s) = (ok, l)" by fastforce
  let ?s = "s\<lparr>es_world := (es_world s)\<lparr>w_clk := Suc (Suc (w_clk (es_world s)))\<rparr>, es_limiter := l\<rparr>"
  have "(resp, s') = (if ok then next_chain hdr ?s
      else (api_response hdr (limit_exceeded (hr_ClientIP rq)), ?s))"
    using assms adm False by (cases ok) (simp_all add: RateLimiter_def clock_eq rate_limit_def)
  moreover have "admitted E R rq s = ok" using adm by (simp add: admitted_def)
  ultimately show ?thesis by (auto intro!: exI [of _ ?s])
qed

definition entry_of :: "http_request \<Rightarrow> 'd http_response \<Rightarrow> time \<Rightarrow> log_entry" where
  "entry_of rq resp d = \<lparr>lg_method = hr_Method rq, lg_path = hr_Path rq, lg_status = hs_Status resp,
     lg_duration = d, lg_client_ip = hr_ClientIP rq, lg_errors = hs_Errors resp\<rparr>"

text \<open>When a request has reached the limiter, the logger has read the clock once.\<close>

abbreviation at_limiter :: "('l, 'db, 'x) engine_state \<Rightarrow> ('l, 'db, 'x) engine_state" where
  "at_limiter s \<equiv> s\<lparr>es_world := (es_world s)\<lparr>w_clk := Suc (w_clk (es_world s))\<rparr>\<rparr>"

text \<open>The logger has been given an entry.\<close>

definition logged :: "logger \<Rightarrow> log_entry \<Rightarrow> ('l, 'db, 'x) engine_state \<Rightarrow> ('l, 'db, 'x) engine_state \<Rightarrow>
    bool" where
  "logged logger e s s' \<longleftrightarrow>
     (es_log s', es_seen s') = (if lg_Level logger \<le> InfoLevel
        then (es_log s @ (if lg_Sampled logger (es_seen s) then [e] else []), Suc (es_seen s))
        else (es_log s, es_seen s))"

lemma handle_outcome:
  fixes s :: "('l, 'db, 'x) engine_state"
  assumes "handle E N rq s = (resp, s')" and here: "redirect_of rq = None"
  shows "(\<exists>d. logged (en_logger N) (entry_of rq resp d) s s') \<and>
    (if admitted E (en_rate N) rq (at_limiter s)
     then \<exists>s1 s2 :: ('l, 'db, 'x) engine_state. only_clock (es_world s) (es_world s1) \<and> only_clock (es_world s2) (es_world s') \<and>
       dispatch E (en_gin N) (en_metrics N) (en_handler N) (en_db N) rq (SecurityHeaders Map.empty) s1 =
         (resp, s2)
     else resp = api_response (SecurityHeaders Map.empty) (limit_exceeded (hr_ClientIP rq)) \<and>
       only_clock (es_world s) (es_world s'))"
proof -
  obtain s2 where limiter: "RateLimiter E (en_rate N) rq
      (dispatch E (en_gin N) (en_metrics N) (en_handler N) (en_db N) rq)
      (SecurityHeaders Map.empty) (at_limiter s) = (resp, s2)"
    and s': "s' = log_info (en_logger N)
      (entry_of rq resp (E_now E (w_clk (es_world s2)) - E_now E (w_clk (es_world s)))) (at_limiter s2)"
    using assms
    by (auto simp: handle_def with_headers_def RequestLogger_def clock_eq entry_of_def split: prod.splits)
  have log: "\<exists>d. logged (en_logger N) (entry_of rq resp d) s s'"
    if "es_log s2 = es_log s" "es_seen s2 = es_seen s"
    using that by (auto simp: s' log_info_def logged_def)
  have w': "es_world s' = (es_world s2)\<lparr>w_clk := Suc (w_clk (es_world s2))\<rparr>"
    by (simp add: s' log_info_def)
  have start: "only_clock (es_world s) (es_world s1)" if "only_clock (es_world (at_limiter s)) (es_world s1)"
    for s1 :: "('l, 'db, 'x) engine_state" using that by (intro only_clock_trans [OF _ that]) simp
  show ?thesis
  proof (cases "admitted E (en_rate N) rq (at_limiter s)")
    case True
    with RateLimiter_outcome [OF limiter] obtain s1 where
      s1: "only_clock (es_world (at_limiter s)) (es_world s1)" "es_log s1 = es_log s" "es_seen s1 = es_seen s"
      and d: "dispatch E (en_gin N) (en_metrics N) (en_handler N) (en_db N) rq
        (SecurityHeaders Map.empty) s1 = (resp, s2)" by auto
    have "only_clock (es_world s2) (es_world s')" by (simp add: w')
    with d start [OF s1(1)] log dispatch_log [OF d] s1(2,3) True show ?thesis by auto
  next
    case False
    with RateLimiter_outcome [OF limiter] have "resp = api_response (SecurityHeaders Map.empty)
        (limit_exceeded (hr_ClientIP rq))" "only_clock (es_world (at_limiter s)) (es_world s2)"
      "es_log s2 = es_log s" "es_seen s2 = es_seen s" by auto
    with log start w' False show ?thesis by (auto intro: only_clock_update)
  qed
qed

lemma handle_redirects:
  "redirect_of rq = Some location \<Longrightarrow> handle E N rq s = (redirect_response rq location, s)"
  by (simp add: handle_def)

section \<open>Answers and log\<close>

lemma limit_exceeded_simps [simp]:
  "rp_Status (limit_exceeded ip) = 429" "rp_Headers (limit_exceeded ip) = []"
  by (simp_all add: limit_exceeded_def c_JSON_def)

lemma correlation_not_protected: "''X-Correlation-ID'' \<notin> dom (SecurityHeaders Map.empty)"
  by (simp add: SecurityHeaders_def securityHeaderXSSProtection_def securityHeaderFrameOptions_def
      securityHeaderContentType_def securityHeaderCSP_def securityHeaderReferrer_def
      securityHeaderHSTS_def securityHeaderPermissions_def)

lemma handle_protects:
  assumes "handle E N rq s = (resp, s')" and "redirect_of rq = None"
  shows "SecurityHeaders Map.empty \<subseteq>\<^sub>m hs_Header resp"
  using handle_outcome [OF assms] dispatch_header [OF _ correlation_not_protected]
  by (auto split: if_splits)

fun arrivals :: "event list \<Rightarrow> http_request list" where
  "arrivals [] = []"
| "arrivals (Arrives rq # evs) = rq # arrivals evs"
| "arrivals (Ticks # evs) = arrivals evs"

text \<open>An entry without its duration.\<close>

definition untimed :: "log_entry \<Rightarrow> log_entry" where
  "untimed e = e\<lparr>lg_duration := 0\<rparr>"

text \<open>The entries a logger keeps, when it has seen a number of entries before.\<close>

fun kept_entries :: "(nat \<Rightarrow> bool) \<Rightarrow> nat \<Rightarrow> 'a list \<Rightarrow> 'a list" where
  "kept_entries keep n [] = []"
| "kept_entries keep n (e # es) = (if keep n then [e] else []) @ kept_entries keep (Suc n) es"

text \<open>The request a redirect answers is sent elsewhere; any other answer carries the headers.\<close>

definition answer_ok :: "http_request \<Rightarrow> 'd http_response \<Rightarrow> bool" where
  "answer_ok rq resp = (case redirect_of rq of
     Some location \<Rightarrow> resp = redirect_response rq location
   | None \<Rightarrow> SecurityHeaders Map.empty \<subseteq>\<^sub>m hs_Header resp)"

definition entries_of :: "(http_request \<times> 'd http_response) list \<Rightarrow> log_entry list" where
  "entries_of out = map (\<lambda>(rq, resp). entry_of rq resp 0) (filter (\<lambda>(rq, resp). redirect_of rq = None) out)"

lemma run_engine_answers:
  "run_engine E N evs s = (out, s') \<Longrightarrow>
     map fst out = arrivals evs \<and> list_all (\<lambda>(rq, resp). answer_ok rq resp) out \<and>
     map untimed (es_log s') = map untimed (es_log s) @
       (if lg_Level (en_logger N) \<le> InfoLevel
        then kept_entries (lg_Sampled (en_logger N)) (es_seen s) (entries_of out) else [])"
proof (induction E N evs s arbitrary: out s' rule: run_engine.induct)
  case (2 E N rq evs s)
  obtain resp s1 where h: "handle E N rq s = (resp, s1)" by fastforce
  obtain out1 where r: "run_engine E N evs s1 = (out1, s')" and out: "out = (rq, resp) # out1"
    using 2(2) h by (auto split: prod.splits)
  note rest = 2(1) [OF h [symmetric] r]
  show ?case
  proof (cases "redirect_of rq")
    case None
    have "untimed (entry_of rq resp d) = entry_of rq resp 0" for d
      by (simp add: untimed_def entry_of_def)
    with rest handle_outcome [OF h None] handle_protects [OF h None] None show ?thesis
      by (auto simp: out logged_def answer_ok_def entries_of_def split: if_splits)
  next
    case (Some location)
    with rest h show ?thesis by (simp add: out handle_redirects answer_ok_def entries_of_def)
  qed
next
  case (3 E N evs s)
  then show ?case by (auto simp: clock_eq split: if_splits)
qed (simp add: entries_of_def)

section \<open>Runs\<close>

lemma dispatch_world:
  assumes "dispatch E G metrics h db rq hdr s = (resp, s')" and "P (es_world s)"
    and "\<And>w r w'. P w \<Longrightarrow> pool_Ping db w = (r, w') \<Longrightarrow> P w'"
    and "\<And>w ep c r w'. P w \<Longrightarrow> serve E G h ep c w = (r, w') \<Longrightarrow> P w'"
  shows "P (es_world s')"
proof (cases "route_of rq")
  case None
  with assms(1,2) show ?thesis by (simp add: dispatch_def)
next
  case (Some rt)
  show ?thesis
  proof (cases rt)
    case (R_health he)
    with Some assms(1,2) show ?thesis
      by (cases he) (auto simp: dispatch_def readiness_def split: prod.splits sum.splits dest: assms(3))
  next
    case R_prometheus
    with Some assms(1,2) show ?thesis by (simp add: dispatch_def)
  next
    case (R_payment ep)
    with Some assms(1,2) show ?thesis by (auto simp: dispatch_def split: prod.splits dest: assms(4))
  qed
qed

text \<open>What reading the clock, a ping and every request of the service keep, a run keeps.\<close>

lemma handle_world:
  fixes s :: "('l, 'db, 'x) engine_state"
  assumes h: "handle E N rq s = (resp, s')" and P: "P (es_world s)"
    and clock: "\<And>w w'. P w \<Longrightarrow> only_clock w w' \<Longrightarrow> P w'"
    and ping: "\<And>w r w'. P w \<Longrightarrow> pool_Ping (en_db N) w = (r, w') \<Longrightarrow> P w'"
    and serve: "\<And>w ep c r w'. P w \<Longrightarrow> serve E (en_gin N) (en_handler N) ep c w = (r, w') \<Longrightarrow> P w'"
  shows "P (es_world s')"
proof (cases "redirect_of rq = None \<and> admitted E (en_rate N) rq (at_limiter s)")
  case True
  with handle_outcome [OF h] obtain s1 s2 :: "('l, 'db, 'x) engine_state"
    where s1: "only_clock (es_world s) (es_world s1)"
    and d: "dispatch E (en_gin N) (en_metrics N) (en_handler N) (en_db N) rq
      (SecurityHeaders Map.empty) s1 = (resp, s2)"
    and s2: "only_clock (es_world s2) (es_world s')" by auto
  have "P (es_world s2)"
    by (rule dispatch_world [where P = P, OF d clock [OF P s1]]) (fact ping, fact serve)
  then show ?thesis using s2 by (rule clock)
next
  case False
  then show ?thesis
  proof (cases "redirect_of rq")
    case None
    with False handle_outcome [OF h] clock [OF P] show ?thesis by auto
  next
    case (Some location)
    with h P show ?thesis by (simp add: handle_redirects)
  qed
qed

lemma run_engine_keeps:
  assumes clock: "\<And>w w'. P w \<Longrightarrow> only_clock w w' \<Longrightarrow> P w'"
    and ping: "\<And>w r w'. P w \<Longrightarrow> pool_Ping (en_db N) w = (r, w') \<Longrightarrow> P w'"
    and serve: "\<And>w ep c r w'. P w \<Longrightarrow> serve E (en_gin N) (en_handler N) ep c w = (r, w') \<Longrightarrow> P w'"
  shows "P (es_world s) \<Longrightarrow> P (es_world (snd (run_engine E N evs s)))"
proof (induction evs arbitrary: s)
  case (Cons ev evs)
  show ?case
  proof (cases ev)
    case (Arrives rq)
    obtain resp s1 where h: "handle E N rq s = (resp, s1)" by fastforce
    have "P (es_world s1)"
      by (rule handle_world [where P = P, OF h Cons.prems]) (fact clock, fact ping, fact serve)
    from Cons.IH [OF this] show ?thesis
      by (cases "run_engine E N evs s1") (simp add: Arrives h)
  next
    case Ticks
    have "P (es_world (at_limiter s))" by (rule clock [OF Cons.prems]) simp
    then show ?thesis by (auto simp: Ticks clock_eq Cons.prems intro!: Cons.IH)
  qed
qed simp

section \<open>The server of \<open>main\<close> over the database of \<open>Postgres\<close>\<close>

text \<open>A run of the program from an empty database.\<close>

definition run_main :: "exact env \<Rightarrow> 'x stripe_api \<Rightarrow> zap \<Rightarrow> 'l rate \<Rightarrow> exact gin \<Rightarrow>
    ((pg, 'x) world \<Rightarrow> string) \<Rightarrow> config \<Rightarrow> event list \<Rightarrow> (nat \<Rightarrow> string option) \<Rightarrow> 'x \<Rightarrow>
    (http_request \<times> exact http_response) list \<times> ('l, pg, 'x) engine_state" where
  "run_main E api Z R G metrics cfg evs faults ext =
     (case newLogger (with_libs E) Z (LogLevel cfg) of
        Inl buildErr \<Rightarrow> ([], main_state cfg (fresh_world faults ext))
      | Inr logger \<Rightarrow>
          run_engine (with_libs E) (main_engine (with_libs E) api logger R G metrics cfg pg_pool) evs
            (main_state cfg (fresh_world faults ext)))"

lemma pg_ping_keeps:
  "pool_Ping pg_pool w = (r, w') \<Longrightarrow> pg_tables (w_db w') = pg_tables (w_db w) \<and>
     (pg_ok (w_db w) \<longrightarrow> pg_ok (w_db w'))"
  by (auto simp: pg_pool_def on_db_eq pg_ping_def pg_ok_def elim!: pg_call_cases)

text \<open>A database with its schema, and a ledger that steps have reached.\<close>

definition sound_world :: "(pg, 'x) world \<Rightarrow> bool" where
  "sound_world w \<longleftrightarrow> pg_ok (w_db w) \<and>
     ledger_reachable exact_val pg_amount micros (pg_ledger (w_db w))"

lemma sound_fresh: "sound_world (fresh_world faults ext)"
  by (simp add: sound_world_def fresh_world_ok fresh_world_empty ledger_reachable.empty)

lemma sound_clock: "sound_world w \<Longrightarrow> only_clock w w' \<Longrightarrow> sound_world w'"
  by (simp add: sound_world_def only_clock_keeps)

lemma sound_ping: "sound_world w \<Longrightarrow> pool_Ping pg_pool w = (r, w') \<Longrightarrow> sound_world w'"
  using pg_ping_keeps [of w r w'] by (simp add: sound_world_def pg_ledger_def)

lemma sound_serve:
  assumes "sound_world w"
    and "serve (with_libs E) G (server_handler (with_libs E) api cfg pg_pool) ep c w = (r, w')"
  shows "sound_world w'"
  using store.txs.serve_step [OF store.server_handler_ok _ with_libs_dec assms(2)] assms(1)
  unfolding sound_world_def pg_ledger_def pg_amount_def by (blast intro: reachable_step)

lemma engine_sound:
  assumes "sound_world (es_world s)"
  shows "sound_world (es_world (snd (run_engine (with_libs E)
    (main_engine (with_libs E) api logger R G metrics cfg pg_pool) evs s)))"
proof (rule run_engine_keeps [where P = sound_world])
  show "sound_world (es_world s)" by (rule assms)
qed (auto simp: main_engine_def elim: sound_clock sound_ping sound_serve)

lemma run_main_reachable:
  "pg_ok (w_db (es_world (snd (run_main E api Z R G metrics cfg evs faults ext)))) \<and>
   ledger_reachable exact_val pg_amount micros
     (pg_ledger (w_db (es_world (snd (run_main E api Z R G metrics cfg evs faults ext)))))"
proof -
  have "sound_world (es_world (main_state cfg (fresh_world faults ext)))"
    by (simp add: main_state_def sound_fresh)
  then show ?thesis
    unfolding run_main_def sound_world_def [symmetric] by (auto split: sum.split intro: engine_sound)
qed

text \<open>
  C22.  Whatever arrives, every request is answered, in order.  A request that gin redirects to a path
  with or without a trailing slash is answered with 301, or 307 when it is no GET, and passes by the
  middleware; every other answer, also of an unknown path, of a health endpoint and of the rate limiter,
  carries the seven security headers with their values, and the logger is given exactly one entry for it,
  with the method and path, the client's address and the status and errors of the answer: the log holds
  those of the entries that zap's sampling keeps, unless the configured level suppresses them.  (When the
  logger cannot be built the process panics, and nothing is answered.)
\<close>

theorem every_request_answered_and_logged:
  "case run_main E api Z R G metrics cfg evs faults ext of
    (out, s) \<Rightarrow>
      (case newLogger (with_libs E) Z (LogLevel cfg) of
         Inl buildErr \<Rightarrow> out = [] \<and> es_log s = []
       | Inr logger \<Rightarrow> map fst out = arrivals evs \<and>
           list_all (\<lambda>(rq, resp). case redirect_of rq of
              Some location \<Rightarrow> resp = redirect_response rq location
            | None \<Rightarrow> SecurityHeaders Map.empty \<subseteq>\<^sub>m hs_Header resp) out \<and>
           map untimed (es_log s) =
             (if lg_Level logger \<le> InfoLevel
              then kept_entries (lg_Sampled logger) 0 (map (\<lambda>(rq, resp). entry_of rq resp 0)
                     (filter (\<lambda>(rq, resp). redirect_of rq = None) out))
              else []))"
proof (cases "newLogger (with_libs E) Z (LogLevel cfg)")
  case (Inl buildErr)
  then show ?thesis by (simp add: run_main_def main_state_def)
next
  case (Inr logger)
  let ?N = "main_engine (with_libs E) api logger R G metrics cfg pg_pool"
  obtain out s where run: "run_engine (with_libs E) ?N evs (main_state cfg (fresh_world faults ext)) = (out, s)"
    by fastforce
  have "en_logger ?N = logger" by (simp add: main_engine_def)
  with run_engine_answers [OF run] Inr run show ?thesis
    by (simp add: run_main_def main_state_def answer_ok_def entries_of_def)
qed

lemma payment_route_limited:
  "route_of rq = Some (R_payment ep) \<Longrightarrow> \<not> HasPrefix (c_FullPath rq) ''/actuator/''"
  by (auto simp: c_FullPath_def route_of_def engine_routes_def health_Register_def h_Register_def
      HasPrefix_def split: if_splits)

text \<open>The token bucket a client has, or is given with its first request.\<close>

definition bucket_of :: "'l rate \<Rightarrow> string \<Rightarrow> 'l limiter \<Rightarrow> 'l" where
  "bucket_of R ip l = (case lm_limiters l ip of
     None \<Rightarrow> rate_NewLimiter R (lm_limit l) (lm_burst l) | Some e \<Rightarrow> le_limiter e)"

lemma admitted_bucket:
  assumes "\<not> bypasses (c_FullPath rq) (es_limiter s)"
  shows "admitted E R rq s = fst (rate_Allow R (E_now E (Suc (w_clk (es_world s))))
    (bucket_of R (hr_ClientIP rq) (es_limiter s)))"
  using assms
  by (simp add: admitted_def admit_def getLimiter_def bucket_of_def Let_def case_prod_beta
      split: option.split)

text \<open>
  C21.  The rate limiter guards every payment endpoint: when it is on, a request to one of them is
  handed to its handler exactly when the token bucket of its client allows it; otherwise it is
  answered with 429, and neither the database nor anything else but the clock has been touched.
\<close>

theorem limiter_guards_payments:
  fixes s :: "('l, 'db, 'x) engine_state"
  assumes "lm_enabled (es_limiter s)" and "route_of rq = Some (R_payment ep)"
  shows "case handle E N rq s of (resp, s') \<Rightarrow>
    if fst (rate_Allow (en_rate N) (E_now E (w_clk (es_world s) + 2))
         (bucket_of (en_rate N) (hr_ClientIP rq) (es_limiter s)))
    then \<exists>w r w'. only_clock (es_world s) w \<and>
      serve E (en_gin N) (en_handler N) ep (hr_Context rq) w = (r, w') \<and>
      resp = api_response (SecurityHeaders Map.empty) r \<and> only_clock w' (es_world s')
    else hs_Status resp = 429 \<and> only_clock (es_world s) (es_world s')"
proof -
  obtain resp s' where h: "handle E N rq s = (resp, s')" by fastforce
  have here: "redirect_of rq = None" using assms(2) by (simp add: redirect_of_def)
  have "\<not> bypasses (c_FullPath rq) (es_limiter (at_limiter s))"
    using assms payment_route_limited by (simp add: bypasses_def)
  from admitted_bucket [OF this, of E "en_rate N"]
  have adm: "admitted E (en_rate N) rq (at_limiter s) \<longleftrightarrow>
      fst (rate_Allow (en_rate N) (E_now E (w_clk (es_world s) + 2))
        (bucket_of (en_rate N) (hr_ClientIP rq) (es_limiter s)))" by simp
  have served: "\<exists>r w'. serve E (en_gin N) (en_handler N) ep (hr_Context rq) (es_world s1) = (r, w') \<and>
      resp = api_response (SecurityHeaders Map.empty) r \<and> es_world s2 = w'"
    if "dispatch E (en_gin N) (en_metrics N) (en_handler N) (en_db N) rq (SecurityHeaders Map.empty) s1
      = (resp, s2)" for s1 s2 :: "('l, 'db, 'x) engine_state"
    using that assms(2) by (auto simp: dispatch_def split: prod.splits)
  show ?thesis
  proof (cases "admitted E (en_rate N) rq (at_limiter s)")
    case True
    with handle_outcome [OF h here] obtain s1 s2 :: "('l, 'db, 'x) engine_state"
      where "only_clock (es_world s) (es_world s1)" "only_clock (es_world s2) (es_world s')"
        "dispatch E (en_gin N) (en_metrics N) (en_handler N) (en_db N) rq (SecurityHeaders Map.empty) s1
          = (resp, s2)" by auto
    with served True show ?thesis unfolding adm h by fastforce
  next
    case False
    with handle_outcome [OF h here] show ?thesis unfolding adm h by simp
  qed
qed

text \<open>An engine over the sample ledger whose buckets hold a number of tokens that are not refilled.\<close>

definition sample_rate :: "int rate" where
  "sample_rate = \<lparr>rate_NewLimiter = (\<lambda>limit burst. burst), rate_Allow = (\<lambda>now n. (0 < n, n - 1))\<rparr>"

definition sample_engine :: "(int, exact, pg, unit) engine" where
  "sample_engine =
     main_engine (with_libs sample_env) sample_api \<lparr>lg_Level = InfoLevel, lg_Sampled = (\<lambda>n. n < 100)\<rparr> sample_rate sample_gin (\<lambda>_. [])
       sample_config pg_pool"

definition sample_http_request :: http_request where
  "sample_http_request = \<lparr>hr_Method = ''POST'', hr_Path = ''/api/v1/payments'',
     hr_Pattern = ''/api/v1/payments'', hr_Redirect = None, hr_ClientIP = ''10.0.0.1'', hr_Context = sample_context\<rparr>"

lemma sample_route: "route_of sample_http_request = Some (R_payment EP_processPayment)"
  by (simp add: route_of_def sample_http_request_def engine_routes_def health_Register_def
      h_Register_def)

theorem limiter_guards_payments_witness:
  "hs_Status (fst (handle (with_libs sample_env) sample_engine sample_http_request
     \<lparr>es_limiter = NewRateLimiter True 1 0, es_log = [], es_seen = 0, es_world = sample_world\<rparr>)) = 429"
  using limiter_guards_payments [OF _ sample_route, of
      "\<lparr>es_limiter = NewRateLimiter True 1 0, es_log = [], es_seen = 0, es_world = sample_world\<rparr>"
      sample_engine "with_libs sample_env"]
  by (simp add: NewRateLimiter_def sample_engine_def main_engine_def sample_rate_def bucket_of_def
      sample_http_request_def split: prod.splits)

end
