(* ===== verification/Main_Process.thy ===== *)
theory Main_Process
  imports Engine
begin

text \<open>
  The function \<open>main\<close> of \<open>go/cmd/server/main.go\<close> from its first to its last line: it connects and
  pings, serves until a signal arrives or the listener ends, and shuts down.  What the process takes
  from outside are parameters: the connection \<open>pgxpool.New\<close> makes, the requests and ticks that
  arrive, how serving ends, and the result of \<open>http.Server.Shutdown\<close>.  \<open>logger.Fatal\<close> logs and exits
  with status 1 without running deferred calls.  Each of its own log messages is logged at most once,
  which zap's sampling keeps.
\<close>

section \<open>The process\<close>

text \<open>How \<open>select\<close> continues: a signal, or what \<open>ListenAndServe\<close> returned, which the goroutine passes
  on unless it is \<open>nil\<close> or \<open>http.ErrServerClosed\<close>.\<close>

datatype listen_result = Listen_nil | ErrServerClosed | Listen_error go_error

datatype ending = Signalled string | Listen_returned listen_result

fun errCh :: "listen_result \<Rightarrow> go_error option" where
  "errCh (Listen_error err) = Some err"
| "errCh Listen_nil = None"
| "errCh ErrServerClosed = None"

text \<open>The levels of zap.\<close>

definition ErrorLevel :: int where "ErrorLevel = 2"
definition FatalLevel :: int where "FatalLevel = 5"

datatype main_field = Port int | Signal string | Err go_error

record main_entry =
  me_level :: int
  me_message :: string
  me_field :: main_field

text \<open>What the process leaves: its exit status, its own log entries, whether the pool was closed, the
  answers it has given, and the world.\<close>

record ('d, 'db, 'x) process =
  pr_status :: int
  pr_log :: "main_entry list"
  pr_closed :: bool
  pr_answers :: "(http_request \<times> 'd http_response) list"
  pr_world :: "('db, 'x) world"

definition log_main :: "logger \<Rightarrow> int \<Rightarrow> string \<Rightarrow> main_field \<Rightarrow> main_entry list" where
  "log_main logger level message field =
     (if lg_Level logger \<le> level then [\<lparr>me_level = level, me_message = message, me_field = field\<rparr>] else [])"

definition fatal :: "logger \<Rightarrow> string \<Rightarrow> go_error \<Rightarrow> main_entry list \<Rightarrow>
    (http_request \<times> 'd http_response) list \<Rightarrow> ('db, 'x) world \<Rightarrow> ('d, 'db, 'x) process" where
  "fatal logger message err entries out w =
     \<lparr>pr_status = 1, pr_log = entries @ log_main logger FatalLevel message (Err err), pr_closed = False,
      pr_answers = out, pr_world = w\<rparr>"

text \<open>A panic ends the process with status 2; that of \<open>newLogger\<close> comes before any deferred call.\<close>

definition panicked :: "('db, 'x) world \<Rightarrow> ('d, 'db, 'x) process" where
  "panicked w = \<lparr>pr_status = 2, pr_log = [], pr_closed = False, pr_answers = [], pr_world = w\<rparr>"

definition shut_down :: "logger \<Rightarrow> go_error option \<Rightarrow> main_entry list \<Rightarrow>
    (http_request \<times> 'd http_response) list \<Rightarrow> ('db, 'x) world \<Rightarrow> ('d, 'db, 'x) process" where
  "shut_down logger shutdown entries out w =
     \<lparr>pr_status = 0, pr_log = entries @ (case shutdown of None \<Rightarrow> []
        | Some err \<Rightarrow> log_main logger ErrorLevel ''graceful shutdown failed'' (Err err)),
      pr_closed = True, pr_answers = out, pr_world = w\<rparr>"

definition run :: "'d env \<Rightarrow> 'x stripe_api \<Rightarrow> zap \<Rightarrow> 'l rate \<Rightarrow> 'd gin \<Rightarrow>
    (('db, 'x) world \<Rightarrow> string) \<Rightarrow> (string \<Rightarrow> go_error + ('db, 'x) pool) \<Rightarrow> event list \<Rightarrow> ending \<Rightarrow>
    go_error option \<Rightarrow> config \<Rightarrow> ('db, 'x) world \<Rightarrow> ('d, 'db, 'x) process" where
  "run E api Z R G metrics pgxpool_New evs ending shutdown cfg w =
     (case newLogger E Z (LogLevel cfg) of
        Inl buildErr \<Rightarrow> panicked w
      | Inr logger \<Rightarrow>
        (case pgxpool_New (DatabaseURI cfg) of
           Inl err \<Rightarrow> fatal logger ''connect database'' err [] [] w
         | Inr db \<Rightarrow>
             (case pool_Ping db w of
                (Inl err, w1) \<Rightarrow> fatal logger ''ping database'' err [] [] w1
              | (Inr _, w1) \<Rightarrow>
                  (let engine = main_engine E api logger R G metrics cfg db;
                       entries = log_main logger InfoLevel ''starting payment service''
                               (Port (ServerPort cfg))
                   in case run_engine E engine evs (main_state cfg w1) of
                        (out, s) \<Rightarrow>
                          (case ending of
                             Signalled sig \<Rightarrow>
                               shut_down logger shutdown
                                 (entries @ log_main logger InfoLevel ''shutdown requested'' (Signal sig)) out
                                 (es_world s)
                           | Listen_returned res \<Rightarrow>
                               (case errCh res of
                                  Some err \<Rightarrow> fatal logger ''server error'' err entries out (es_world s)
                                | None \<Rightarrow> shut_down logger shutdown entries out (es_world s)))))))"

text \<open>The configuration is loaded from the environment first.\<close>

definition main :: "'d env \<Rightarrow> 'x stripe_api \<Rightarrow> zap \<Rightarrow> 'l rate \<Rightarrow> 'd gin \<Rightarrow>
    (('db, 'x) world \<Rightarrow> string) \<Rightarrow> (string \<Rightarrow> go_error + ('db, 'x) pool) \<Rightarrow>
    (string \<Rightarrow> go_float option) \<Rightarrow> environ \<Rightarrow> event list \<Rightarrow> ending \<Rightarrow> go_error option \<Rightarrow>
    ('db, 'x) world \<Rightarrow> ('d, 'db, 'x) process" where
  "main E api Z R G metrics pgxpool_New ParseFloat g evs ending shutdown w =
     run E api Z R G metrics pgxpool_New evs ending shutdown (Load ParseFloat g) w"

section \<open>Exit status\<close>

lemma fatal_simps [simp]: "pr_status (fatal logger m e entries out w) = 1"
    "pr_answers (fatal logger m e entries out w) = out" "pr_world (fatal logger m e entries out w) = w"
  by (simp_all add: fatal_def)

lemma panicked_simps [simp]: "pr_status (panicked w) = 2" "pr_answers (panicked w) = []"
    "pr_world (panicked w) = w"
  by (simp_all add: panicked_def)

lemma run_panics:
  "newLogger E Z (LogLevel cfg) = Inl buildErr \<Longrightarrow>
     run E api Z R G metrics pgxpool_New evs ending shutdown cfg w = panicked w"
  by (simp add: run_def)

lemma shut_down_simps [simp]: "pr_status (shut_down logger sd entries out w) = 0"
    "pr_answers (shut_down logger sd entries out w) = out" "pr_world (shut_down logger sd entries out w) = w"
  by (simp_all add: shut_down_def)

text \<open>Nothing is served before the database has answered.\<close>

lemma run_not_started:
  assumes "newLogger E Z (LogLevel cfg) = Inr logger"
    and "pgxpool_New (DatabaseURI cfg) = Inl err \<or> (\<exists>db err w'. pgxpool_New (DatabaseURI cfg) = Inr db \<and> pool_Ping db w = (Inl err, w'))"
  shows "pr_status (run E api Z R G metrics pgxpool_New evs ending shutdown cfg w) = 1 \<and>
    pr_answers (run E api Z R G metrics pgxpool_New evs ending shutdown cfg w) = []"
  using assms by (auto simp: run_def Let_def)

lemma run_started:
  assumes "newLogger E Z (LogLevel cfg) = Inr logger"
    and "pgxpool_New (DatabaseURI cfg) = Inr db" "pool_Ping db w = (Inr u, w1)"
    and "run_engine E (main_engine E api logger R G metrics cfg db) evs (main_state cfg w1) = (out, s)"
  shows "pr_status (run E api Z R G metrics pgxpool_New evs ending shutdown cfg w) =
      (case ending of Listen_returned (Listen_error err) \<Rightarrow> 1 | _ \<Rightarrow> 0) \<and>
    pr_answers (run E api Z R G metrics pgxpool_New evs ending shutdown cfg w) = out \<and>
    pr_world (run E api Z R G metrics pgxpool_New evs ending shutdown cfg w) = es_world s"
  using assms
  by (auto simp: run_def Let_def split: ending.split listen_result.split)

section \<open>The ledger\<close>

text \<open>Connecting may fail; when it does not, the pool is one to the database of \<open>Postgres\<close>.\<close>

definition pg_New :: "(string \<Rightarrow> go_error option) \<Rightarrow> string \<Rightarrow> go_error + (pg, 'x) pool" where
  "pg_New refused uri = (case refused uri of Some err \<Rightarrow> Inl err | None \<Rightarrow> Inr pg_pool)"

text \<open>What the start-up ping and every run of the engine keep, the process keeps.\<close>

lemma run_keeps:
  fixes w :: "(pg, 'x) world" and R :: "'l rate"
  assumes w: "P w" and ping_keeps: "\<And>w r w'. P w \<Longrightarrow> pool_Ping pg_pool w = (r, w') \<Longrightarrow> P w'"
    and engine_keeps: "\<And>logger (s :: ('l, pg, 'x) engine_state). P (es_world s) \<Longrightarrow>
      P (es_world (snd (run_engine E (main_engine E api logger R G metrics cfg pg_pool) evs s)))"
  shows "P (pr_world (run E api Z R G metrics (pg_New refused) evs ending shutdown cfg w))"
proof (cases "newLogger E Z (LogLevel cfg)")
  case (Inl buildErr)
  with w show ?thesis by (simp add: run_panics)
next
  case logger: (Inr logger)
  obtain r w1 where ping: "pool_Ping pg_pool w = (r, w1)" by fastforce
  have w1: "P w1" using w ping by (rule ping_keeps)
  show ?thesis
  proof (cases "refused (DatabaseURI cfg)")
    case (Some e)
    with w logger show ?thesis by (simp add: run_def pg_New_def)
  next
    case None
    then have db: "(pg_New refused (DatabaseURI cfg) :: go_error + (pg, 'x) pool) = Inr pg_pool"
      by (simp add: pg_New_def)
    show ?thesis
    proof (cases r)
      case (Inl e)
      with logger db ping w1 show ?thesis by (simp add: run_def)
    next
      case (Inr u)
      obtain out s where served: "run_engine E (main_engine E api logger R G metrics cfg pg_pool) evs
          (main_state cfg w1) = (out, s)" by fastforce
      have "P (es_world (main_state cfg w1))" using w1 by (simp add: main_state_def)
      from engine_keeps [OF this, of logger] have "P (es_world s)" by (simp only: served snd_conv)
      then show ?thesis
        using run_started [where pgxpool_New = "pg_New refused" and u = u, OF logger db _ served] ping Inr
        by simp
    qed
  qed
qed

lemma run_sound:
  "sound_world w \<Longrightarrow> sound_world (pr_world (run (with_libs E) api Z R G metrics (pg_New refused)
     evs ending shutdown cfg w))"
  by (rule run_keeps [where P = sound_world]) (auto intro: sound_ping engine_sound)

end
