(* ===== verification/Ledger_History.thy ===== *)
theory Ledger_History
  imports Main_Process
begin

text \<open>
  What is recorded stays recorded.  The ledger at a later moment extends the one at an earlier
  moment: the audit log and the refunds only grow, payments are never dropped, and of a payment's
  row only the status and the time of its last change may differ, and only as long as the payment is
  COMPLETED: FAILED, REFUNDED and REFUND_FAILED are final.
\<close>

section \<open>Extended ledgers\<close>

definition row_evolves :: "'d payment \<Rightarrow> 'd payment \<Rightarrow> bool" where
  "row_evolves p q \<longleftrightarrow> q = p \<or>
     p_Status p = PaymentStatusCompleted \<and>
     p_Status q \<in> {PaymentStatusCompleted, PaymentStatusRefunded, PaymentStatusRefundFailed} \<and>
     q = p\<lparr>p_Status := p_Status q, p_UpdatedAt := p_UpdatedAt q\<rparr>"

definition extends :: "'d ledger \<Rightarrow> 'd ledger \<Rightarrow> bool" where
  "extends L L' \<longleftrightarrow> prefix (l_txs L) (l_txs L') \<and> prefix (l_refunds L) (l_refunds L') \<and>
     (\<exists>ps new. l_payments L' = ps @ new \<and> list_all2 row_evolves (l_payments L) ps)"

lemma row_evolves_refl [simp]: "row_evolves p p"
  by (simp add: row_evolves_def)

lemma row_evolves_trans:
  assumes "row_evolves p q" "row_evolves q r"
  shows "row_evolves p r"
proof (cases "q = p \<or> r = q")
  case True
  with assms show ?thesis by auto
next
  case False
  with assms have "p_Status p = PaymentStatusCompleted"
    and r: "p_Status r \<in> {PaymentStatusCompleted, PaymentStatusRefunded, PaymentStatusRefundFailed}"
    and q: "q = p\<lparr>p_Status := p_Status q, p_UpdatedAt := p_UpdatedAt q\<rparr>"
    and "r = q\<lparr>p_Status := p_Status r, p_UpdatedAt := p_UpdatedAt r\<rparr>"
    by (simp_all add: row_evolves_def)
  moreover from this(4) have "r = p\<lparr>p_Status := p_Status r, p_UpdatedAt := p_UpdatedAt r\<rparr>"
    by (subst (asm) q) simp
  ultimately show ?thesis by (simp add: row_evolves_def)
qed

lemma row_evolves_final:
  "row_evolves p q \<Longrightarrow> p_Status p \<noteq> PaymentStatusCompleted \<Longrightarrow> q = p"
  by (simp add: row_evolves_def)

lemma extendsI:
  assumes "prefix (l_txs L) (l_txs L')" "prefix (l_refunds L) (l_refunds L')"
    and "l_payments L' = ps @ new" "list_all2 row_evolves (l_payments L) ps"
  shows "extends L L'"
  using assms unfolding extends_def by blast

lemma extends_refl [simp]: "extends L L"
  by (rule extendsI [where ps = "l_payments L" and new = "[]"]) (simp_all add: list.rel_refl)

lemma extends_trans:
  assumes "extends L L'" "extends L' L''"
  shows "extends L L''"
proof -
  obtain ps new where 1: "l_payments L' = ps @ new" "list_all2 row_evolves (l_payments L) ps"
    using assms(1) by (auto simp: extends_def)
  obtain qs more where "l_payments L'' = qs @ more" "list_all2 row_evolves (l_payments L') qs"
    using assms(2) by (auto simp: extends_def)
  then obtain qs1 qs2 where 2: "l_payments L'' = qs1 @ qs2 @ more" "list_all2 row_evolves ps qs1"
    by (auto simp: 1(1) list_all2_append1)
  have "list_all2 row_evolves (l_payments L) qs1"
    by (rule list_all2_trans [OF row_evolves_trans 1(2) 2(2)])
  with 2(1) assms show ?thesis unfolding extends_def by (blast intro: prefix_order.trans)
qed

section \<open>Steps extend the ledger\<close>

lemma charge_extends: "charge_recorded ka kt result p L L' \<Longrightarrow> extends L L'"
  by (auto simp: charge_recorded_def list.rel_refl
      intro!: extendsI [where ps = "l_payments L" and new = "[keep_payment ka kt p]"])

lemma refund_extends:
  assumes ok: "ledger_ok val L" and rec: "refund_recorded val ka kt result p r L L'"
  shows "extends L L'"
proof -
  obtain s u t where p: "p \<in> set (l_payments L)" "refund_allowed p"
    and s: "s = status_after (rr_Success result) (val (r_Amount r)) (val (p_Amount p) - refunded val L (p_ID p))"
    and L': "L' = L\<lparr>l_payments := replace_payment (p\<lparr>p_Status := s, p_UpdatedAt := Some u\<rparr>) (l_payments L),
      l_refunds := l_refunds L @ [keep_refund ka kt r], l_txs := l_txs L @ [t]\<rparr>"
    using rec unfolding refund_recorded_def by blast
  have dist: "distinct (map p_ID (l_payments L))" using ok by (simp add: ledger_ok_def)
  have "settled_status (p_Status p)" using ok p(1) by (simp add: ledger_ok_def payment_balanced_def)
  then have "p_Status p = PaymentStatusCompleted" by (rule allowed_settled [OF p(2)])
  then have "row_evolves p (p\<lparr>p_Status := s, p_UpdatedAt := Some u\<rparr>)"
    by (simp add: row_evolves_def s status_after_def)
  then have "list_all2 row_evolves (l_payments L)
      (replace_payment (p\<lparr>p_Status := s, p_UpdatedAt := Some u\<rparr>) (l_payments L))"
    by (simp add: replace_payment_row [OF dist p(1)] list_all2_conv_all_nth)
  then show ?thesis by (auto simp: L' intro!: extendsI [where new = "[]"])
qed

lemma step_extends: "step_or_same val ka kt L L' \<Longrightarrow> ledger_ok val L \<Longrightarrow> extends L L'"
  unfolding step_or_same_def
  by (auto elim!: ledger_stepE intro: charge_extends refund_extends)

section \<open>Runs extend the ledger\<close>

definition sound_since :: "exact ledger \<Rightarrow> (pg, 'x) world \<Rightarrow> bool" where
  "sound_since L w \<longleftrightarrow> sound_world w \<and> extends L (pg_ledger (w_db w))"

lemma sound_ok: "sound_world w \<Longrightarrow> ledger_ok exact_val (pg_ledger (w_db w))"
  by (auto simp: sound_world_def dest: reachable_ok)

lemma since_serve:
  assumes "sound_since L w"
    and run: "serve (with_libs E) G (server_handler (with_libs E) api cfg pg_pool) ep c w = (r, w')"
  shows "sound_since L w'"
proof -
  have w: "sound_world w" "extends L (pg_ledger (w_db w))" using assms(1) by (simp_all add: sound_since_def)
  then have "pg_ok (w_db w)" by (simp add: sound_world_def)
  from store.txs.serve_step [OF store.server_handler_ok this with_libs_dec run]
  have "step_or_same exact_val pg_amount micros (pg_ledger (w_db w)) (pg_ledger (w_db w'))"
    unfolding pg_ledger_def pg_amount_def by (auto simp: step_or_same_def split: if_splits)
  with w have "extends L (pg_ledger (w_db w'))"
    by (blast intro: extends_trans step_extends sound_ok)
  with sound_serve [OF w(1) run] show ?thesis by (simp add: sound_since_def)
qed

lemma since_ping: "sound_since L w \<Longrightarrow> pool_Ping pg_pool w = (r, w') \<Longrightarrow> sound_since L w'"
  using sound_ping [of w r w'] pg_ping_keeps [of w r w'] by (simp add: sound_since_def pg_ledger_def)

lemma engine_since:
  fixes s :: "('l, pg, 'x) engine_state"
  assumes "sound_since L (es_world s)"
  shows "sound_since L (es_world (snd (run_engine (with_libs E)
    (main_engine (with_libs E) api logger R G metrics cfg pg_pool) evs s)))"
proof (rule run_engine_keeps [where P = "sound_since L"])
  show "sound_since L (es_world s)" by (rule assms)
next
  fix w w' :: "(pg, 'x) world"
  assume "sound_since L w" "only_clock w w'"
  then show "sound_since L w'" using sound_clock [of w w'] by (simp add: sound_since_def only_clock_keeps)
next
  fix w w' :: "(pg, 'x) world" and r
  assume "sound_since L w"
    "pool_Ping (en_db (main_engine (with_libs E) api logger R G metrics cfg pg_pool)) w = (r, w')"
  then show "sound_since L w'" by (auto simp: main_engine_def elim: since_ping)
next
  fix w w' :: "(pg, 'x) world" and ep c r
  assume "sound_since L w"
    "serve (with_libs E) (en_gin (main_engine (with_libs E) api logger R G metrics cfg pg_pool))
      (en_handler (main_engine (with_libs E) api logger R G metrics cfg pg_pool)) ep c w = (r, w')"
  then show "sound_since L w'" by (auto simp: main_engine_def elim: since_serve)
qed

lemma run_engine_append:
  "snd (run_engine E N (evs1 @ evs2) s) = snd (run_engine E N evs2 (snd (run_engine E N evs1 s)))"
  by (induction E N evs1 s rule: run_engine.induct) (auto split: prod.split)

text \<open>A moment of a run, and a later one.\<close>

lemma run_main_extends:
  "extends (pg_ledger (w_db (es_world (snd (run_main E api Z R G metrics cfg evs1 faults ext)))))
     (pg_ledger (w_db (es_world (snd (run_main E api Z R G metrics cfg (evs1 @ evs2) faults ext)))))"
proof (cases "newLogger (with_libs E) Z (LogLevel cfg)")
  case (Inl buildErr)
  then show ?thesis by (simp add: run_main_def)
next
  case (Inr logger)
  let ?s = "snd (run_main E api Z R G metrics cfg evs1 faults ext)"
  have "sound_since (pg_ledger (w_db (es_world ?s))) (es_world ?s)"
    using run_main_reachable [of E api Z R G metrics cfg evs1 faults ext]
    by (simp add: sound_since_def sound_world_def)
  from engine_since [OF this, of E api logger R G metrics cfg evs2] Inr show ?thesis
    by (simp add: run_main_def run_engine_append sound_since_def)
qed

text \<open>The process after a restart, possibly with another configuration.\<close>

lemma run_extends:
  assumes "sound_world w"
  shows "extends (pg_ledger (w_db w)) (pg_ledger (w_db (pr_world (run (with_libs E) api Z R G
    metrics (pg_New refused) evs ending shutdown cfg w))))"
proof -
  have "sound_since (pg_ledger (w_db w)) w" using assms by (simp add: sound_since_def)
  then have "sound_since (pg_ledger (w_db w)) (pr_world (run (with_libs E) api Z R G
      metrics (pg_New refused) evs ending shutdown cfg w))"
    by (rule run_keeps) (auto intro: since_ping engine_since)
  then show ?thesis by (simp add: sound_since_def)
qed

end
