(* ===== verification/Access_Control.thy ===== *)
theory Access_Control
  imports Main_Process
begin

text \<open>
  Who may do what.  The configuration of \<open>go/internal/config/config.go\<close> has settings for OAuth2 and for
  the encryption of fields, and the API documentation demands a bearer token, but the engine that
  \<open>main.go\<close> builds reads none of them: two runs that differ only there are the same.
\<close>

section \<open>Statuses\<close>

definition api_statuses :: "int set" where
  "api_statuses = {200, 201, 202, 400, 404, 500}"

lemma abort_status:
  "rp_Status (abortWithError (Some a)) = ae_Status a"
  by (simp add: abortWithError_def)

lemma APIErrorFromErr_api: "rp_Status (abortWithError (APIErrorFromErr (Some e))) \<in> api_statuses"
proof -
  obtain a where a: "APIErrorFromErr (Some e) = Some a" using APIErrorFromErr_Some by blast
  with APIErrorFromErr_status [OF a] show ?thesis by (auto simp: abort_status api_statuses_def)
qed

lemma BadRequest_api: "rp_Status (abortWithError (Some (BadRequest code message))) \<in> api_statuses"
  by (simp add: abort_status BadRequest_def api_statuses_def)

lemma or_abort_api:
  "(\<And>x. rp_Status (k x) \<in> api_statuses) \<Longrightarrow> rp_Status (fst (or_abort m k w)) \<in> api_statuses"
  by (simp add: or_abort_def APIErrorFromErr_api split: prod.split sum.split)

lemma with_payment_id_api:
  "(\<And>i w. rp_Status (fst (f i w)) \<in> api_statuses) \<Longrightarrow>
     rp_Status (fst (with_payment_id E c f w)) \<in> api_statuses"
  by (simp add: with_payment_id_def invalid_payment_id_def BadRequest_api split: option.split)

lemma json_api:
  "rp_Status (c_JSON StatusOK b) \<in> api_statuses" "rp_Status (payments_answer ps) \<in> api_statuses"
  "rp_Status (payment_answer c p) \<in> api_statuses"
  by (simp_all add: c_JSON_def payments_answer_def payment_answer_def api_statuses_def status_code_defs
      Let_def)

lemma validation_api:
  "validateProcessPaymentRequest E req = Some e \<Longrightarrow> rp_Status (abortWithError (Some e)) \<in> api_statuses"
  "validateRefundRequest E q = Some e \<Longrightarrow> rp_Status (abortWithError (Some e)) \<in> api_statuses"
  by (simp_all add: validation_status abort_status api_statuses_def)

lemma serve_status: "rp_Status (fst (serve E G h ep c w)) \<in> api_statuses"
  by (cases ep)
    (simp_all add: h_processPayment_def h_getPayment_def h_getPayments_def h_getPaymentByOrder_def
      h_getPaymentsByCustomer_def h_getRefundsForPayment_def h_refundPayment_def or_abort_api
      with_payment_id_api json_api validation_api BadRequest_api APIErrorFromErr_api Let_def
      split: sum.split option.split prod.split)

definition engine_statuses :: "int set" where
  "engine_statuses = api_statuses \<union> {429, 503}"

lemma dispatch_status:
  "hs_Status (fst (dispatch E G metrics h db rq hdr s)) \<in> engine_statuses"
proof (cases "route_of rq")
  case None
  then show ?thesis
    by (simp add: dispatch_def page_response_def engine_statuses_def api_statuses_def)
next
  case (Some rt)
  show ?thesis
  proof (cases rt)
    case (R_health he)
    with Some show ?thesis
      by (cases he) (auto simp: dispatch_def page_response_def engine_statuses_def api_statuses_def
          health_ok_def health_info_def readiness_def status_code_defs split: prod.split sum.split)
  next
    case R_prometheus
    with Some show ?thesis
      by (simp add: dispatch_def page_response_def engine_statuses_def api_statuses_def status_code_defs)
  next
    case (R_payment ep)
    with Some serve_status [of E G h ep "hr_Context rq" "es_world s"] show ?thesis
      by (auto simp: dispatch_def api_response_def engine_statuses_def split: prod.split)
  qed
qed

text \<open>A request that is redirected has another status.\<close>

definition statuses_of :: "http_request \<Rightarrow> int set" where
  "statuses_of rq = (if redirect_of rq = None then engine_statuses else {301, 307})"

lemma handle_status:
  assumes "handle E N rq s = (resp, s')"
  shows "hs_Status resp \<in> statuses_of rq"
proof (cases "redirect_of rq")
  case here: None
  show ?thesis
  proof (cases "admitted E (en_rate N) rq (at_limiter s)")
    case True
    with handle_outcome [OF assms here] here show ?thesis
      by (simp add: statuses_of_def) (metis dispatch_status fst_conv)
  next
    case False
    with handle_outcome [OF assms here] here show ?thesis
      by (simp add: api_response_def limit_exceeded_def c_JSON_def engine_statuses_def statuses_of_def)
  qed
next
  case (Some location)
  with assms show ?thesis
    by (auto simp: handle_redirects redirect_response_def page_response_def statuses_of_def split: if_splits)
qed

lemma run_engine_statuses:
  "list_all (\<lambda>(rq, resp). hs_Status resp \<in> statuses_of rq) (fst (run_engine E N evs s))"
  by (induction E N evs s rule: run_engine.induct)
    (auto simp: clock_eq dest: handle_status split: prod.split)

section \<open>Credentials\<close>

text \<open>The same request with another \<open>Authorization\<close> header.\<close>

definition authorize :: "string \<Rightarrow> gin_context \<Rightarrow> gin_context" where
  "authorize token c = c\<lparr>c_GetHeader := (c_GetHeader c)(''Authorization'' := token)\<rparr>"

fun presenting :: "(http_request \<Rightarrow> string) \<Rightarrow> event \<Rightarrow> event" where
  "presenting token (Arrives rq) = Arrives (rq\<lparr>hr_Context := authorize (token rq) (hr_Context rq)\<rparr>)"
| "presenting token Ticks = Ticks"

lemma authorize_simps [simp]:
  "c_Param (authorize token c) = c_Param c" "c_Query (authorize token c) = c_Query c"
  "c_Body (authorize token c) = c_Body c"
  "name \<noteq> ''Authorization'' \<Longrightarrow> c_GetHeader (authorize token c) name = c_GetHeader c name"
  by (simp_all add: authorize_def)

lemma authorize_key [simp]: "idempotency_key_of (authorize token c) req = idempotency_key_of c req"
  by (simp add: idempotency_key_of_def Let_def)

lemma serve_authorize: "serve E G h ep (authorize token c) = serve E G h ep c"
  by (cases ep; rule ext)
    (simp_all add: h_processPayment_def h_getPayment_def h_getPayments_def h_getPaymentByOrder_def
      h_getPaymentsByCustomer_def h_getRefundsForPayment_def h_refundPayment_def with_payment_id_def
      split: sum.split option.split)

lemma handle_authorize:
  "handle E N (rq\<lparr>hr_Context := authorize token (hr_Context rq)\<rparr>) = handle E N rq"
proof -
  let ?rq = "rq\<lparr>hr_Context := authorize token (hr_Context rq)\<rparr>"
  have r: "route_of ?rq = route_of rq" "c_FullPath ?rq = c_FullPath rq" "hr_ClientIP ?rq = hr_ClientIP rq"
    "hr_Method ?rq = hr_Method rq" "hr_Path ?rq = hr_Path rq"
    "redirect_of ?rq = redirect_of rq" "redirect_response ?rq = redirect_response rq"
    by (simp_all add: route_of_def c_FullPath_def redirect_of_def redirect_response_def [abs_def]
        split: option.split)
  have d: "dispatch E G metrics h db ?rq = dispatch E G metrics h db rq" for G metrics h db
    by (rule ext)+ (simp add: dispatch_def r serve_authorize split: option.split route.split)
  show ?thesis
    by (rule ext) (simp only: handle_def with_headers_def RequestLogger_def [abs_def] RateLimiter_def [abs_def] r d)
qed

lemma run_engine_presenting:
  "map snd (fst (run_engine E N (map (presenting token) evs) s)) = map snd (fst (run_engine E N evs s)) \<and>
   snd (run_engine E N (map (presenting token) evs) s) = snd (run_engine E N evs s)"
  by (induction E N evs s rule: run_engine.induct)
    (auto simp: handle_authorize clock_eq split: prod.split)

text \<open>The settings that no component reads.\<close>

lemma main_engine_unused:
  "main_engine E api logger R G metrics (cfg\<lparr>OAuth2Enabled := oauth2, OAuth2IssuerURI := issuer,
     OAuth2JWKSetURI := jwks, EncryptionEnabled := encrypt, EncryptionKey := key\<rparr>) db =
   main_engine E api logger R G metrics cfg db"
  "main_state (cfg\<lparr>OAuth2Enabled := oauth2, OAuth2IssuerURI := issuer, OAuth2JWKSetURI := jwks,
     EncryptionEnabled := encrypt, EncryptionKey := key\<rparr>) = main_state cfg"
  by (simp_all add: main_engine_def server_handler_def server_router_def main_state_def fun_eq_iff)

text \<open>
  C23.  Nobody is turned away for lack of rights: whatever bearer tokens the requests carry and however
  OAuth2 and the encryption of fields are configured, every request is given the same answer, and the
  database, the gateways, the limiter and the log end up the same; no answer ever is 401, 403 or 409.
  (A request that gin redirects is answered with 301 or 307.)
\<close>

theorem credentials_ignored:
  "case run_main E api Z R G metrics cfg evs faults ext of
    (out, s) \<Rightarrow>
      (case run_main E api Z R G metrics (cfg\<lparr>OAuth2Enabled := oauth2,
          OAuth2IssuerURI := issuer, OAuth2JWKSetURI := jwks, EncryptionEnabled := encrypt,
          EncryptionKey := key\<rparr>) (map (presenting token) evs) faults ext of
        (out', s') \<Rightarrow> map snd out' = map snd out \<and> s' = s) \<and>
      list_all (\<lambda>(rq, resp). hs_Status resp \<in>
        (if redirect_of rq = None then {200, 201, 202, 400, 404, 429, 500, 503} else {301, 307})) out"
proof -
  let ?E = "with_libs E"
  let ?N = "\<lambda>logger. main_engine ?E api logger R G metrics cfg pg_pool"
  let ?s = "main_state cfg (fresh_world faults ext)"
  have st: "statuses_of rq = (if redirect_of rq = None then {200, 201, 202, 400, 404, 429, 500, 503}
      else {301, 307})" for rq
    by (auto simp: statuses_of_def engine_statuses_def api_statuses_def)
  have level: "LogLevel (cfg\<lparr>OAuth2Enabled := oauth2, OAuth2IssuerURI := issuer, OAuth2JWKSetURI := jwks,
      EncryptionEnabled := encrypt, EncryptionKey := key\<rparr>) = LogLevel cfg" by simp
  show ?thesis
  proof (cases "newLogger ?E Z (LogLevel cfg)")
    case (Inl buildErr)
    then show ?thesis by (simp add: run_main_def main_engine_unused)
  next
    case (Inr logger)
    with run_engine_presenting [of ?E "?N logger" token evs ?s]
      run_engine_statuses [of ?E "?N logger" evs ?s, unfolded st]
    show ?thesis
      unfolding run_main_def main_engine_unused level by (simp add: case_prod_beta)
  qed
qed

end
