(* ===== verification/Lost_Confirmations.thy ===== *)
theory Lost_Confirmations
  imports Main_Process
begin

text \<open>
  Commits whose confirmation is lost: the database has committed, but the connection breaks before
  the service hears of it, and \<open>tx.Commit\<close> in \<open>Store.RunInTx\<close> (\<open>store.go\<close>) returns an error.  The
  service cannot tell this from a commit that failed.  A run in which confirmations are lost is
  compared, layer by layer, with the run in which they arrive: each layer does the same to the
  world, and differs at most in answering an error instead of a success.
\<close>

section \<open>The pool\<close>

text \<open>\<open>lost\<close> tells for every world after a commit whether its confirmation is lost, and with which
  error message.\<close>

definition confirmed :: "(('db, 'x) world \<Rightarrow> string option) \<Rightarrow> (go_error + 'a) \<times> ('db, 'x) world \<Rightarrow>
    (go_error + 'a) \<times> ('db, 'x) world" where
  "confirmed lost out =
     (case out of
        (Inl err, w) \<Rightarrow> (Inl err, w)
      | (Inr x, w) \<Rightarrow> (case lost w of None \<Rightarrow> Inr x | Some message \<Rightarrow> Inl (ErrText message), w))"

definition unconfirmed :: "(('db, 'x) world \<Rightarrow> string option) \<Rightarrow> ('db, 'x) pool \<Rightarrow> ('db, 'x) pool" where
  "unconfirmed lost pl = pl\<lparr>tx_Commit := (\<lambda>w. confirmed lost (tx_Commit pl w))\<rparr>"

definition unconfirmed_New :: "(('db, 'x) world \<Rightarrow> string option) \<Rightarrow>
    (string \<Rightarrow> go_error + ('db, 'x) pool) \<Rightarrow> string \<Rightarrow> go_error + ('db, 'x) pool" where
  "unconfirmed_New lost pgxpool_New uri =
     (case pgxpool_New uri of Inl err \<Rightarrow> Inl err | Inr db \<Rightarrow> Inr (unconfirmed lost db))"

lemma unconfirmed_simps [simp]:
  "pool_Ping (unconfirmed lost pl) = pool_Ping pl" "pool_Begin (unconfirmed lost pl) = pool_Begin pl"
  "tx_Rollback (unconfirmed lost pl) = tx_Rollback pl" "pool_tx (unconfirmed lost pl) = pool_tx pl"
  "pool_querier (unconfirmed lost pl) = pool_querier pl"
  by (simp_all add: unconfirmed_def)

lemma confirmed_simps [simp]:
  "confirmed lost (Inl err, w) = (Inl err, w)"
  "lost w = None \<Longrightarrow> confirmed lost (Inr x, w) = (Inr x, w)"
  "lost w = Some message \<Longrightarrow> confirmed lost (Inr x, w) = (Inl (ErrText message), w)"
  by (simp_all add: confirmed_def)

lemma confirmedE:
  obtains "confirmed lost out = out"
    | x w message where "out = (Inr x, w)" "confirmed lost out = (Inl (ErrText message), w)"
proof (cases out)
  case (Pair r w)
  with that show thesis by (cases r; cases "lost w") auto
qed

section \<open>Functions that may lose a confirmation\<close>

definition may_lose :: "(('db, 'x) world \<Rightarrow> string option) \<Rightarrow> ('db, 'x, 'a) go \<Rightarrow> ('db, 'x, 'a) go \<Rightarrow> bool"
  where
  "may_lose lost m m' \<longleftrightarrow> (\<forall>w. m' w = m w \<or> m' w = confirmed lost (m w))"

lemma may_lose_refl [simp, intro]: "may_lose lost m m"
  by (simp add: may_lose_def)

lemma may_loseE:
  assumes "may_lose lost m m'"
  obtains "m' w = m w" | x message w' where "m w = (Inr x, w')" "m' w = (Inl (ErrText message), w')"
  using assms unfolding may_lose_def by (metis confirmedE)

lemma may_lose_world: "may_lose lost m m' \<Longrightarrow> snd (m' w) = snd (m w)"
  by (erule may_loseE [where w = w]) simp_all

lemma may_lose_if:
  "may_lose lost f f' \<Longrightarrow> may_lose lost g g' \<Longrightarrow>
     may_lose lost (\<lambda>w. if b then f w else g w) (\<lambda>w. if b then f' w else g' w)"
  by (cases b) simp_all

lemma may_lose_case:
  assumes "\<And>e. may_lose lost (h e) (h' e)" and "\<And>x. may_lose lost (f x) (f' x)"
  shows "may_lose lost (\<lambda>w. case m w of (Inl e, w1) \<Rightarrow> h e w1 | (Inr x, w1) \<Rightarrow> f x w1)
    (\<lambda>w. case m w of (Inl e, w1) \<Rightarrow> h' e w1 | (Inr x, w1) \<Rightarrow> f' x w1)"
  using assms unfolding may_lose_def by (simp split: prod.split sum.split)

lemma may_lose_bindE: "(\<And>x. may_lose lost (f x) (f' x)) \<Longrightarrow> may_lose lost (bindE m f) (bindE m f')"
  unfolding may_lose_def bindE_def by (auto split: prod.split sum.split)

lemma may_lose_found_or: "may_lose lost k k' \<Longrightarrow> may_lose lost (found_or m k) (found_or m k')"
  unfolding may_lose_def found_or_def by (auto split: prod.split sum.split)

lemma may_lose_with:
  "(\<And>t. may_lose lost (k t) (k' t)) \<Longrightarrow> may_lose lost (with_now E k) (with_now E k')"
  "(\<And>u. may_lose lost (f u) (f' u)) \<Longrightarrow> may_lose lost (with_uuid E f) (with_uuid E f')"
  unfolding may_lose_def with_now_def with_uuid_def by auto

section \<open>The services\<close>

text \<open>Of its pool a store uses what it queries with.\<close>

lemmas store_calls = Store_CreatePayment_def Store_UpdatePayment_def Store_GetPayment_def
  Store_GetPaymentForUpdate_def Store_GetPaymentByOrderID_def Store_GetPaymentByIdempotencyKey_def
  Store_GetPaymentsByCustomer_def Store_CreateRefund_def Store_UpdateRefund_def Store_GetRefund_def
  Store_GetRefundByCorrelationID_def Store_GetRefundsByPayment_def Store_CreateTransaction_def
  query_row_def query_rows_def

lemma sql_store_querier: "s_db s' = s_db s \<Longrightarrow> sql_store E s' = sql_store E s"
  by (simp add: sql_store_def store_calls fun_eq_iff cong: option.case_cong)

lemma unconfirmed_stores [simp]:
  "sql_store E (NewStore (unconfirmed lost pl)) = sql_store E (NewStore pl)"
  "tr_store (sql_runner E (unconfirmed lost pl)) = tr_store (sql_runner E pl)"
  by (simp_all add: NewStore_def sql_runner_def) (rule sql_store_querier, simp)+

lemma unconfirmed_runner [simp]:
  "tr_begin (sql_runner E (unconfirmed lost pl)) = tr_begin (sql_runner E pl)"
  "tr_rollback (sql_runner E (unconfirmed lost pl)) = tr_rollback (sql_runner E pl)"
  by (simp_all add: sql_runner_def)

lemma commit_lost:
  "bindE (tr_commit (sql_runner E (unconfirmed lost pl))) (\<lambda>_. returnE x) w =
     confirmed lost (bindE (tr_commit (sql_runner E pl)) (\<lambda>_. returnE x) w)"
  by (simp add: sql_runner_def unconfirmed_def bindE_def returnE_def confirmed_def
      split: prod.split sum.split option.split)

lemma RunInTx_lost:
  "RunInTx (sql_runner E (unconfirmed lost pl)) fn w = confirmed lost (RunInTx (sql_runner E pl) fn w)"
proof -
  obtain r w1 where start: "tr_begin (sql_runner E pl) w = (r, w1)" by fastforce
  obtain x w2 where body: "fn (tr_store (sql_runner E pl)) w1 = (x, w2)" by fastforce
  show ?thesis
  proof (cases r)
    case (Inl e)
    with start show ?thesis by (simp add: RunInTx_def bindE_def)
  next
    case (Inr u)
    obtain b w3 where undo: "tr_rollback (sql_runner E pl) w2 = (b, w3)" by fastforce
    from start body undo Inr show ?thesis
      by (cases x; cases b) (simp_all add: RunInTx_def bindE_def [of "tr_begin _"] commit_lost)
  qed
qed

text \<open>A service over the pool, and the same service over the pool that loses confirmations.\<close>

definition loses :: "'d env \<Rightarrow> ('db, 'x) pool \<Rightarrow> (('db, 'x) world \<Rightarrow> string option) \<Rightarrow>
    ('d, 'db, 'x) service \<Rightarrow> ('d, 'db, 'x) service \<Rightarrow> bool" where
  "loses E pl lost svc svc' \<longleftrightarrow> svc_store svc' = svc_store svc \<and> svc_router svc' = svc_router svc \<and>
     svc_runner svc = Some (sql_runner E pl) \<and> svc_runner svc' = Some (sql_runner E (unconfirmed lost pl))"

lemma server_loses:
  "loses E pl lost (h_paymentService (server_handler E api cfg pl))
     (h_paymentService (server_handler E api cfg (unconfirmed lost pl)))"
  "loses E pl lost (h_refundService (server_handler E api cfg pl))
     (h_refundService (server_handler E api cfg (unconfirmed lost pl)))"
  by (simp_all add: loses_def server_handler_def NewHandler_def NewPaymentService_def
      NewRefundService_def Let_def)

lemma run_persist_lost:
  "loses E pl lost svc svc' \<Longrightarrow> run_persist svc' f w = confirmed lost (run_persist svc f w)"
  by (simp add: loses_def run_persist_def RunInTx_lost)

text \<open>A lost confirmation is not taken for a lost race.\<close>

lemma persist_or_replay_lost:
  assumes "loses E pl lost svc svc'"
  shows "may_lose lost (persist_or_replay E2 svc p c k res now) (persist_or_replay E2 svc' p c k res now)"
  unfolding may_lose_def
proof
  fix w
  have store: "svc_store svc' = svc_store svc" using assms by (simp add: loses_def)
  let ?m = "run_persist svc (\<lambda>store. persistProcessedPayment E2 store p c res now) w"
  obtain x w1 where m: "?m = (x, w1)" by fastforce
  show "persist_or_replay E2 svc' p c k res now w = persist_or_replay E2 svc p c k res now w \<or>
    persist_or_replay E2 svc' p c k res now w = confirmed lost (persist_or_replay E2 svc p c k res now w)"
    unfolding persist_or_replay_def store run_persist_lost [OF assms] m
    by (cases x; cases "lost w1") (simp_all add: isUniqueViolation_def)
qed

lemma charge_and_persist_lost:
  assumes "loses E pl lost svc svc'"
  shows "may_lose lost (charge_and_persist E2 svc req c k) (charge_and_persist E2 svc' req c k)"
proof -
  have router: "svc_router svc' = svc_router svc" using assms by (simp add: loses_def)
  show ?thesis
    using persist_or_replay_lost [OF assms] unfolding may_lose_def charge_and_persist_def router
    by (auto simp: draw_defs split: sum.split prod.split)
qed

lemma ProcessPayment_lost:
  assumes "loses E pl lost svc svc'"
  shows "may_lose lost (ProcessPayment E2 svc req c k) (ProcessPayment E2 svc' req c k)"
proof -
  have store: "svc_store svc' = svc_store svc" using assms by (simp add: loses_def)
  show ?thesis
    unfolding ProcessPayment_def Let_def store
    by (auto intro!: may_lose_found_or may_lose_case may_lose_if charge_and_persist_lost [OF assms])
qed

lemma ProcessRefund_lost:
  assumes "loses E pl lost svc svc'"
  shows "may_lose lost (ProcessRefund E2 svc i amount reason who c) (ProcessRefund E2 svc' i amount reason who c)"
proof -
  have same: "svc_store svc' = svc_store svc" "svc_router svc' = svc_router svc"
    using assms by (simp_all add: loses_def)
  have "may_lose lost (run_persist svc f) (run_persist svc' f)" for f :: "('a, 'b, 'c) payment_store \<Rightarrow> ('b, 'c, 'a refund) go"
    by (simp add: may_lose_def run_persist_lost [OF assms])
  note persist = may_lose_with(1) [OF may_lose_with(2) [OF this]]
  show ?thesis
    unfolding ProcessRefund_def Let_def same
    by (auto intro!: may_lose_found_or may_lose_bindE persist split: sum.split)
qed

text \<open>When the ledger has changed, it was the transaction that answered, and a lost confirmation shows.\<close>

lemma charge_recorded_changes: "charge_recorded ka kt result p L L' \<Longrightarrow> L' \<noteq> L"
  unfolding charge_recorded_def by (auto dest: arg_cong [where f = l_txs])

context transactional_store begin

lemma persist_or_replay_unconfirmed:
  assumes svc: "svc_ok svc" and inv: "inv (w_db w)" and lose: "loses E2 pl lost svc svc'"
    and run: "persist_or_replay E svc p c k res now w = (r, w')"
    and changed: "view (w_db w') \<noteq> view (w_db w)"
  shows "persist_or_replay E svc' p c k res now w = confirmed lost (r, w')"
proof -
  let ?f = "\<lambda>store. persistProcessedPayment E store p c res now"
  have store: "svc_store svc = S" "svc_store svc' = S" using svc lose by (simp_all add: svc_ok_def loses_def)
  obtain x w1 where m: "run_persist svc ?f w = (x, w1)" by fastforce
  show ?thesis
  proof (cases x)
    case (Inl e)
    have "RunInTx T ?f w = (Inl e, w1)" using m Inl svc by (simp add: run_persist_def svc_ok_def)
    from RunInTx_Inl [OF inv this persist_in_tx] have w1: "inv (w_db w1)" "view (w_db w1) = view (w_db w)"
      by blast+
    obtain y w2 where get: "st_GetPaymentByIdempotencyKey S k w1 = (y, w2)" by fastforce
    from run m Inl get w1 get_view(4) [OF w1(1) get] have "view (w_db w') = view (w_db w)"
      by (auto simp: persist_or_replay_def store split: if_splits sum.splits)
    with changed show ?thesis by simp
  next
    case (Inr q)
    with run m have "r = Inr q" "w' = w1" by (simp_all add: persist_or_replay_def)
    then show ?thesis
      unfolding persist_or_replay_def run_persist_lost [OF lose] m Inr
      by (cases "lost w1") (simp_all add: isUniqueViolation_def)
  qed
qed

lemma charge_and_persist_unconfirmed:
  assumes svc: "svc_ok svc" and inv: "inv (w_db w)" and lose: "loses E2 pl lost svc svc'"
    and run: "charge_and_persist E svc req c k w = (r, w')"
    and changed: "view (w_db w') \<noteq> view (w_db w)"
  shows "charge_and_persist E svc' req c k w = confirmed lost (r, w')"
proof -
  have router: "svc_router svc' = svc_router svc" using lose by (simp add: loses_def)
  obtain g where g: "GetGatewayOrDefault E (svc_router svc) (pq_Gateway req) = Inr g"
    using run changed by (cases "GetGatewayOrDefault E (svc_router svc) (pq_Gateway req)")
      (auto simp: charge_and_persist_def)
  have contract: "gateway_contract g" using router_ok_default [OF _ g] svc by (simp add: svc_ok_def)
  let ?w0 = "w\<lparr>w_clk := Suc (w_clk w), w_ids := Suc (w_ids w)\<rparr>"
  obtain res w1 where gw: "gw_ProcessPayment g (payment_gateway_request E req c k) ?w0 = (res, w1)"
    by fastforce
  have w1: "w_db w1 = w_db w" using gateway_contract.payment_db [OF contract gw] by simp
  have "persist_or_replay E svc (new_payment E req (gw_GetName g) c k (E_now E (w_clk w)) (E_uuid E (w_ids w)))
      c k res (E_now E (w_clk w)) w1 = (r, w')"
    using run g gw by (simp add: charge_and_persist_def draw_defs)
  from persist_or_replay_unconfirmed [OF svc _ lose this] inv changed w1 g gw show ?thesis
    by (simp add: charge_and_persist_def draw_defs router)
qed

lemma pay_by_order_unconfirmed:
  assumes svc: "svc_ok svc" and inv: "inv (w_db w)" and lose: "loses E2 pl lost svc svc'"
    and run: "pay_by_order E svc req c k w = (r, w')"
    and changed: "view (w_db w') \<noteq> view (w_db w)"
  shows "pay_by_order E svc' req c k w = confirmed lost (r, w')"
proof -
  have store: "svc_store svc = S" "svc_store svc' = S" using svc lose by (simp_all add: svc_ok_def loses_def)
  obtain y w1 where get: "st_GetPaymentByOrderID S (pq_OrderID req) w = (y, w1)" by fastforce
  from get_view(3) [OF inv get] have w1: "inv (w_db w1)" "view (w_db w1) = view (w_db w)" by simp_all
  have paid: "charge_and_persist E svc req c k w1 = (r, w')"
    using run get w1(2) changed by (auto simp: store split: sum.splits if_splits)
  from charge_and_persist_unconfirmed [OF svc w1(1) lose paid] changed w1(2)
  have paid': "charge_and_persist E svc' req c k w1 = confirmed lost (r, w')" by simp
  show ?thesis
    using run get w1(2) changed paid' by (auto simp: store split: sum.splits if_splits)
qed

lemma ProcessPayment_unconfirmed:
  assumes svc: "svc_ok svc" and inv: "inv (w_db w)" and lose: "loses E2 pl lost svc svc'"
    and run: "ProcessPayment E svc req c k w = (r, w')"
    and changed: "view (w_db w') \<noteq> view (w_db w)"
  shows "ProcessPayment E svc' req c k w = confirmed lost (r, w')"
proof -
  have store: "svc_store svc' = svc_store svc" using lose by (simp add: loses_def)
  from run show ?thesis
  proof (cases rule: ProcessPayment_cases)
    case (found q)
    with key_lookup [OF inv svc found(3)] changed show ?thesis by simp
  next
    case (failed e)
    with key_lookup [OF inv svc failed(4)] changed show ?thesis by simp
  next
    case (missing e w1)
    with key_lookup [OF inv svc missing(2)] have w1: "inv (w_db w1)" "view (w_db w1) = view (w_db w)"
      by simp_all
    from pay_by_order_unconfirmed [OF svc w1(1) lose missing(4)] changed w1(2) missing(1-3) store
    show ?thesis by (simp add: ProcessPayment_def found_or_def)
  next
    case keyless
    with pay_by_order_unconfirmed [OF svc inv lose keyless(2) changed] show ?thesis
      by (simp add: ProcessPayment_def)
  qed
qed

end

section \<open>The handlers\<close>

definition lost_reply :: "'d response \<times> ('db, 'x) world \<Rightarrow> 'd response \<times> ('db, 'x) world \<Rightarrow> bool" where
  "lost_reply a a' \<longleftrightarrow> snd a' = snd a \<and>
     (fst a' = fst a \<or> rp_Status (fst a) \<in> {200, 201, 202} \<and> rp_Status (fst a') \<in> {400, 500})"

lemma lost_reply_refl [simp]: "lost_reply a a"
  by (simp add: lost_reply_def)

lemma err_text_status:
  "rp_Status (abortWithError (APIErrorFromErr (Some (ErrText message)))) = 400 \<or>
   rp_Status (abortWithError (APIErrorFromErr (Some (ErrText message)))) = 500"
  by (simp add: APIErrorFromErr_def abortWithError_def api_error_defs Let_def)

lemma or_abort_lost:
  assumes "may_lose lost m m'" and "\<And>x. rp_Status (k x) \<in> {200, 201, 202}"
  shows "lost_reply (or_abort m k w) (or_abort m' k w)"
  by (rule may_loseE [OF assms(1), of w])
    (use assms(2) err_text_status in \<open>auto simp: or_abort_def lost_reply_def\<close>)

lemma payment_answer_status: "rp_Status (payment_answer c p) \<in> {200, 201, 202}"
  by (simp add: payment_answer_def c_JSON_def status_code_defs Let_def)

lemma serve_lost:
  assumes "loses E2 pl lost (h_paymentService h) (h_paymentService h')"
    and "loses E2 pl lost (h_refundService h) (h_refundService h')"
  shows "lost_reply (serve E G h ep c w) (serve E G h' ep c w)"
proof -
  have store: "svc_store (h_paymentService h') = svc_store (h_paymentService h)"
    "svc_store (h_refundService h') = svc_store (h_refundService h)"
    using assms by (simp_all add: loses_def)
  have ok: "rp_Status (c_JSON StatusOK b) \<in> {200, 201, 202}" for b :: "'a body"
    by (simp add: c_JSON_def status_code_defs)
  show ?thesis
    by (cases ep)
      (auto simp: store h_processPayment_def h_getPayment_def h_getPayments_def h_getPaymentByOrder_def
        h_getPaymentsByCustomer_def h_getRefundsForPayment_def h_refundPayment_def with_payment_id_def
        svc_GetPayment_def svc_GetPaymentByOrderID_def svc_GetPaymentsByCustomer_def
        svc_GetRefundsByPayment_def Let_def
        intro!: or_abort_lost ProcessPayment_lost [OF assms(1)] ProcessRefund_lost [OF assms(2)]
          payment_answer_status ok
        split: sum.split option.split)
qed

section \<open>The engine\<close>

text \<open>Only the log, which holds the statuses that were answered, differs.\<close>

definition same_state :: "('l, 'db, 'x) engine_state \<Rightarrow> ('l, 'db, 'x) engine_state \<Rightarrow> bool" where
  "same_state s s' \<longleftrightarrow> es_world s' = es_world s \<and> es_limiter s' = es_limiter s"

definition answer_lost :: "'d http_response \<Rightarrow> 'd http_response \<Rightarrow> bool" where
  "answer_lost resp resp' \<longleftrightarrow>
     resp' = resp \<or> hs_Status resp \<in> {200, 201, 202} \<and> hs_Status resp' \<in> {400, 500}"

definition chain_lost :: "('l, 'd, 'db, 'x) chain \<Rightarrow> ('l, 'd, 'db, 'x) chain \<Rightarrow> bool" where
  "chain_lost ch ch' \<longleftrightarrow> (\<forall>hdr s s'. same_state s s' \<longrightarrow>
     answer_lost (fst (ch hdr s)) (fst (ch' hdr s')) \<and> same_state (snd (ch hdr s)) (snd (ch' hdr s')))"

lemma chain_lostD:
  assumes "chain_lost ch ch'" "same_state s s'" "ch hdr s = (resp, t)" "ch' hdr s' = (resp', t')"
  shows "answer_lost resp resp'" "same_state t t'"
  using assms unfolding chain_lost_def by (metis fst_conv, metis snd_conv)

lemma clock_same:
  assumes "same_state s s'"
  shows "fst (clock E s') = fst (clock E s)" "same_state (snd (clock E s)) (snd (clock E s'))"
  using assms by (simp_all add: clock_eq same_state_def)

lemma dispatch_lost:
  fixes db db' :: "('db, 'x) pool"
  assumes "\<And>ep c w. lost_reply (serve E G h ep c w) (serve E G h' ep c w)"
    and "pool_Ping db' = pool_Ping db"
  shows "chain_lost (dispatch E G metrics h db rq) (dispatch E G metrics h' db' rq)"
proof -
  have health: "serve_health db' he w = serve_health db he w" for he w
    by (cases he) (simp_all add: assms(2))
  show ?thesis
    unfolding chain_lost_def
  proof (intro allI impI)
    fix hdr and s s' :: "('l, 'db, 'x) engine_state"
    assume same: "same_state s s'"
    show "answer_lost (fst (dispatch E G metrics h db rq hdr s)) (fst (dispatch E G metrics h' db' rq hdr s')) \<and>
      same_state (snd (dispatch E G metrics h db rq hdr s)) (snd (dispatch E G metrics h' db' rq hdr s'))"
    proof (cases "\<exists>ep. route_of rq = Some (R_payment ep)")
      case True
      then obtain ep where "route_of rq = Some (R_payment ep)" by blast
      with assms(1) [of ep "hr_Context rq" "es_world s"] same show ?thesis
        by (auto simp: dispatch_def lost_reply_def answer_lost_def same_state_def split: prod.split)
    next
      case False
      with same show ?thesis
        by (auto simp: dispatch_def health answer_lost_def same_state_def
            split: option.split route.split prod.split)
    qed
  qed
qed

lemma RateLimiter_lost:
  fixes ch ch' :: "('l, 'd, 'db, 'x) chain"
  assumes "chain_lost ch ch'"
  shows "chain_lost (RateLimiter E R rq ch) (RateLimiter E R rq ch')"
  unfolding chain_lost_def
proof (intro allI impI)
  fix hdr and s s' :: "('l, 'db, 'x) engine_state"
  assume same: "same_state s s'"
  let ?upd = "\<lambda>s l. s\<lparr>es_world := (es_world s)\<lparr>w_clk := Suc (Suc (w_clk (es_world s)))\<rparr>, es_limiter := l\<rparr>"
  have "same_state (?upd s l) (?upd s' l)" for l using same by (simp add: same_state_def)
  with assms same show "answer_lost (fst (RateLimiter E R rq ch hdr s)) (fst (RateLimiter E R rq ch' hdr s')) \<and>
      same_state (snd (RateLimiter E R rq ch hdr s)) (snd (RateLimiter E R rq ch' hdr s'))"
    unfolding chain_lost_def
    by (auto simp: RateLimiter_def clock_eq same_state_def answer_lost_def split: prod.split sum.split)
qed

lemma RequestLogger_lost:
  fixes ch ch' :: "('l, 'd, 'db, 'x) chain"
  assumes "chain_lost ch ch'"
  shows "chain_lost (RequestLogger E logger rq ch) (RequestLogger E logger rq ch')"
  unfolding chain_lost_def
proof (intro allI impI)
  fix hdr and s s' :: "('l, 'db, 'x) engine_state"
  assume same: "same_state s s'"
  obtain start s1 start' s1' where start: "clock E s = (start, s1)" "clock E s' = (start', s1')" by fastforce
  with clock_same [OF same, of E] have same1: "same_state s1 s1'" by simp
  obtain r s2 r' s2' where step: "ch hdr s1 = (r, s2)" "ch' hdr s1' = (r', s2')" by fastforce
  note rest = chain_lostD [OF assms same1 step]
  obtain now s3 now' s3' where stop: "clock E s2 = (now, s3)" "clock E s2' = (now', s3')" by fastforce
  with clock_same [OF rest(2), of E] have "same_state s3 s3'" by simp
  with rest(1) show "answer_lost (fst (RequestLogger E logger rq ch hdr s)) (fst (RequestLogger E logger rq ch' hdr s')) \<and>
      same_state (snd (RequestLogger E logger rq ch hdr s)) (snd (RequestLogger E logger rq ch' hdr s'))"
    by (simp add: RequestLogger_def start step stop log_info_def same_state_def)
qed

text \<open>The engine over the pool that loses confirmations.\<close>

lemma handle_lost:
  assumes "same_state s s'"
    and "handle E (main_engine E api logger R G metrics cfg pl) rq s = (resp, t)"
    and "handle E (main_engine E api logger R G metrics cfg (unconfirmed lost pl)) rq s' = (resp', t')"
  shows "answer_lost resp resp' \<and> same_state t t'"
proof -
  note served = RequestLogger_lost [OF RateLimiter_lost [OF dispatch_lost [OF serve_lost [OF server_loses]]]]
  show ?thesis
  proof (cases "redirect_of rq")
    case None
    then show ?thesis
      using chain_lostD [OF served [OF unconfirmed_simps(1)] assms(1)] assms(2,3)
      unfolding handle_def with_headers_def main_engine_def by fastforce
  next
    case (Some location)
    with assms show ?thesis by (simp add: handle_redirects answer_lost_def)
  qed
qed

lemma run_engine_lost:
  assumes "same_state s s'"
  shows "list_all2 (\<lambda>(rq, resp) (rq', resp'). rq' = rq \<and> answer_lost resp resp')
      (fst (run_engine E (main_engine E api logger R G metrics cfg pl) evs s))
      (fst (run_engine E (main_engine E api logger R G metrics cfg (unconfirmed lost pl)) evs s')) \<and>
    same_state (snd (run_engine E (main_engine E api logger R G metrics cfg pl) evs s))
      (snd (run_engine E (main_engine E api logger R G metrics cfg (unconfirmed lost pl)) evs s'))"
  using assms
proof (induction evs arbitrary: s s')
  case Nil
  then show ?case by simp
next
  case (Cons ev evs)
  show ?case
  proof (cases ev)
    case (Arrives rq)
    obtain resp t resp' t' where step:
      "handle E (main_engine E api logger R G metrics cfg pl) rq s = (resp, t)"
      "handle E (main_engine E api logger R G metrics cfg (unconfirmed lost pl)) rq s' = (resp', t')"
      by fastforce
    from handle_lost [OF Cons.prems step] have "answer_lost resp resp'" "same_state t t'" by blast+
    with Cons.IH [of t t'] Arrives show ?thesis by (simp add: step case_prod_beta)
  next
    case Ticks
    from Cons.prems have l: "es_limiter s' = es_limiter s" by (simp add: same_state_def)
    have "same_state ((snd (clock E s))\<lparr>es_limiter := x\<rparr>) ((snd (clock E s'))\<lparr>es_limiter := x\<rparr>)" for x
      using clock_same(2) [OF Cons.prems, of E] by (simp add: same_state_def)
    with Cons.IH Cons.prems Ticks l show ?thesis
      by (auto simp: clock_eq same_state_def)
  qed
qed

section \<open>The process\<close>

lemma run_lost:
  assumes "p = run E api Z R G metrics pgxpool_New evs ending shutdown cfg w"
    and "p' = run E api Z R G metrics (unconfirmed_New lost pgxpool_New) evs ending shutdown cfg w"
  shows "pr_status p' = pr_status p" "pr_world p' = pr_world p"
    "list_all2 (\<lambda>(rq, resp) (rq', resp'). rq' = rq \<and> answer_lost resp resp') (pr_answers p) (pr_answers p')"
proof -
  have "pr_status p' = pr_status p \<and> pr_world p' = pr_world p \<and>
    list_all2 (\<lambda>(rq, resp) (rq', resp'). rq' = rq \<and> answer_lost resp resp') (pr_answers p) (pr_answers p')"
  proof (cases "newLogger E Z (LogLevel cfg)")
    case (Inl buildErr)
    then show ?thesis by (simp add: assms run_panics)
  next
    case logger: (Inr logger)
    show ?thesis
    proof (cases "pgxpool_New (DatabaseURI cfg)")
      case (Inl e)
      with logger show ?thesis by (simp add: assms run_def unconfirmed_New_def)
    next
      case (Inr db)
      then have Inr': "unconfirmed_New lost pgxpool_New (DatabaseURI cfg) = Inr (unconfirmed lost db)"
        by (simp add: unconfirmed_New_def)
      obtain r w1 where ping: "pool_Ping db w = (r, w1)" by fastforce
      show ?thesis
      proof (cases r)
        case (Inl e)
        with logger Inr Inr' ping show ?thesis by (simp add: assms run_def)
      next
        case started: (Inr u)
        let ?N = "main_engine E api logger R G metrics cfg"
        obtain out s out' s' where served: "run_engine E (?N db) evs (main_state cfg w1) = (out, s)"
          "run_engine E (?N (unconfirmed lost db)) evs (main_state cfg w1) = (out', s')" by fastforce
        have "same_state (main_state cfg w1) (main_state cfg w1)" by (simp add: same_state_def)
        from run_engine_lost [OF this, of E api logger R G metrics cfg db evs lost] have
          "list_all2 (\<lambda>(rq, resp) (rq', resp'). rq' = rq \<and> answer_lost resp resp') out out' \<and> same_state s s'"
          by (simp only: served fst_conv snd_conv)
        with run_started [where pgxpool_New = pgxpool_New, OF logger Inr ping [unfolded started] served(1)]
          run_started [where pgxpool_New = "unconfirmed_New lost pgxpool_New", OF logger Inr' _ served(2)]
          ping started show ?thesis
          by (simp add: assms same_state_def)
      qed
    qed
  qed
  then show "pr_status p' = pr_status p" "pr_world p' = pr_world p"
    "list_all2 (\<lambda>(rq, resp) (rq', resp'). rq' = rq \<and> answer_lost resp resp') (pr_answers p) (pr_answers p')"
    by blast+
qed

end
