(* ===== verification/Aes.thy ===== *)
theory Aes
  imports Go_Prelude "HOL-Library.Word"
begin

text \<open>
  The block cipher behind \<open>go/internal/crypto/encryption.go\<close>: AES with a key of 256 bits, as
  \<open>crypto/aes\<close> of the standard library implements it (FIPS 197).  The state is the list of its
  sixteen bytes, column by column.  The vector of the standard's appendix is checked at the end.
\<close>

unbundle bit_operations_syntax

type_synonym block = "128 word"

section \<open>Bytes\<close>

definition bytes_of_block :: "block \<Rightarrow> 8 word list" where
  "bytes_of_block b = map (\<lambda>i. ucast (drop_bit (8 * (15 - i)) b)) [0..<16]"

definition block_of_bytes :: "8 word list \<Rightarrow> block" where
  "block_of_bytes = foldl (\<lambda>acc x. push_bit 8 acc OR ucast x) 0"

text \<open>The S-box, and multiplication by \<open>x\<close> in the field with 256 elements.\<close>

definition sbox_table :: "8 word list" where
  "sbox_table =
   [0x63, 0x7c, 0x77, 0x7b, 0xf2, 0x6b, 0x6f, 0xc5, 0x30, 0x01, 0x67, 0x2b, 0xfe, 0xd7, 0xab, 0x76,
    0xca, 0x82, 0xc9, 0x7d, 0xfa, 0x59, 0x47, 0xf0, 0xad, 0xd4, 0xa2, 0xaf, 0x9c, 0xa4, 0x72, 0xc0,
    0xb7, 0xfd, 0x93, 0x26, 0x36, 0x3f, 0xf7, 0xcc, 0x34, 0xa5, 0xe5, 0xf1, 0x71, 0xd8, 0x31, 0x15,
    0x04, 0xc7, 0x23, 0xc3, 0x18, 0x96, 0x05, 0x9a, 0x07, 0x12, 0x80, 0xe2, 0xeb, 0x27, 0xb2, 0x75,
    0x09, 0x83, 0x2c, 0x1a, 0x1b, 0x6e, 0x5a, 0xa0, 0x52, 0x3b, 0xd6, 0xb3, 0x29, 0xe3, 0x2f, 0x84,
    0x53, 0xd1, 0x00, 0xed, 0x20, 0xfc, 0xb1, 0x5b, 0x6a, 0xcb, 0xbe, 0x39, 0x4a, 0x4c, 0x58, 0xcf,
    0xd0, 0xef, 0xaa, 0xfb, 0x43, 0x4d, 0x33, 0x85, 0x45, 0xf9, 0x02, 0x7f, 0x50, 0x3c, 0x9f, 0xa8,
    0x51, 0xa3, 0x40, 0x8f, 0x92, 0x9d, 0x38, 0xf5, 0xbc, 0xb6, 0xda, 0x21, 0x10, 0xff, 0xf3, 0xd2,
    0xcd, 0x0c, 0x13, 0xec, 0x5f, 0x97, 0x44, 0x17, 0xc4, 0xa7, 0x7e, 0x3d, 0x64, 0x5d, 0x19, 0x73,
    0x60, 0x81, 0x4f, 0xdc, 0x22, 0x2a, 0x90, 0x88, 0x46, 0xee, 0xb8, 0x14, 0xde, 0x5e, 0x0b, 0xdb,
    0xe0, 0x32, 0x3a, 0x0a, 0x49, 0x06, 0x24, 0x5c, 0xc2, 0xd3, 0xac, 0x62, 0x91, 0x95, 0xe4, 0x79,
    0xe7, 0xc8, 0x37, 0x6d, 0x8d, 0xd5, 0x4e, 0xa9, 0x6c, 0x56, 0xf4, 0xea, 0x65, 0x7a, 0xae, 0x08,
    0xba, 0x78, 0x25, 0x2e, 0x1c, 0xa6, 0xb4, 0xc6, 0xe8, 0xdd, 0x74, 0x1f, 0x4b, 0xbd, 0x8b, 0x8a,
    0x70, 0x3e, 0xb5, 0x66, 0x48, 0x03, 0xf6, 0x0e, 0x61, 0x35, 0x57, 0xb9, 0x86, 0xc1, 0x1d, 0x9e,
    0xe1, 0xf8, 0x98, 0x11, 0x69, 0xd9, 0x8e, 0x94, 0x9b, 0x1e, 0x87, 0xe9, 0xce, 0x55, 0x28, 0xdf,
    0x8c, 0xa1, 0x89, 0x0d, 0xbf, 0xe6, 0x42, 0x68, 0x41, 0x99, 0x2d, 0x0f, 0xb0, 0x54, 0xbb, 0x16]"

definition sbox :: "8 word \<Rightarrow> 8 word" where
  "sbox b = sbox_table ! unat b"

definition xtime :: "8 word \<Rightarrow> 8 word" where
  "xtime b = (if bit b 7 then push_bit 1 (b AND 0x7f) XOR 0x1b else push_bit 1 b)"

section \<open>Rounds\<close>

definition xor_lists :: "8 word list \<Rightarrow> 8 word list \<Rightarrow> 8 word list" where
  "xor_lists xs ys = map2 (XOR) xs ys"

definition shift_rows :: "8 word list \<Rightarrow> 8 word list" where
  "shift_rows s = map (\<lambda>i. s ! ((i + 4 * (i mod 4)) mod 16)) [0..<16]"

fun mix_columns :: "8 word list \<Rightarrow> 8 word list" where
  "mix_columns (a # b # c # d # rest) =
     (let mix = (\<lambda>p q r s. xtime p XOR (xtime q XOR q) XOR r XOR s)
      in [mix a b c d, mix b c d a, mix c d a b, mix d a b c] @ mix_columns rest)"
| "mix_columns _ = []"

text \<open>The key schedule: word \<open>i\<close> from the word before it and the one eight before it.\<close>

definition next_word :: "nat \<Rightarrow> 8 word \<Rightarrow> 8 word list list \<Rightarrow> 8 word list" where
  "next_word i rcon ws =
     (let prev = last ws; back = ws ! (length ws - 8)
      in xor_lists back
           (if i mod 8 = 0 then xor_lists [rcon, 0, 0, 0] (map sbox (rotate1 prev))
            else if i mod 8 = 4 then map sbox prev else prev))"

fun expand_key :: "nat \<Rightarrow> nat \<Rightarrow> 8 word \<Rightarrow> 8 word list list \<Rightarrow> 8 word list list" where
  "expand_key 0 i rcon ws = ws"
| "expand_key (Suc n) i rcon ws =
     expand_key n (Suc i) (if i mod 8 = 0 then xtime rcon else rcon) (ws @ [next_word i rcon ws])"

fun chunks :: "nat \<Rightarrow> nat \<Rightarrow> 'a list \<Rightarrow> 'a list list" where
  "chunks k 0 xs = []"
| "chunks k (Suc n) xs = take k xs # chunks k n (drop k xs)"

definition round_keys :: "8 word list \<Rightarrow> 8 word list list" where
  "round_keys key = map concat (chunks 4 15 (expand_key 52 8 1 (chunks 4 8 key)))"

fun rounds :: "8 word list list \<Rightarrow> 8 word list \<Rightarrow> 8 word list" where
  "rounds [] s = s"
| "rounds [k] s = xor_lists (shift_rows (map sbox s)) k"
| "rounds (k # ks) s = rounds ks (xor_lists (mix_columns (shift_rows (map sbox s))) k)"

definition encrypt_bytes :: "8 word list list \<Rightarrow> 8 word list \<Rightarrow> 8 word list" where
  "encrypt_bytes ks s = rounds (tl ks) (xor_lists s (hd ks))"

text \<open>\<open>aes.NewCipher\<close> of a key of 32 bytes, and its \<open>Encrypt\<close>.\<close>

definition aes256 :: "string \<Rightarrow> block \<Rightarrow> block" where
  "aes256 key b =
     block_of_bytes (encrypt_bytes (round_keys (map (\<lambda>c. word_of_nat (byte c)) key)) (bytes_of_block b))"

section \<open>The example vector of FIPS 197, appendix C.3\<close>

text \<open>Rules that evaluate the cipher on literals.\<close>

lemma sbox_values:
  "sbox 0 = 0x63" "sbox 1 = 0x7c" "sbox 2 = 0x77" "sbox 3 = 0x7b" "sbox 4 = 0xf2"
  "sbox 5 = 0x6b" "sbox 6 = 0x6f" "sbox 7 = 0xc5" "sbox 8 = 0x30" "sbox 9 = 0x01"
  "sbox 10 = 0x67" "sbox 11 = 0x2b" "sbox 12 = 0xfe" "sbox 13 = 0xd7" "sbox 14 = 0xab"
  "sbox 15 = 0x76" "sbox 16 = 0xca" "sbox 17 = 0x82" "sbox 18 = 0xc9" "sbox 19 = 0x7d"
  "sbox 20 = 0xfa" "sbox 21 = 0x59" "sbox 22 = 0x47" "sbox 23 = 0xf0" "sbox 24 = 0xad"
  "sbox 25 = 0xd4" "sbox 26 = 0xa2" "sbox 27 = 0xaf" "sbox 28 = 0x9c" "sbox 29 = 0xa4"
  "sbox 30 = 0x72" "sbox 31 = 0xc0" "sbox 32 = 0xb7" "sbox 33 = 0xfd" "sbox 34 = 0x93"
  "sbox 35 = 0x26" "sbox 36 = 0x36" "sbox 37 = 0x3f" "sbox 38 = 0xf7" "sbox 39 = 0xcc"
  "sbox 40 = 0x34" "sbox 41 = 0xa5" "sbox 42 = 0xe5" "sbox 43 = 0xf1" "sbox 44 = 0x71"
  "sbox 45 = 0xd8" "sbox 46 = 0x31" "sbox 47 = 0x15" "sbox 48 = 0x04" "sbox 49 = 0xc7"
  "sbox 50 = 0x23" "sbox 51 = 0xc3" "sbox 52 = 0x18" "sbox 53 = 0x96" "sbox 54 = 0x05"
  "sbox 55 = 0x9a" "sbox 56 = 0x07" "sbox 57 = 0x12" "sbox 58 = 0x80" "sbox 59 = 0xe2"
  "sbox 60 = 0xeb" "sbox 61 = 0x27" "sbox 62 = 0xb2" "sbox 63 = 0x75" "sbox 64 = 0x09"
  "sbox 65 = 0x83" "sbox 66 = 0x2c" "sbox 67 = 0x1a" "sbox 68 = 0x1b" "sbox 69 = 0x6e"
  "sbox 70 = 0x5a" "sbox 71 = 0xa0" "sbox 72 = 0x52" "sbox 73 = 0x3b" "sbox 74 = 0xd6"
  "sbox 75 = 0xb3" "sbox 76 = 0x29" "sbox 77 = 0xe3" "sbox 78 = 0x2f" "sbox 79 = 0x84"
  "sbox 80 = 0x53" "sbox 81 = 0xd1" "sbox 82 = 0x00" "sbox 83 = 0xed" "sbox 84 = 0x20"
  "sbox 85 = 0xfc" "sbox 86 = 0xb1" "sbox 87 = 0x5b" "sbox 88 = 0x6a" "sbox 89 = 0xcb"
  "sbox 90 = 0xbe" "sbox 91 = 0x39" "sbox 92 = 0x4a" "sbox 93 = 0x4c" "sbox 94 = 0x58"
  "sbox 95 = 0xcf" "sbox 96 = 0xd0" "sbox 97 = 0xef" "sbox 98 = 0xaa" "sbox 99 = 0xfb"
  "sbox 100 = 0x43" "sbox 101 = 0x4d" "sbox 102 = 0x33" "sbox 103 = 0x85" "sbox 104 = 0x45"
  "sbox 105 = 0xf9" "sbox 106 = 0x02" "sbox 107 = 0x7f" "sbox 108 = 0x50" "sbox 109 = 0x3c"
  "sbox 110 = 0x9f" "sbox 111 = 0xa8" "sbox 112 = 0x51" "sbox 113 = 0xa3" "sbox 114 = 0x40"
  "sbox 115 = 0x8f" "sbox 116 = 0x92" "sbox 117 = 0x9d" "sbox 118 = 0x38" "sbox 119 = 0xf5"
  "sbox 120 = 0xbc" "sbox 121 = 0xb6" "sbox 122 = 0xda" "sbox 123 = 0x21" "sbox 124 = 0x10"
  "sbox 125 = 0xff" "sbox 126 = 0xf3" "sbox 127 = 0xd2" "sbox 128 = 0xcd" "sbox 129 = 0x0c"
  "sbox 130 = 0x13" "sbox 131 = 0xec" "sbox 132 = 0x5f" "sbox 133 = 0x97" "sbox 134 = 0x44"
  "sbox 135 = 0x17" "sbox 136 = 0xc4" "sbox 137 = 0xa7" "sbox 138 = 0x7e" "sbox 139 = 0x3d"
  "sbox 140 = 0x64" "sbox 141 = 0x5d" "sbox 142 = 0x19" "sbox 143 = 0x73" "sbox 144 = 0x60"
  "sbox 145 = 0x81" "sbox 146 = 0x4f" "sbox 147 = 0xdc" "sbox 148 = 0x22" "sbox 149 = 0x2a"
  "sbox 150 = 0x90" "sbox 151 = 0x88" "sbox 152 = 0x46" "sbox 153 = 0xee" "sbox 154 = 0xb8"
  "sbox 155 = 0x14" "sbox 156 = 0xde" "sbox 157 = 0x5e" "sbox 158 = 0x0b" "sbox 159 = 0xdb"
  "sbox 160 = 0xe0" "sbox 161 = 0x32" "sbox 162 = 0x3a" "sbox 163 = 0x0a" "sbox 164 = 0x49"
  "sbox 165 = 0x06" "sbox 166 = 0x24" "sbox 167 = 0x5c" "sbox 168 = 0xc2" "sbox 169 = 0xd3"
  "sbox 170 = 0xac" "sbox 171 = 0x62" "sbox 172 = 0x91" "sbox 173 = 0x95" "sbox 174 = 0xe4"
  "sbox 175 = 0x79" "sbox 176 = 0xe7" "sbox 177 = 0xc8" "sbox 178 = 0x37" "sbox 179 = 0x6d"
  "sbox 180 = 0x8d" "sbox 181 = 0xd5" "sbox 182 = 0x4e" "sbox 183 = 0xa9" "sbox 184 = 0x6c"
  "sbox 185 = 0x56" "sbox 186 = 0xf4" "sbox 187 = 0xea" "sbox 188 = 0x65" "sbox 189 = 0x7a"
  "sbox 190 = 0xae" "sbox 191 = 0x08" "sbox 192 = 0xba" "sbox 193 = 0x78" "sbox 194 = 0x25"
  "sbox 195 = 0x2e" "sbox 196 = 0x1c" "sbox 197 = 0xa6" "sbox 198 = 0xb4" "sbox 199 = 0xc6"
  "sbox 200 = 0xe8" "sbox 201 = 0xdd" "sbox 202 = 0x74" "sbox 203 = 0x1f" "sbox 204 = 0x4b"
  "sbox 205 = 0xbd" "sbox 206 = 0x8b" "sbox 207 = 0x8a" "sbox 208 = 0x70" "sbox 209 = 0x3e"
  "sbox 210 = 0xb5" "sbox 211 = 0x66" "sbox 212 = 0x48" "sbox 213 = 0x03" "sbox 214 = 0xf6"
  "sbox 215 = 0x0e" "sbox 216 = 0x61" "sbox 217 = 0x35" "sbox 218 = 0x57" "sbox 219 = 0xb9"
  "sbox 220 = 0x86" "sbox 221 = 0xc1" "sbox 222 = 0x1d" "sbox 223 = 0x9e" "sbox 224 = 0xe1"
  "sbox 225 = 0xf8" "sbox 226 = 0x98" "sbox 227 = 0x11" "sbox 228 = 0x69" "sbox 229 = 0xd9"
  "sbox 230 = 0x8e" "sbox 231 = 0x94" "sbox 232 = 0x9b" "sbox 233 = 0x1e" "sbox 234 = 0x87"
  "sbox 235 = 0xe9" "sbox 236 = 0xce" "sbox 237 = 0x55" "sbox 238 = 0x28" "sbox 239 = 0xdf"
  "sbox 240 = 0x8c" "sbox 241 = 0xa1" "sbox 242 = 0x89" "sbox 243 = 0x0d" "sbox 244 = 0xbf"
  "sbox 245 = 0xe6" "sbox 246 = 0x42" "sbox 247 = 0x68" "sbox 248 = 0x41" "sbox 249 = 0x99"
  "sbox 250 = 0x2d" "sbox 251 = 0x0f" "sbox 252 = 0xb0" "sbox 253 = 0x54" "sbox 254 = 0xbb"
  "sbox 255 = 0x16"
  by (simp_all add: sbox_def sbox_table_def)

lemma xor_lists_simps:
  "xor_lists [] ys = []" "xor_lists (x # xs) (y # ys) = (x XOR y) # xor_lists xs ys"
  by (simp_all add: xor_lists_def)

lemma upto_16: "[0..<16] = [0, 1, 2, 3, 4, 5, 6, 7, 8, 9, 10, 11, 12, 13, 14, 15]"
  by (simp add: upt_rec)

lemmas numeral_steps =
  expand_key.simps(2) [of "pred_numeral k" for k, folded numeral_eq_Suc]
  chunks.simps(2) [of _ "pred_numeral k" for k, folded numeral_eq_Suc]

lemmas aes_eval = xor_lists_simps sbox_values next_word_def xtime_def Let_def numeral_steps
  shift_rows_def upto_16

lemma vector_words:
  "expand_key 52 8 1 (chunks 4 8 (map word_of_nat [0..<32])) =
   [[0x00, 0x01, 0x02, 0x03], [0x04, 0x05, 0x06, 0x07], [0x08, 0x09, 0x0a, 0x0b],
    [0x0c, 0x0d, 0x0e, 0x0f], [0x10, 0x11, 0x12, 0x13], [0x14, 0x15, 0x16, 0x17],
    [0x18, 0x19, 0x1a, 0x1b], [0x1c, 0x1d, 0x1e, 0x1f], [0xa5, 0x73, 0xc2, 0x9f],
    [0xa1, 0x76, 0xc4, 0x98], [0xa9, 0x7f, 0xce, 0x93], [0xa5, 0x72, 0xc0, 0x9c],
    [0x16, 0x51, 0xa8, 0xcd], [0x02, 0x44, 0xbe, 0xda], [0x1a, 0x5d, 0xa4, 0xc1],
    [0x06, 0x40, 0xba, 0xde], [0xae, 0x87, 0xdf, 0xf0], [0x0f, 0xf1, 0x1b, 0x68],
    [0xa6, 0x8e, 0xd5, 0xfb], [0x03, 0xfc, 0x15, 0x67], [0x6d, 0xe1, 0xf1, 0x48],
    [0x6f, 0xa5, 0x4f, 0x92], [0x75, 0xf8, 0xeb, 0x53], [0x73, 0xb8, 0x51, 0x8d],
    [0xc6, 0x56, 0x82, 0x7f], [0xc9, 0xa7, 0x99, 0x17], [0x6f, 0x29, 0x4c, 0xec],
    [0x6c, 0xd5, 0x59, 0x8b], [0x3d, 0xe2, 0x3a, 0x75], [0x52, 0x47, 0x75, 0xe7],
    [0x27, 0xbf, 0x9e, 0xb4], [0x54, 0x07, 0xcf, 0x39], [0x0b, 0xdc, 0x90, 0x5f],
    [0xc2, 0x7b, 0x09, 0x48], [0xad, 0x52, 0x45, 0xa4], [0xc1, 0x87, 0x1c, 0x2f],
    [0x45, 0xf5, 0xa6, 0x60], [0x17, 0xb2, 0xd3, 0x87], [0x30, 0x0d, 0x4d, 0x33],
    [0x64, 0x0a, 0x82, 0x0a], [0x7c, 0xcf, 0xf7, 0x1c], [0xbe, 0xb4, 0xfe, 0x54],
    [0x13, 0xe6, 0xbb, 0xf0], [0xd2, 0x61, 0xa7, 0xdf], [0xf0, 0x1a, 0xfa, 0xfe],
    [0xe7, 0xa8, 0x29, 0x79], [0xd7, 0xa5, 0x64, 0x4a], [0xb3, 0xaf, 0xe6, 0x40],
    [0x25, 0x41, 0xfe, 0x71], [0x9b, 0xf5, 0x00, 0x25], [0x88, 0x13, 0xbb, 0xd5],
    [0x5a, 0x72, 0x1c, 0x0a], [0x4e, 0x5a, 0x66, 0x99], [0xa9, 0xf2, 0x4f, 0xe0],
    [0x7e, 0x57, 0x2b, 0xaa], [0xcd, 0xf8, 0xcd, 0xea], [0x24, 0xfc, 0x79, 0xcc],
    [0xbf, 0x09, 0x79, 0xe9], [0x37, 0x1a, 0xc2, 0x3c], [0x6d, 0x68, 0xde, 0x36]]"
  by (simp add: aes_eval upt_rec)

lemma vector_round_keys:
  "round_keys (map word_of_nat [0..<32]) =
   [[0x00, 0x01, 0x02, 0x03, 0x04, 0x05, 0x06, 0x07, 0x08, 0x09, 0x0a, 0x0b, 0x0c, 0x0d, 0x0e, 0x0f],
    [0x10, 0x11, 0x12, 0x13, 0x14, 0x15, 0x16, 0x17, 0x18, 0x19, 0x1a, 0x1b, 0x1c, 0x1d, 0x1e, 0x1f],
    [0xa5, 0x73, 0xc2, 0x9f, 0xa1, 0x76, 0xc4, 0x98, 0xa9, 0x7f, 0xce, 0x93, 0xa5, 0x72, 0xc0, 0x9c],
    [0x16, 0x51, 0xa8, 0xcd, 0x02, 0x44, 0xbe, 0xda, 0x1a, 0x5d, 0xa4, 0xc1, 0x06, 0x40, 0xba, 0xde],
    [0xae, 0x87, 0xdf, 0xf0, 0x0f, 0xf1, 0x1b, 0x68, 0xa6, 0x8e, 0xd5, 0xfb, 0x03, 0xfc, 0x15, 0x67],
    [0x6d, 0xe1, 0xf1, 0x48, 0x6f, 0xa5, 0x4f, 0x92, 0x75, 0xf8, 0xeb, 0x53, 0x73, 0xb8, 0x51, 0x8d],
    [0xc6, 0x56, 0x82, 0x7f, 0xc9, 0xa7, 0x99, 0x17, 0x6f, 0x29, 0x4c, 0xec, 0x6c, 0xd5, 0x59, 0x8b],
    [0x3d, 0xe2, 0x3a, 0x75, 0x52, 0x47, 0x75, 0xe7, 0x27, 0xbf, 0x9e, 0xb4, 0x54, 0x07, 0xcf, 0x39],
    [0x0b, 0xdc, 0x90, 0x5f, 0xc2, 0x7b, 0x09, 0x48, 0xad, 0x52, 0x45, 0xa4, 0xc1, 0x87, 0x1c, 0x2f],
    [0x45, 0xf5, 0xa6, 0x60, 0x17, 0xb2, 0xd3, 0x87, 0x30, 0x0d, 0x4d, 0x33, 0x64, 0x0a, 0x82, 0x0a],
    [0x7c, 0xcf, 0xf7, 0x1c, 0xbe, 0xb4, 0xfe, 0x54, 0x13, 0xe6, 0xbb, 0xf0, 0xd2, 0x61, 0xa7, 0xdf],
    [0xf0, 0x1a, 0xfa, 0xfe, 0xe7, 0xa8, 0x29, 0x79, 0xd7, 0xa5, 0x64, 0x4a, 0xb3, 0xaf, 0xe6, 0x40],
    [0x25, 0x41, 0xfe, 0x71, 0x9b, 0xf5, 0x00, 0x25, 0x88, 0x13, 0xbb, 0xd5, 0x5a, 0x72, 0x1c, 0x0a],
    [0x4e, 0x5a, 0x66, 0x99, 0xa9, 0xf2, 0x4f, 0xe0, 0x7e, 0x57, 0x2b, 0xaa, 0xcd, 0xf8, 0xcd, 0xea],
    [0x24, 0xfc, 0x79, 0xcc, 0xbf, 0x09, 0x79, 0xe9, 0x37, 0x1a, 0xc2, 0x3c, 0x6d, 0x68, 0xde, 0x36]]"
  unfolding round_keys_def vector_words by (simp add: numeral_steps)

lemma vector_plaintext: "map (\<lambda>i. word_of_nat (17 * i)) [0..<16] =
    ([0x00, 0x11, 0x22, 0x33, 0x44, 0x55, 0x66, 0x77, 0x88, 0x99, 0xaa, 0xbb, 0xcc, 0xdd, 0xee, 0xff] ::
      8 word list)"
  by (simp add: upto_16)

lemma aes256_vector:
  "encrypt_bytes (round_keys (map word_of_nat [0..<32])) (map (\<lambda>i. word_of_nat (17 * i)) [0..<16]) =
   [0x8e, 0xa2, 0xb7, 0xca, 0x51, 0x67, 0x45, 0xbf, 0xea, 0xfc, 0x49, 0x90, 0x4b, 0x49, 0x60, 0x89]"
  unfolding vector_round_keys vector_plaintext encrypt_bytes_def list.sel
  by (simp add: aes_eval)

end
