(* ===== verification/Crypto.thy ===== *)
theory Crypto
  imports Api_Errors Aes
begin

text \<open>
  \<open>go/internal/crypto/encryption.go\<close>: the key material, AES-256-GCM encryption of fields and the
  PCI masking functions.  A \<open>[]byte\<close> is a string.  Base64, hexadecimal and the GCM mode are
  modelled as the standard library defines them, over the AES of theory \<open>Aes\<close>; what
  \<open>rand.Reader\<close> yields is a parameter.
\<close>

unbundle bit_operations_syntax

section \<open>Base64\<close>

definition b64_char :: "nat \<Rightarrow> char" where
  "b64_char n =
     (if n < 26 then char_of (65 + n) else if n < 52 then char_of (71 + n)
      else if n < 62 then char_of (n - 4) else if n = 62 then CHR ''+'' else CHR ''/'')"

definition b64_value :: "char \<Rightarrow> nat option" where
  "b64_value c = (let n = byte c in
     if 65 \<le> n \<and> n \<le> 90 then Some (n - 65)
     else if 97 \<le> n \<and> n \<le> 122 then Some (n - 71)
     else if 48 \<le> n \<and> n \<le> 57 then Some (n + 4)
     else if c = CHR ''+'' then Some 62
     else if c = CHR ''/'' then Some 63 else None)"

fun b64_encode :: "string \<Rightarrow> string" where
  "b64_encode (x # y # z # rest) =
     [b64_char (byte x div 4), b64_char (byte x mod 4 * 16 + byte y div 16),
      b64_char (byte y mod 16 * 4 + byte z div 64), b64_char (byte z mod 64)] @ b64_encode rest"
| "b64_encode [x, y] =
     [b64_char (byte x div 4), b64_char (byte x mod 4 * 16 + byte y div 16),
      b64_char (byte y mod 16 * 4), CHR ''='']"
| "b64_encode [x] = [b64_char (byte x div 4), b64_char (byte x mod 4 * 16), CHR ''='', CHR ''='']"
| "b64_encode [] = []"

text \<open>The bytes of the first two, three or four digits of a group; excess bits are dropped.\<close>

definition two_digits :: "char \<Rightarrow> char \<Rightarrow> string option" where
  "two_digits c d =
     Option.bind (b64_value c) (\<lambda>i. Option.bind (b64_value d) (\<lambda>j.
       Some [char_of (i * 4 + j div 16)]))"

definition three_digits :: "char \<Rightarrow> char \<Rightarrow> char \<Rightarrow> string option" where
  "three_digits c d e =
     Option.bind (b64_value c) (\<lambda>i. Option.bind (b64_value d) (\<lambda>j.
     Option.bind (b64_value e) (\<lambda>k.
       Some [char_of (i * 4 + j div 16), char_of (j mod 16 * 16 + k div 4)])))"

definition four_digits :: "char \<Rightarrow> char \<Rightarrow> char \<Rightarrow> char \<Rightarrow> string option" where
  "four_digits c d e f =
     Option.bind (b64_value c) (\<lambda>i. Option.bind (b64_value d) (\<lambda>j.
     Option.bind (b64_value e) (\<lambda>k. Option.bind (b64_value f) (\<lambda>l.
       Some [char_of (i * 4 + j div 16), char_of (j mod 16 * 16 + k div 4),
             char_of (k mod 4 * 64 + l)]))))"

fun b64_groups :: "string \<Rightarrow> string option" where
  "b64_groups [] = Some []"
| "b64_groups (c # d # e # f # rest) =
     (if f = CHR ''=''
      then if rest \<noteq> [] then None
           else if e = CHR ''='' then two_digits c d else three_digits c d e
      else Option.bind (four_digits c d e f) (\<lambda>out. map_option ((@) out) (b64_groups rest)))"
| "b64_groups _ = None"

text \<open>\<open>StdEncoding.DecodeString\<close> skips carriage returns and line feeds.\<close>

definition b64_decode :: "string \<Rightarrow> string option" where
  "b64_decode s = b64_groups (filter (\<lambda>c. byte c \<noteq> 10 \<and> byte c \<noteq> 13) s)"

section \<open>Hexadecimal\<close>

definition hex_digit_value :: "char \<Rightarrow> nat option" where
  "hex_digit_value c = (let n = byte c in
     if 48 \<le> n \<and> n \<le> 57 then Some (n - 48)
     else if 97 \<le> n \<and> n \<le> 102 then Some (n - 87)
     else if 65 \<le> n \<and> n \<le> 70 then Some (n - 55) else None)"

fun hex_decode :: "string \<Rightarrow> string option" where
  "hex_decode [] = Some []"
| "hex_decode [c] = None"
| "hex_decode (c # d # rest) =
     Option.bind (hex_digit_value c) (\<lambda>i. Option.bind (hex_digit_value d) (\<lambda>j.
       map_option ((#) (char_of (16 * i + j))) (hex_decode rest)))"

section \<open>The key\<close>

record encryption_service =
  es_enabled :: bool
  es_key :: string

definition key_not_decodable :: go_error where
  "key_not_decodable = ErrText ''encryption key must be base64 or hex''"

definition key_wrong_size :: go_error where
  "key_wrong_size = ErrText ''encryption key must be 32 bytes (AES-256)''"

definition key_missing :: go_error where
  "key_missing = ErrText ''encryption enabled but ENCRYPTION_KEY is empty''"

definition decodeKey :: "string \<Rightarrow> go_error + string" where
  "decodeKey encoded =
     (case b64_decode encoded of
        Some decoded \<Rightarrow> Inr decoded
      | None \<Rightarrow> (case hex_decode encoded of Some decoded \<Rightarrow> Inr decoded
                 | None \<Rightarrow> Inl key_not_decodable))"

definition NewEncryptionService :: "bool \<Rightarrow> string \<Rightarrow> go_error + encryption_service" where
  "NewEncryptionService enabled keyMaterial =
     (if \<not> enabled then Inr \<lparr>es_enabled = enabled, es_key = []\<rparr>
      else if keyMaterial = [] then Inl key_missing
      else case decodeKey keyMaterial of
             Inl err \<Rightarrow> Inl err
           | Inr key \<Rightarrow> if length key \<noteq> 32 then Inl key_wrong_size
                        else Inr \<lparr>es_enabled = enabled, es_key = key\<rparr>)"

definition es_IsEnabled :: "encryption_service \<Rightarrow> bool" where
  "es_IsEnabled s \<longleftrightarrow> es_enabled s \<and> length (es_key s) = 32"

section \<open>Galois/Counter Mode\<close>

text \<open>Blocks are 128-bit words, the first byte the most significant.\<close>

definition block_of :: "string \<Rightarrow> block" where
  "block_of s = word_of_nat (foldl (\<lambda>n c. 256 * n + byte c) 0 (take 16 (s @ replicate 16 (char_of (0 :: nat)))))"

definition block_bytes :: "block \<Rightarrow> string" where
  "block_bytes b = map (\<lambda>i. char_of (unat b div 256 ^ (15 - i) mod 256)) [0..<16]"

text \<open>Multiplication in the field of GHASH: bit 127 is the coefficient of \<open>x\<^sup>0\<close>.\<close>

definition gf_step :: "block \<Rightarrow> block" where
  "gf_step v = (let shifted = drop_bit 1 v
     in if bit v 0 then shifted XOR push_bit 120 0xE1 else shifted)"

fun gf_mult :: "nat \<Rightarrow> block \<Rightarrow> block \<Rightarrow> block \<Rightarrow> block" where
  "gf_mult 0 x v z = z"
| "gf_mult (Suc n) x v z = gf_mult n x (gf_step v) (if bit x n then z XOR v else z)"

fun blocks_of :: "string \<Rightarrow> nat \<Rightarrow> block list" where
  "blocks_of s 0 = []"
| "blocks_of s (Suc n) = block_of (take 16 s) # blocks_of (drop 16 s) n"

definition ghash :: "block \<Rightarrow> string \<Rightarrow> block" where
  "ghash h ct =
     (let body = blocks_of ct ((length ct + 15) div 16);
          len = word_of_nat (8 * length ct)
      in foldl (\<lambda>y b. gf_mult 128 (y XOR b) h 0) 0 (body @ [len]))"

text \<open>The counter is the last 32 bits of a block.\<close>

definition counter_block :: "string \<Rightarrow> nat \<Rightarrow> block" where
  "counter_block nonce i =
     block_of (nonce @ replicate 4 (char_of (0 :: nat))) OR word_of_nat (i mod 2 ^ 32)"

definition keystream :: "(block \<Rightarrow> block) \<Rightarrow> string \<Rightarrow> nat \<Rightarrow> string" where
  "keystream cipher nonce n =
     take n (concat (map (\<lambda>i. block_bytes (cipher (counter_block nonce (i + 2)))) [0..<(n + 15) div 16]))"

definition xor_char :: "char \<Rightarrow> char \<Rightarrow> char" where
  "xor_char a b = char_of (byte a XOR byte b)"

definition xor_bytes :: "string \<Rightarrow> string \<Rightarrow> string" where
  "xor_bytes ks s = map2 xor_char ks s"

definition gcm_tag :: "(block \<Rightarrow> block) \<Rightarrow> string \<Rightarrow> string \<Rightarrow> string" where
  "gcm_tag cipher nonce ct =
     block_bytes (cipher (counter_block nonce 1) XOR ghash (cipher 0) ct)"

definition gcm_Seal :: "(block \<Rightarrow> block) \<Rightarrow> string \<Rightarrow> string \<Rightarrow> string" where
  "gcm_Seal cipher nonce plaintext =
     (let ct = xor_bytes (keystream cipher nonce (length plaintext)) plaintext
      in ct @ gcm_tag cipher nonce ct)"

definition gcm_failed :: go_error where
  "gcm_failed = ErrText ''cipher: message authentication failed''"

definition gcm_Open :: "(block \<Rightarrow> block) \<Rightarrow> string \<Rightarrow> string \<Rightarrow> go_error + string" where
  "gcm_Open cipher nonce sealed =
     (if length sealed < 16 then Inl gcm_failed
      else let ct = take (length sealed - 16) sealed; tag = drop (length sealed - 16) sealed
           in if tag \<noteq> gcm_tag cipher nonce ct then Inl gcm_failed
              else Inr (xor_bytes (keystream cipher nonce (length ct)) ct))"

section \<open>Encryption\<close>

definition aesGCMNonceSize :: nat where "aesGCMNonceSize = 12"
definition aesGCMTagSize :: nat where "aesGCMTagSize = 16"

text \<open>\<open>nonce\<close> is what reading the random source yields.  With a key of that size the constructors of the cipher do not fail.\<close>

definition es_Encrypt :: "encryption_service \<Rightarrow> go_error + string \<Rightarrow>
    string \<Rightarrow> go_error + string" where
  "es_Encrypt s nonce plaintext =
     (if \<not> es_IsEnabled s \<or> plaintext = [] then Inr plaintext
      else case nonce of
             Inl err \<Rightarrow> Inl err
           | Inr n \<Rightarrow> Inr (b64_encode (n @ gcm_Seal (aes256 (es_key s)) n plaintext)))"

definition ciphertext_corrupt :: go_error where
  "ciphertext_corrupt = ErrText ''illegal base64 data''"

definition ciphertext_too_short :: go_error where
  "ciphertext_too_short = ErrText ''ciphertext too short''"

definition es_Decrypt :: "encryption_service \<Rightarrow> string \<Rightarrow>
    go_error + string" where
  "es_Decrypt s ciphertext =
     (if \<not> es_IsEnabled s \<or> ciphertext = [] then Inr ciphertext
      else case b64_decode ciphertext of
             None \<Rightarrow> Inl ciphertext_corrupt
           | Some decoded \<Rightarrow>
               if length decoded < aesGCMNonceSize + aesGCMTagSize then Inl ciphertext_too_short
               else gcm_Open (aes256 (es_key s)) (take aesGCMNonceSize decoded)
                      (drop aesGCMNonceSize decoded))"

section \<open>Masking\<close>

definition MaskCardNumber :: "string \<Rightarrow> string" where
  "MaskCardNumber cardNumber =
     (if length cardNumber < 4 then ''****''
      else replicate (length cardNumber - 4) (CHR ''*'') @ drop (length cardNumber - 4) cardNumber)"

definition MaskCvv :: "string \<Rightarrow> string" where
  "MaskCvv cvv = ''***''"

definition MaskEmail :: "string \<Rightarrow> string" where
  "MaskEmail email =
     (if \<not> Contains email ''@'' then ''***@***''
      else let pos = IndexByte email (CHR ''@'')
           in if pos \<le> 1 then ''*'' @ drop pos email
              else [email ! 0] @ ''***'' @ drop pos email)"

definition MaskToken :: "string \<Rightarrow> string" where
  "MaskToken token =
     (if length token < 8 then ''****''
      else take 4 token @ ''...'' @ drop (length token - 4) token)"

definition MaskAddress :: "string \<Rightarrow> string" where
  "MaskAddress address = (if length address < 5 then ''***'' else take 3 address @ ''***'')"

section \<open>Round trips\<close>

lemma b64_value_char: "n < 64 \<Longrightarrow> b64_value (b64_char n) = Some n"
  by (auto simp: b64_value_def b64_char_def byte_def Let_def of_char_of take_bit_eq_mod)

lemma b64_char_plain:
  "n < 64 \<Longrightarrow> b64_char n \<noteq> CHR ''='' \<and> byte (b64_char n) \<noteq> 10 \<and> byte (b64_char n) \<noteq> 13"
proof -
  assume "n < 64"
  then have "b64_value (b64_char n) = Some n" by (rule b64_value_char)
  then show ?thesis by (auto simp: b64_value_def byte_def Let_def split: if_splits)
qed

lemma byte_parts:
  "byte x div 4 < 64" "byte x mod 4 * 16 + byte y div 16 < 64" "byte x mod 4 * 16 < 64"
  "byte y mod 16 * 4 + byte z div 64 < 64" "byte y mod 16 * 4 < 64" "byte z mod 64 < 64"
  using byte_less [of x] byte_less [of y] byte_less [of z] by linarith+

lemma byte_div:
  "byte x div 16 div 16 = 0" "byte x div 16 mod 16 = byte x div 16"
  "byte x div 64 div 4 = 0" "byte x div 64 mod 4 = byte x div 64"
proof -
  have "byte x div 16 < 16" "byte x div 64 < 4" using byte_less [of x] by linarith+
  then show "byte x div 16 div 16 = 0" "byte x div 16 mod 16 = byte x div 16"
    "byte x div 64 div 4 = 0" "byte x div 64 mod 4 = byte x div 64" by simp_all
qed

lemma b64_round_trip: "b64_groups (b64_encode s) = Some s"
  by (induction s rule: b64_encode.induct)
    (simp_all add: b64_char_plain b64_value_char byte_parts byte_div two_digits_def
      three_digits_def four_digits_def)

lemma b64_encode_plain: "filter (\<lambda>c. byte c \<noteq> 10 \<and> byte c \<noteq> 13) (b64_encode s) = b64_encode s"
  by (induction s rule: b64_encode.induct)
    (simp_all add: b64_char_plain byte_parts, simp_all add: byte_def)

lemma b64_decode_encode: "b64_decode (b64_encode s) = Some s"
  by (simp add: b64_decode_def b64_encode_plain b64_round_trip)

lemma b64_encode_Nil: "b64_encode s = [] \<longleftrightarrow> s = []"
  by (cases s rule: b64_encode.cases) simp_all

lemma xor_small: "a < 256 \<Longrightarrow> b < 256 \<Longrightarrow> a XOR b < (256 :: nat)"
  using take_bit_nat_less_exp [of 8 "a XOR b"]
  by (simp add: take_bit_nat_eq_self)

lemma xor_char_twice: "xor_char k (xor_char k c) = c"
  by (simp add: xor_char_def byte_char_of xor_small flip: xor.assoc)

lemma xor_bytes_twice: "length ks = length s \<Longrightarrow> xor_bytes ks (xor_bytes ks s) = s"
  by (induction ks s rule: list_induct2) (simp_all add: xor_bytes_def xor_char_twice)

lemma length_block_bytes [simp]: "length (block_bytes b) = 16"
  by (simp add: block_bytes_def)

lemma length_keystream [simp]: "length (keystream cipher nonce n) = n"
proof -
  have "length (concat (map (\<lambda>i. block_bytes (f i)) xs)) = 16 * length xs" for f :: "nat \<Rightarrow> block" and xs
    by (induction xs) simp_all
  moreover have "n \<le> 16 * ((n + 15) div 16)" by linarith
  ultimately show ?thesis by (simp add: keystream_def)
qed

lemma length_xor_bytes [simp]: "length (xor_bytes ks s) = min (length ks) (length s)"
  by (simp add: xor_bytes_def)

lemma length_gcm_tag [simp]: "length (gcm_tag cipher nonce ct) = 16"
  by (simp add: gcm_tag_def)

lemma gcm_Open_Seal: "gcm_Open cipher nonce (gcm_Seal cipher nonce s) = Inr s"
  by (simp add: gcm_Open_def gcm_Seal_def Let_def xor_bytes_twice)

lemma length_gcm_Seal: "length (gcm_Seal cipher nonce s) = length s + 16"
  by (simp add: gcm_Seal_def Let_def)

lemma gcm_Open_iff: "gcm_Open cipher nonce sealed = Inr s \<longleftrightarrow> sealed = gcm_Seal cipher nonce s"
proof
  assume opened: "gcm_Open cipher nonce sealed = Inr s"
  define ct where "ct = take (length sealed - 16) sealed"
  from opened have "drop (length sealed - 16) sealed = gcm_tag cipher nonce ct"
    and s: "s = xor_bytes (keystream cipher nonce (length ct)) ct"
    by (auto simp: gcm_Open_def Let_def ct_def split: if_splits)
  then have "sealed = ct @ gcm_tag cipher nonce ct"
    by (metis append_take_drop_id ct_def)
  moreover have "xor_bytes (keystream cipher nonce (length s)) s = ct"
    by (simp add: s xor_bytes_twice)
  ultimately show "sealed = gcm_Seal cipher nonce s" by (simp add: gcm_Seal_def Let_def)
qed (simp add: gcm_Open_Seal)

text \<open>A hexadecimal digit is a base64 digit, so a hexadecimal key is taken for base64.\<close>

lemma hex_is_b64: "hex_digit_value c \<noteq> None \<Longrightarrow> b64_value c \<noteq> None \<and> c \<noteq> CHR ''='' \<and>
    byte c \<noteq> 10 \<and> byte c \<noteq> 13"
  by (auto simp: hex_digit_value_def b64_value_def byte_def Let_def split: if_splits)

lemma b64_groups_digits:
  "length s = 4 * n \<Longrightarrow> list_all (\<lambda>c. b64_value c \<noteq> None \<and> c \<noteq> CHR ''='') s \<Longrightarrow>
     \<exists>out. b64_groups s = Some out \<and> length out = 3 * n"
proof (induction n arbitrary: s)
  case (Suc n)
  then obtain a b c d rest where s: "s = a # b # c # d # rest" "length rest = 4 * n"
    by (auto simp: length_Suc_conv numeral_eq_Suc)
  with Suc obtain out where "b64_groups rest = Some out" "length out = 3 * n" by auto
  with Suc(3) s show ?case by (auto simp: four_digits_def)
qed simp

lemma decodeKey_hex:
  assumes "list_all (\<lambda>c. hex_digit_value c \<noteq> None) s" "length s = 4 * n"
  shows "\<exists>key. decodeKey s = Inr key \<and> length key = 3 * n"
proof -
  have "list_all (\<lambda>c. b64_value c \<noteq> None \<and> c \<noteq> CHR ''='') s"
    "filter (\<lambda>c. byte c \<noteq> 10 \<and> byte c \<noteq> 13) s = s"
    using assms(1) hex_is_b64 by (auto simp: list_all_iff filter_id_conv)
  with b64_groups_digits [OF assms(2)] show ?thesis by (auto simp: decodeKey_def b64_decode_def)
qed

section \<open>The service as a whole\<close>

text \<open>
  C34.  What was encrypted is decrypted to the same text, whether or not encryption is enabled,
  under every key and every nonce of twelve bytes.
\<close>

theorem Decrypt_Encrypt:
  assumes "length nonce = aesGCMNonceSize"
  shows "\<exists>c. es_Encrypt s (Inr nonce) plaintext = Inr c \<and> es_Decrypt s c = Inr plaintext"
  using assms
  by (auto simp: es_Encrypt_def es_Decrypt_def b64_encode_Nil b64_decode_encode gcm_Open_Seal
      length_gcm_Seal aesGCMNonceSize_def aesGCMTagSize_def)

theorem Decrypt_Encrypt_witness:
  "\<exists>c. es_Encrypt \<lparr>es_enabled = True, es_key = replicate 32 (CHR ''k'')\<rparr>
       (Inr (replicate 12 (CHR ''n''))) ''4242424242424242'' = Inr c \<and>
     es_Decrypt \<lparr>es_enabled = True, es_key = replicate 32 (CHR ''k'')\<rparr> c =
       Inr ''4242424242424242''"
  by (rule Decrypt_Encrypt) (simp add: aesGCMNonceSize_def)

text \<open>
  C35.  A field is decrypted only when it is what encryption under the same key makes of the text
  it is decrypted to, with some nonce: whatever has been changed in between, or was encrypted under
  another key, is either exactly such a text again or refused.
\<close>

theorem only_sealed_fields_decrypt:
  assumes "es_IsEnabled s" and "c \<noteq> []"
  shows "es_Decrypt s c = Inr plaintext \<longleftrightarrow> (\<exists>nonce. length nonce = aesGCMNonceSize \<and>
    b64_decode c = Some (nonce @ gcm_Seal (aes256 (es_key s)) nonce plaintext))"
proof
  assume "es_Decrypt s c = Inr plaintext"
  with assms obtain d where d: "b64_decode c = Some d" "aesGCMNonceSize + aesGCMTagSize \<le> length d"
      "gcm_Open (aes256 (es_key s)) (take aesGCMNonceSize d) (drop aesGCMNonceSize d) = Inr plaintext"
    by (auto simp: es_Decrypt_def split: option.splits if_splits)
  from d(3) have "drop aesGCMNonceSize d =
      gcm_Seal (aes256 (es_key s)) (take aesGCMNonceSize d) plaintext"
    by (simp only: gcm_Open_iff)
  with append_take_drop_id [of aesGCMNonceSize d] d(1,2) show "\<exists>nonce. length nonce = aesGCMNonceSize \<and>
      b64_decode c = Some (nonce @ gcm_Seal (aes256 (es_key s)) nonce plaintext)"
    by (intro exI [of _ "take aesGCMNonceSize d"]) simp
next
  assume "\<exists>nonce. length nonce = aesGCMNonceSize \<and>
      b64_decode c = Some (nonce @ gcm_Seal (aes256 (es_key s)) nonce plaintext)"
  with assms show "es_Decrypt s c = Inr plaintext"
    by (auto simp: es_Decrypt_def gcm_Open_Seal length_gcm_Seal aesGCMTagSize_def)
qed

theorem only_sealed_fields_decrypt_witness:
  "es_Decrypt \<lparr>es_enabled = True, es_key = replicate 32 (CHR ''k'')\<rparr> ''AAAA'' = Inr ''4242'' \<longleftrightarrow>
   (\<exists>nonce. length nonce = aesGCMNonceSize \<and> b64_decode ''AAAA'' = Some (nonce @ gcm_Seal
     (aes256 (es_key \<lparr>es_enabled = True, es_key = replicate 32 (CHR ''k'')\<rparr>)) nonce ''4242''))"
  by (rule only_sealed_fields_decrypt) (simp_all add: es_IsEnabled_def)

text \<open>
  A key of 32 bytes in base64 is accepted and is the key that is used.
\<close>

theorem base64_key_accepted:
  assumes "length key = 32"
  shows "NewEncryptionService True (b64_encode key) = Inr \<lparr>es_enabled = True, es_key = key\<rparr> \<and>
    es_IsEnabled \<lparr>es_enabled = True, es_key = key\<rparr>"
proof -
  have "key \<noteq> []" using assms by auto
  with assms show ?thesis
    by (simp add: NewEncryptionService_def b64_encode_Nil decodeKey_def b64_decode_encode
        es_IsEnabled_def)
qed

theorem base64_key_accepted_witness:
  "NewEncryptionService True (b64_encode (replicate 32 (CHR ''k''))) =
     Inr \<lparr>es_enabled = True, es_key = replicate 32 (CHR ''k'')\<rparr> \<and>
   es_IsEnabled \<lparr>es_enabled = True, es_key = replicate 32 (CHR ''k'')\<rparr>"
  by (rule base64_key_accepted) simp

text \<open>
  C36.  A key of 32 bytes in hexadecimal, the other form the error message promises, is never
  accepted: its 64 digits are read as base64 and give 48 bytes.
\<close>

theorem hex_key_rejected:
  assumes "list_all (\<lambda>c. hex_digit_value c \<noteq> None) key" and "length key = 64"
  shows "NewEncryptionService True key = Inl key_wrong_size"
proof -
  obtain k where "decodeKey key = Inr k" "length k = 3 * 16"
    using decodeKey_hex [OF assms(1), of 16] assms(2) by auto
  moreover have "key \<noteq> []" using assms(2) by auto
  ultimately show ?thesis by (simp add: NewEncryptionService_def)
qed

theorem hex_key_rejected_witness:
  "NewEncryptionService True (replicate 64 (CHR ''a'')) = Inl key_wrong_size"
  by (rule hex_key_rejected) (simp_all add: list_all_iff hex_digit_value_def byte_def Let_def)

text \<open>
  C37.  The mask of a card number tells its length and its last four characters, and nothing else: two
  numbers (without a star) of four or more characters are masked alike exactly when they agree on these.  Of a shorter number nothing
  is told, not even its length.
\<close>

theorem masked_card_number:
  assumes "CHR ''*'' \<notin> set a" and "CHR ''*'' \<notin> set b"
  shows "MaskCardNumber a = MaskCardNumber b \<longleftrightarrow>
    (if length a < 4 \<or> length b < 4 then length a < 4 \<and> length b < 4
     else length a = length b \<and> drop (length a - 4) a = drop (length b - 4) b)"
proof -
  let ?stars = "\<lambda>n. replicate n (CHR ''*'')"
  have plain: "MaskCardNumber c = ?stars (length c - 4) @ drop (length c - 4) c" if "\<not> length c < 4" for c
    using that by (simp add: MaskCardNumber_def)
  have last: "MaskCardNumber c \<noteq> ''****''" if "CHR ''*'' \<notin> set c" "\<not> length c < 4" for c
  proof -
    have "last c \<in> set c" using that(2) by (cases c rule: rev_cases) auto
    then have "last c \<noteq> CHR ''*''" using that(1) by auto
    moreover have "last (MaskCardNumber c) = last c" using that(2) by (simp add: plain last_drop)
    ultimately show ?thesis by auto
  qed
  show ?thesis
  proof (cases "length a < 4 \<or> length b < 4")
    case True
    moreover have "MaskCardNumber c = ''****''" if "length c < 4" for c
      using that by (simp add: MaskCardNumber_def)
    ultimately show ?thesis using last [OF assms(1)] last [OF assms(2)] by metis
  next
    case False
    then have "length (drop (length a - 4) a) = length (drop (length b - 4) b)" by simp
    then have "?stars (length a - 4) @ drop (length a - 4) a = ?stars (length b - 4) @ drop (length b - 4) b \<longleftrightarrow>
        ?stars (length a - 4) = ?stars (length b - 4) \<and> drop (length a - 4) a = drop (length b - 4) b"
      by (intro append_eq_append_conv disjI2)
    moreover have "?stars (length a - 4) = ?stars (length b - 4) \<longleftrightarrow> length a = length b"
      using False by (auto simp: replicate_eq_replicate)
    ultimately show ?thesis using False by (simp add: plain)
  qed
qed

theorem masked_card_number_witness:
  "MaskCardNumber ''4242424242421881'' = MaskCardNumber ''5555555555551881'' \<and>
   MaskCardNumber ''4242424242421881'' \<noteq> MaskCardNumber ''4242424242421882'' \<and>
   MaskCardNumber ''424'' = MaskCardNumber ''5''"
  using masked_card_number [of "''4242424242421881''" "''5555555555551881''"]
    masked_card_number [of "''4242424242421881''" "''4242424242421882''"]
    masked_card_number [of "''424''" "''5''"]
  by simp

text \<open>
  A masked e-mail address shows the domain and at most the first character of the local
  part: two addresses that agree on these and on whether the local part is longer than one
  character are masked alike.
\<close>

lemma IndexByte_local: "c \<notin> set a \<Longrightarrow> IndexByte (a @ c # d) c = length a"
  by (simp add: IndexByte_def takeWhile_append)

lemma MaskEmail_parts:
  assumes "CHR ''@'' \<notin> set a"
  shows "MaskEmail (a @ ''@'' @ d) =
    (if length a \<le> 1 then ''*'' else hd a # ''***'') @ ''@'' @ d"
proof -
  have "Contains (a @ ''@'' @ d) ''@''" by (rule Contains_append)
  then show ?thesis
    using IndexByte_local [OF assms, of d]
    by (cases a) (auto simp: MaskEmail_def Let_def)
qed

theorem masked_email:
  assumes "CHR ''@'' \<notin> set a" and "CHR ''@'' \<notin> set b"
    and "length a \<le> 1 \<longleftrightarrow> length b \<le> 1" and "take 1 a = take 1 b"
  shows "MaskEmail (a @ ''@'' @ d) = MaskEmail (b @ ''@'' @ d)"
proof -
  have "hd a = hd b" if "1 < length a"
    using that assms(3,4) by (cases a; cases b) simp_all
  with assms(3) show ?thesis
    unfolding MaskEmail_parts [OF assms(1)] MaskEmail_parts [OF assms(2)] by auto
qed

theorem masked_email_witness:
  "MaskEmail (''alice'' @ ''@'' @ ''example.com'') = MaskEmail (''ab'' @ ''@'' @ ''example.com'')"
  by (rule masked_email) simp_all

end
