(* ===== verification/Spec2Isabelle.thy ===== *)
theory Spec2Isabelle
  imports Concurrent_Requests Overlapping_Transactions Ledger_History Access_Control Lost_Confirmations Crypto
begin

text \<open>
  The payment service of the shopping cart (Go, under \<open>src/go\<close>): a model of the whole service,
  from the HTTP handlers to the rows of its PostgreSQL tables, and the theorems that make it
  correct.

  \<^bold>\<open>The program.\<close>  A request arrives at a handler (\<open>internal/payment/handler.go\<close>), which binds and
  validates it and calls one of two services.  \<open>service.go\<close> charges: it looks for an earlier
  payment with the same idempotency key or order, charges the gateway that the router
  (\<open>internal/gateway/gateway.go\<close>) selects, and stores the payment and its audit entry in one
  database transaction.  \<open>refund.go\<close> refunds: it looks for an earlier refund with the same
  correlation id, locks the payment, checks that it may be refunded and that the completed
  refunds leave enough of it, calls the gateway and stores refund, audit entry and new payment
  status, all in one transaction.  \<open>store.go\<close> is the SQL under both, \<open>main.go\<close> puts everything together.

  \<^bold>\<open>Theories\<close>, in the order of their imports, with the code they model (under \<open>src/go\<close>):

    \<^item> \<open>Go_Prelude\<close>: sums as Go results, the part of \<open>strings\<close> the code uses, shared lemmas and the
      collections of rewrite rules; \<open>Runtime\<close>: the world of a request (database, everything outside the
      process, counters of the calls of clock, UUIDs and random source) and Go functions with effects;
      \<open>Decimal_Text\<close>: decimal numerals as text.
    \<^item> \<open>Api_Errors\<close> (\<open>payment/errors.go\<close>): error values, \<open>errors.Is\<close> and \<open>errors.As\<close>, the HTTP error.
    \<^item> \<open>Money\<close> (\<open>payment/money.go\<close>): the decimal library as a record of operations with the laws of
      locale \<open>decimal_laws\<close>, interpreted on exact decimals; \<open>Amount\<close> and its JSON form.
    \<^item> \<open>Domain\<close> (\<open>payment/model.go\<close>), \<open>Dto\<close> (\<open>payment/dto.go\<close>): rows, statuses, request and response bodies.
    \<^item> \<open>Gateway_Api\<close> (\<open>gateway/dto.go\<close>, \<open>gateway.go\<close>): the gateway interface as a record of functions
      with a contract locale, and the router; \<open>Gateways\<close> (\<open>gateway/mock.go\<close>): the mock, Stripe and
      PayPal gateways, each an interpretation of the contract.
    \<^item> \<open>Payment_Store\<close>: the store interface and the transaction runner as a locale over an abstract
      ledger; \<open>Payment_Service\<close> (\<open>payment/service.go\<close>) and \<open>Refund_Service\<close> (\<open>payment/refund.go\<close>): the
      services over that interface; \<open>Ledger_Invariants\<close>: the ledger as a state machine, whose steps
      record one charge or one refund.
    \<^item> \<open>Sql\<close>: values, statements as data and the driver interface; \<open>Sql_Store\<close> (\<open>payment/store.go\<close>):
      every statement, its arguments and the scanning of its rows; \<open>Sql_Contract\<close>: what the store needs
      of a database, as a locale, and that a store over it is a \<open>Payment_Store\<close>; \<open>Postgres\<close>: an
      executable database with the tables of the migrations
      (\<open>src/src/main/resources/db/migration\<close>), which satisfies that locale.
    \<^item> \<open>Http_Handler\<close> (\<open>payment/handler.go\<close>), \<open>Http_Middleware\<close> (\<open>httpx/middleware.go\<close>,
      \<open>health/health.go\<close>), \<open>Config\<close> (\<open>config/config.go\<close>), \<open>Crypto\<close> (\<open>crypto/encryption.go\<close>) over \<open>Aes\<close>, and
      \<open>Server\<close>, \<open>Engine\<close> and \<open>Main_Process\<close> (\<open>cmd/server/main.go\<close>): the remaining components, and
      the program put together: the services over the store, the handlers behind the middleware, and
      \<open>main\<close> from connecting to shutting down.
    \<^item> \<open>Sample_Ledger\<close>: a small database at which properties are applied.  \<open>Availability\<close> and
      \<open>Healthy_Store\<close>: what the reads and the writes of the store do when no database call fails and
      the values fit their columns; \<open>Liveness\<close>: that the services then succeed.
    \<^item> \<open>Concurrent_Requests\<close>: the two services taken apart into phases, and the interleavings of the
      phases of many requests.  \<open>Overlapping_Transactions\<close>: transactions that are open at the same
      time, as far as the rows their statements have locked let them.
    \<^item> \<open>Ledger_History\<close>: what a later moment of a run keeps of an earlier one.  \<open>Access_Control\<close>: which
      statuses are answered, and what the answers do not depend on.  \<open>Lost_Confirmations\<close>: runs in which
      the service does not hear that the database has committed.

  \<^bold>\<open>How state and effects are modelled.\<close>  A Go function with effects is a function from a world to
  its results and the next world.  Every SQL statement, \<open>Begin\<close> and \<open>Commit\<close> may fail: the database
  carries a list of faults that decides which call fails, and the theorems quantify over it.
  SELECT ... FOR UPDATE locks the rows it returns to the end of the transaction.
  The gateways' side of the world is the Stripe API's state (a type variable), the mock's tokens
  and its random draws: "nothing was charged" says that it is unchanged, "charged exactly once" that
  a single gateway call leads from the world before to the world after.
  Errors are the left values of a sum.  SQL is data: a statement names its table, columns,
  condition and order, and the database interprets it, so a wrong column or a swapped
  argument of the code would be one of the model.

  \<^bold>\<open>What the theorems show.\<close>  The ledger, an abstraction of the three tables, keeps its invariant
  under every sequence of requests, ticks and failures (C1, C19), under every interleaving of
  concurrent ones (C2) and of open transactions (C3), never loses what it holds (C4), and each request
  refines one step of it (C5, C6, C7).  A refund that is not covered is refused before any gateway
  is called (C8); when nothing fails, every covered refund is granted (C9) and every new payment goes
  through (C10).  Repeated requests are answered from the store (C11, C12), and so is the loser of a
  race for an idempotency key (C13), though both racers may have charged (C24), and racing copies of
  a refund are both recorded (C25); a key padded with white space is charged again (C20).  When the confirmation of a commit is lost, only answers differ
  (C14), and a customer who repeats such a request is not charged again (C15).  Reads change nothing
  (C16), the answers of the handlers agree with the ledger (C17, C18), the limiter guards the payment
  endpoints (C21), every request is answered and logged (C22), no answer depends on credentials or on
  the OAuth2 and encryption settings (C23), and what is stored is what is read (C26, C27).
  The leaf components follow: errors, amounts on the wire and in the column, router, gateways,
  encryption, masking, the connection URI, the rate limiter's clients and sweep (C28 to C40).

  \<^bold>\<open>Parameters and hypotheses.\<close>  Not under \<open>src/\<close>, hence arguments of the definitions: gin's binding of a
  request, the Stripe client, the token bucket of \<open>golang.org/x/time/rate\<close>, the decimal library and the
  driver of pgx with laws (both interpreted on concrete instances).  \<open>strconv.ParseFloat\<close>, the page of
  the metrics, the clock, the source of random numbers and UUIDs are parameters too; so are gin's choice of
  a route or of a redirect to one (status 301 for GET, 307 otherwise, as gin documents), and of zap its
  level names, the failure of \<open>Build\<close> and which entries with the same message its sampling keeps.

  \<^bold>\<open>Bounds and termination.\<close>  All loops are structural recursions over the rows, clients or characters
  they walk, without fuel; the phases of a request are run five and three
  times, which \<open>phases_terminate\<close> shows to be enough.  Amounts are exact decimals; their column keeps four decimals of
  at most nineteen digits and refuses more, \<open>int64\<close> of the Stripe amount wraps.

  \<^bold>\<open>Not modelled.\<close>  Of a transaction, its statements after the lock are run at one moment; what
  others commit may come between its lock and its commit, but not between two of its statements.
  Sockets and TLS: the requests that arrive, how serving ends and what \<open>Shutdown\<close> returns are
  parameters of \<open>main\<close>, as are the sink of the log and the metrics page; the time-outs of contexts are
  among the failures of the calls.  Panics while a request is served (the code has none of its own in these
  paths) and the rollback they cause.  \<open>VARCHAR\<close> counts bytes and refuses overlong values even when the
  excess is spaces; text is taken to be valid UTF-8 without the character NUL, which PostgreSQL refuses.
  The body of a redirect; the rows that INSERT and UPDATE lock.
  The indexes for speed and the table \<open>payment_methods\<close>, which the Go code never touches; the earlier
  Java implementation.
\<close>

section \<open>The service over its database\<close>

text \<open>The two services of the server that \<open>main\<close> builds, over the database of \<open>Postgres\<close>.\<close>

abbreviation payment_service :: "exact env \<Rightarrow> 'x stripe_api \<Rightarrow> config \<Rightarrow> (exact, pg, 'x) service" where
  "payment_service E api cfg \<equiv> h_paymentService (server_handler (with_libs E) api cfg pg_pool)"

abbreviation refund_service :: "exact env \<Rightarrow> 'x stripe_api \<Rightarrow> config \<Rightarrow> (exact, pg, 'x) service" where
  "refund_service E api cfg \<equiv> h_refundService (server_handler (with_libs E) api cfg pg_pool)"

abbreviation ledger :: "(pg, 'x) world \<Rightarrow> exact ledger" where
  "ledger w \<equiv> pg_ledger (w_db w)"

lemmas pg_views = pg_ledger_def [symmetric] pg_amount_def [symmetric]

lemma services_ok: "store.txs.svc_ok E (payment_service E api cfg)"
    "store.txs.svc_ok E (refund_service E api cfg)"
  using store.server_handler_ok [of E api cfg] unfolding store.txs.handler_ok_def by blast+

text \<open>
  C1.  Whatever the environment configures, whatever requests arrive, in whatever order, whichever
  database calls fail and however the process ends: every payment in the ledger it leaves is settled,
  its completed refunds are not negative and do not exceed it, it is REFUNDED exactly when they are
  equal to it, no two payments share an idempotency key, and the audit log holds exactly one matching
  entry for every charge and refund.
\<close>

theorem main_keeps_ledger:
  "ledger_ok exact_val (ledger (pr_world (main (with_libs E) api Z R G metrics (pg_New refused)
     ParseFloat g evs ending shutdown (fresh_world faults ext))))"
  unfolding main_def
  by (rule reachable_ok [OF conjunct2 [OF run_sound [OF sound_fresh, unfolded sound_world_def]]])

text \<open>The same of a configured engine and of its handlers alone.\<close>

theorem program_keeps_ledger:
  "ledger_ok exact_val
     (ledger (es_world (snd (run_main E api Z R G metrics cfg evs faults ext))))"
  using reachable_ok [OF conjunct2 [OF run_main_reachable]] .

theorem ledger_always_ok:
  "ledger_ok exact_val (ledger (snd (run_server E api cfg G rs (fresh_world faults ext))))"
  using reachable_ok [OF conjunct2 [OF run_server_reachable]] .

text \<open>
  C4.  Nothing that is recorded is taken back: between any two moments of a run, and when the process
  is restarted with another configuration on the database it has left, the audit log and the refunds
  are only extended, no payment is dropped or reordered, and of a payment's row only the status and
  the time of its last change differ, and only if it was COMPLETED before; FAILED, REFUNDED and
  REFUND_FAILED are final.
\<close>

theorem ledger_never_forgets:
  "extends
     (ledger (es_world (snd (run_main E api Z R G metrics cfg evs1 faults ext))))
     (ledger (es_world (snd (run_main E api Z R G metrics cfg (evs1 @ evs2) faults ext)))) \<and>
   (let w = pr_world (main (with_libs E) api Z R G metrics (pg_New refused) ParseFloat g evs
          ending shutdown (fresh_world faults ext))
    in extends (ledger w) (ledger (pr_world (main (with_libs E2) api2 Z R2 G2 metrics2
          (pg_New refused2) ParseFloat g2 evs2 ending2 shutdown2 w))))"
  unfolding main_def Let_def
  by (intro conjI run_main_extends run_extends run_sound sound_fresh)

text \<open>
  C5.  A served request takes at most one step of the ledger, the recording of one charge or of
  one refund, and a request answered with an error takes none.
\<close>

theorem request_is_one_step:
  assumes "pg_ok (w_db w)"
  shows "case serve (with_libs E) G (server_handler (with_libs E) api cfg pg_pool) ep c w of
    (resp, w') \<Rightarrow> pg_ok (w_db w') \<and>
      (if is_error resp then ledger w' = ledger w
       else step_or_same exact_val pg_amount micros (ledger w) (ledger w'))"
  using store.txs.serve_step [OF store.server_handler_ok assms with_libs_dec]
  unfolding pg_views by (auto split: prod.split)

lemma reachable_lengths:
  "ledger_reachable val ka kt L \<Longrightarrow> length (l_txs L) = length (l_payments L) + length (l_refunds L)"
proof (induction rule: ledger_reachable.induct)
  case (step L L')
  from step(2,3) show ?case
    by (auto elim!: ledger_stepE
        simp: charge_recorded_def refund_recorded_def replace_payment_def)
qed (simp add: empty_ledger_def)

text \<open>The audit log is as long as the payments and the refunds together.\<close>

theorem audit_log_complete:
  "length (l_txs (ledger (snd (run_server E api cfg G rs (fresh_world faults ext))))) =
     length (l_payments (ledger (snd (run_server E api cfg G rs (fresh_world faults ext))))) +
     length (l_refunds (ledger (snd (run_server E api cfg G rs (fresh_world faults ext)))))"
  by (rule reachable_lengths [OF conjunct2 [OF run_server_reachable]])

section \<open>Charges and refunds\<close>

theorem request_is_one_step_witness:
  "case serve (with_libs sample_env) sample_gin
      (server_handler (with_libs sample_env) sample_api sample_config pg_pool) EP_processPayment
      sample_context sample_world of
    (resp, w') \<Rightarrow> pg_ok (w_db w') \<and>
      (if is_error resp then ledger w' = ledger sample_world
       else step_or_same exact_val pg_amount micros (ledger sample_world) (ledger w'))"
  by (rule request_is_one_step [OF sample_world_ok])

text \<open>
  C6.  \<open>ProcessPayment\<close> ends in one of three ways: nothing was charged, and the result is an
  error or an earlier payment with the same idempotency key or a completed one of the same order;
  or the selected gateway was charged exactly once, with the request built from the caller's, and
  the ledger gained exactly the row of that payment and its audit entry; or it was charged once
  and the outcome could not be stored, in which case the ledger is unchanged.
\<close>

theorem ProcessPayment_refines:
  assumes "pg_ok (w_db w)"
  shows "case ProcessPayment (with_libs E) (payment_service E api cfg) req correlationID key w of
    (r, w') \<Rightarrow> pg_ok (w_db w') \<and>
      payment_outcome pg_amount micros (with_libs E) (payment_service E api cfg) req correlationID
        key (ledger w) w r (ledger w') w'"
  using store.txs.ProcessPayment_outcome [OF services_ok(1) assms]
  unfolding pg_views by (auto split: prod.split)

theorem ProcessPayment_refines_witness:
  "case ProcessPayment (with_libs sample_env) (payment_service sample_env sample_api sample_config)
      sample_request ''corr-1'' ''key-2'' sample_world of
    (r, w') \<Rightarrow> pg_ok (w_db w') \<and>
      payment_outcome pg_amount micros (with_libs sample_env)
        (payment_service sample_env sample_api sample_config) sample_request ''corr-1'' ''key-2''
        (ledger sample_world) sample_world r (ledger w') w'"
  by (rule ProcessPayment_refines [OF sample_world_ok])

text \<open>
  C7.  \<open>ProcessRefund\<close> ends in one of three ways: no gateway was called, the ledger is unchanged
  and the result is an error or an earlier refund with the same correlation id; or the payment's
  gateway was asked exactly once for the refund of the given amount, and the ledger gained exactly
  the refund's row and its audit entry, covered by what was left of the payment, whose status
  follows the rest; or it was asked once, an error is returned and the ledger is unchanged.
\<close>

theorem ProcessRefund_refines:
  assumes "pg_ok (w_db w)"
  shows "case ProcessRefund (with_libs E) (refund_service E api cfg) i amount reason who
      correlationID w of
    (r, w') \<Rightarrow> pg_ok (w_db w') \<and>
      refund_outcome exact_val pg_amount micros (with_libs E) (refund_service E api cfg) i amount
        reason correlationID (ledger w) w r (ledger w') w'"
  using store.txs.ProcessRefund_outcome [OF assms with_libs_dec services_ok(2)]
  unfolding pg_views by (auto split: prod.split)

theorem ProcessRefund_refines_witness:
  "case ProcessRefund (with_libs sample_env) (refund_service sample_env sample_api sample_config)
      1 (Exact 6 0) [] [] ''corr-2'' sample_world of
    (r, w') \<Rightarrow> pg_ok (w_db w') \<and>
      refund_outcome exact_val pg_amount micros (with_libs sample_env)
        (refund_service sample_env sample_api sample_config) 1 (Exact 6 0) [] ''corr-2''
        (ledger sample_world) sample_world r (ledger w') w'"
  by (rule ProcessRefund_refines [OF sample_world_ok])

text \<open>
  C8.  A refund whose correlation id is blank or new, of a payment that does not exist, is not open for
  refunds, or has less left than the amount asked for, is refused with an error before any gateway is
  called, and the ledger is unchanged.  (With the correlation id of an earlier refund that one is returned.)
\<close>

theorem uncovered_refund_refused:
  assumes "pg_ok (w_db w)"
    and "\<not> refund_covered exact_val (ledger w) i amount"
    and "blank correlationID \<or> Some correlationID \<notin> r_CorrelationID ` set (l_refunds (ledger w))"
  shows "case ProcessRefund (with_libs E) (refund_service E api cfg) i amount reason who
      correlationID w of
    (r, w') \<Rightarrow> (\<exists>e. r = Inl e) \<and> quiet w w' \<and> ledger w' = ledger w"
proof -
  obtain r w' where run: "ProcessRefund (with_libs E) (refund_service E api cfg) i amount reason who
      correlationID w = (r, w')" by fastforce
  from store.txs.ProcessRefund_refused [OF assms(1) with_libs_dec services_ok(2) _ _ run] assms(2,3)
  show ?thesis unfolding pg_ledger_def by (simp add: run)
qed

theorem uncovered_refund_refused_witness:
  "case ProcessRefund (with_libs sample_env) (refund_service sample_env sample_api sample_config)
      1 (Exact 7 0) [] [] ''corr-2'' sample_world of
    (r, w') \<Rightarrow> (\<exists>e. r = Inl e) \<and> quiet sample_world w' \<and> ledger w' = ledger sample_world"
  by (rule uncovered_refund_refused [OF sample_world_ok])
    (simp_all add: sample_covered sample_keys)

text \<open>
  C11.  An idempotency key that a stored payment carries is answered from the store: no gateway is
  charged, the ledger is unchanged, and a payment that is returned is one with that key.
\<close>

theorem payment_replayed:
  assumes "pg_ok (w_db w)" and "\<not> blank key"
    and "Some key \<in> p_IdempotencyKey ` set (l_payments (ledger w))"
  shows "case ProcessPayment (with_libs E) (payment_service E api cfg) req correlationID key w of
    (r, w') \<Rightarrow> quiet w w' \<and> ledger w' = ledger w \<and>
      (case r of Inl e \<Rightarrow> True | Inr q \<Rightarrow> q \<in> set (l_payments (ledger w)) \<and>
         p_IdempotencyKey q = Some key)"
  using store.txs.ProcessPayment_replay [OF services_ok(1) assms(1,2)] assms(3)
  unfolding pg_ledger_def by (fastforce split: prod.split sum.split)

theorem payment_replayed_witness:
  "case ProcessPayment (with_libs sample_env) (payment_service sample_env sample_api sample_config)
      sample_request ''corr-1'' ''key-1'' sample_world of
    (r, w') \<Rightarrow> quiet sample_world w' \<and> ledger w' = ledger sample_world \<and>
      (case r of Inl e \<Rightarrow> True | Inr q \<Rightarrow> q \<in> set (l_payments (ledger sample_world)) \<and>
         p_IdempotencyKey q = Some ''key-1'')"
  by (rule payment_replayed [OF sample_world_ok sample_not_blank(1) sample_keys(1)])

text \<open>
  C12.  A correlation id that a stored refund carries is answered from the store: no gateway is
  called, the ledger is unchanged, and a refund that is returned is one with that id.
\<close>

theorem refund_replayed:
  assumes "pg_ok (w_db w)" and "\<not> blank correlationID"
    and "Some correlationID \<in> r_CorrelationID ` set (l_refunds (ledger w))"
  shows "case ProcessRefund (with_libs E) (refund_service E api cfg) i amount reason who
      correlationID w of
    (r, w') \<Rightarrow> quiet w w' \<and> ledger w' = ledger w \<and>
      (case r of Inl e \<Rightarrow> True | Inr x \<Rightarrow> x \<in> set (l_refunds (ledger w)) \<and>
         r_CorrelationID x = Some correlationID)"
  using store.txs.ProcessRefund_replay [OF services_ok(2) assms(1,2)] assms(3)
  unfolding pg_ledger_def by (fastforce split: prod.split sum.split)

theorem refund_replayed_witness:
  "case ProcessRefund (with_libs sample_env) (refund_service sample_env sample_api sample_config)
      1 (Exact 4 0) [] [] ''corr-1'' sample_world of
    (r, w') \<Rightarrow> quiet sample_world w' \<and> ledger w' = ledger sample_world \<and>
      (case r of Inl e \<Rightarrow> True | Inr x \<Rightarrow> x \<in> set (l_refunds (ledger sample_world)) \<and>
         r_CorrelationID x = Some ''corr-1'')"
  by (rule refund_replayed [OF sample_world_ok sample_not_blank(2) sample_keys(2)])

text \<open>
  C16.  The five GET endpoints change neither the ledger nor anything outside the database.
\<close>

theorem gets_change_nothing:
  assumes "pg_ok (w_db w)" and "read_only ep"
  shows "case serve (with_libs E) G (server_handler (with_libs E) api cfg pg_pool) ep c w of
    (resp, w') \<Rightarrow> pg_ok (w_db w') \<and> ledger w' = ledger w \<and> quiet w w'"
  using store.txs.read_only_unchanged [OF store.server_handler_ok assms, of "with_libs E" G E api cfg c]
  by (simp add: store.txs.unchanged_def pg_ledger_def case_prod_beta)

theorem gets_change_nothing_witness:
  "case serve (with_libs sample_env) sample_gin
      (server_handler (with_libs sample_env) sample_api sample_config pg_pool) EP_getPayment
      sample_context sample_world of
    (resp, w') \<Rightarrow> pg_ok (w_db w') \<and> ledger w' = ledger sample_world \<and> quiet sample_world w'"
  by (rule gets_change_nothing [OF sample_world_ok]) (simp add: read_only_def)

text \<open>
  C17.  A payment request is answered with an error, and then the ledger is unchanged, or with
  the payment as the ledger holds it when the request has been served, with status 201 when the
  payment is COMPLETED and 202 otherwise.
\<close>

theorem payment_request_answer:
  assumes "pg_ok (w_db w)"
  shows "case h_processPayment (with_libs E) G (server_handler (with_libs E) api cfg pg_pool) c w of
    (resp, w') \<Rightarrow> is_error resp \<and> ledger w' = ledger w \<or>
      (\<exists>p. keep_payment pg_amount micros p \<in> set (l_payments (ledger w')) \<and>
         rp_Body resp = PaymentBody (PaymentResponseFrom p) \<and>
         rp_Status resp = (if p_Status p = PaymentStatusCompleted then 201 else 202))"
proof -
  obtain resp w' where run: "h_processPayment (with_libs E) G
      (server_handler (with_libs E) api cfg pg_pool) c w = (resp, w')" by fastforce
  have "rp_Body (payment_answer x p) = PaymentBody (PaymentResponseFrom p)"
    "rp_Status (payment_answer x p) = (if p_Status p = PaymentStatusCompleted then 201 else 202)"
    for x and p :: "exact payment"
    by (simp_all add: payment_answer_def c_JSON_def status_code_defs Let_def)
  with store.txs.processPayment_answer [OF store.server_handler_ok assms run] run show ?thesis
    unfolding pg_views by fastforce
qed

theorem payment_request_answer_witness:
  "case h_processPayment (with_libs sample_env) sample_gin
      (server_handler (with_libs sample_env) sample_api sample_config pg_pool) sample_context
      sample_world of
    (resp, w') \<Rightarrow> is_error resp \<and> ledger w' = ledger sample_world \<or>
      (\<exists>p. keep_payment pg_amount micros p \<in> set (l_payments (ledger w')) \<and>
         rp_Body resp = PaymentBody (PaymentResponseFrom p) \<and>
         rp_Status resp = (if p_Status p = PaymentStatusCompleted then 201 else 202))"
  by (rule payment_request_answer [OF sample_world_ok])

text \<open>
  C18.  A refund request is answered with an error, and then the ledger is unchanged, or with
  status 200 and the refund as the ledger holds it when the request has been served.
\<close>

theorem refund_request_answer:
  assumes "pg_ok (w_db w)"
  shows "case h_refundPayment (with_libs E) G (server_handler (with_libs E) api cfg pg_pool) c w of
    (resp, w') \<Rightarrow> is_error resp \<and> ledger w' = ledger w \<or>
      (\<exists>r. keep_refund pg_amount micros r \<in> set (l_refunds (ledger w')) \<and>
         resp = c_JSON 200 (RefundBody (RefundResponseFrom r)))"
  using store.txs.refundPayment_answer [OF store.server_handler_ok assms with_libs_dec]
  unfolding pg_views StatusOK_def by (auto split: prod.split)

theorem refund_request_answer_witness:
  "case h_refundPayment (with_libs sample_env) sample_gin
      (server_handler (with_libs sample_env) sample_api sample_config pg_pool) sample_context
      sample_world of
    (resp, w') \<Rightarrow> is_error resp \<and> ledger w' = ledger sample_world \<or>
      (\<exists>r. keep_refund pg_amount micros r \<in> set (l_refunds (ledger w')) \<and>
         resp = c_JSON 200 (RefundBody (RefundResponseFrom r)))"
  by (rule refund_request_answer [OF sample_world_ok])

text \<open>
  C19.  The service fails closed: configured by an empty environment it has no enabled gateway,
  and whatever it is sent, no payment is recorded and nothing outside the database is touched.
\<close>

theorem unconfigured_charges_nothing:
  "ledger (snd (run_server E api (Load parse (\<lambda>_. [])) G rs (fresh_world faults ext))) = empty_ledger \<and>
   w_ext (snd (run_server E api (Load parse (\<lambda>_. [])) G rs (fresh_world faults ext))) = ext"
  by (rule no_gateway_no_change) (simp_all add: Load_def boolEnv_def Let_def)

text \<open>
  An idempotency key is stored without the white space around it: a key that a stored
  payment carries is its own trim, whatever was sent.
\<close>

theorem stored_keys_trimmed:
  "keys_trimmed (ledger (snd (run_server E api cfg G rs (fresh_world faults ext))))"
  by (rule run_server_keys)

text \<open>
  What the validation of a payment request lets through is positive, is kept by the database
  as it is, to the last decimal, and has a currency of three characters.
\<close>

theorem validated_payment_kept:
  assumes "validateProcessPaymentRequest (with_libs E) req = None"
  shows "0 < exact_val (pq_Amount req) \<and> exact_val (pg_amount (pq_Amount req)) = exact_val (pq_Amount req) \<and>
    length (TrimSpace (pq_Currency req)) = 3"
proof -
  have "amount_ok exact_ops (pq_Amount req)"
    using validated_payment [OF assms] by (simp add: with_libs_dec)
  then have "0 < exact_val (pq_Amount req)"
    "exact_val (pg_amount (pq_Amount req)) = exact_val (pq_Amount req)"
    using store.txs.kept_amount unfolding pg_amount_def by blast+
  moreover have "length (TrimSpace (pq_Currency req)) = 3"
    using assms by (simp add: validateProcessPaymentRequest_def split: if_splits)
  ultimately show ?thesis by blast
qed

theorem validated_payment_kept_witness:
  "0 < exact_val (pq_Amount sample_request) \<and>
   exact_val (pg_amount (pq_Amount sample_request)) = exact_val (pq_Amount sample_request) \<and>
   length (TrimSpace (pq_Currency sample_request)) = 3"
  by (rule validated_payment_kept [where E = sample_env, OF sample_request_valid])

text \<open>
  C27.  When no call of the database fails, looking a payment up by its id gives what a search of
  the ledger for that id gives, and \<open>pgx.ErrNoRows\<close> exactly when there is none.
\<close>

theorem lookup_is_search:
  assumes "healthy (w_db w)"
  shows "fst (Store_GetPayment (with_libs E) (NewStore pg_pool) i w) =
    (case find (\<lambda>p. p_ID p = i) (l_payments (ledger w)) of
       None \<Rightarrow> Inl ErrNoRows | Some p \<Rightarrow> Inr p)"
  by (rule GetPayment_find [OF assms])

theorem lookup_is_search_witness:
  "fst (Store_GetPayment (with_libs sample_env) (NewStore pg_pool) 1 sample_world) =
     Inr (payment_of_row exact_ops sample_payment_row)"
  using lookup_is_search [OF sample_world_healthy, of sample_env 1] by (simp add: sample_ledger)

section \<open>Progress\<close>

lemma charged_on_healthy:
  assumes "healthy (w_db w)"
    and "GetGatewayOrDefault (with_libs E) (server_router (with_libs E) api cfg) (pq_Gateway req) = Inr g"
    and "unpaid req key (ledger w)" and "fresh_ids 4 E w"
    and "payment_fits (new_payment (with_libs E) req (gw_GetName g) correlationID key 0 0)"
    and "charge_fits_columns g (payment_gateway_request (with_libs E) req correlationID key)"
  obtains q res w' where
    "ProcessPayment (with_libs E) (payment_service E api cfg) req correlationID key w = (Inr q, w')"
    "healthy (w_db w')" "payment_of_request (with_libs E) req correlationID key q"
    "gateway_charged (with_libs E) (payment_service E api cfg) req correlationID key w res w'"
    "charge_recorded pg_amount micros res q (ledger w) (ledger w')"
proof -
  have g: "GetGatewayOrDefault (with_libs E) (svc_router (payment_service E api cfg)) (pq_Gateway req) =
      Inr g" using assms(2) by (simp only: server_handler_router)
  from ProcessPayment_healthy [OF assms(1) services_ok(1) g assms(3,5,6,4)]
  obtain q w' where run: "ProcessPayment (with_libs E) (payment_service E api cfg) req correlationID key w =
      (Inr q, w')" and h: "healthy (w_db w')" by blast
  have "\<not> earlier_payment req key (ledger w) q"
    using assms(3) by (auto simp: unpaid_def earlier_payment_def)
  with store.txs.ProcessPayment_outcome [OF services_ok(1) healthyD(1) [OF assms(1)] run] that [OF run h]
  show thesis unfolding pg_views payment_outcome_def by blast
qed

text \<open>
  C10.  A new payment goes through: when no database call fails, the gateway the request names (or the
  default one) is registered and enabled, no stored payment answers the request or holds its idempotency
  key, the values of the request and of the gateway's answer fit their columns and the UUIDs drawn are
  new, then \<open>ProcessPayment\<close> returns a payment built from the
  request, the gateway was charged exactly once and the ledger gained exactly that payment, settled
  as the gateway answered, with its audit entry.
\<close>

theorem new_payment_recorded:
  assumes "healthy (w_db w)"
    and "GetGatewayOrDefault (with_libs E) (server_router (with_libs E) api cfg) (pq_Gateway req) = Inr g"
    and "unpaid req key (ledger w)" and "fresh_ids 4 E w"
    and "payment_fits (new_payment (with_libs E) req (gw_GetName g) correlationID key 0 0)"
    and "charge_fits_columns g (payment_gateway_request (with_libs E) req correlationID key)"
  shows "case ProcessPayment (with_libs E) (payment_service E api cfg) req correlationID key w of
    (r, w') \<Rightarrow> healthy (w_db w') \<and>
      (\<exists>q res. r = Inr q \<and> payment_of_request (with_libs E) req correlationID key q \<and>
         gateway_charged (with_libs E) (payment_service E api cfg) req correlationID key w res w' \<and>
         charge_recorded pg_amount micros res q (ledger w) (ledger w'))"
  by (rule charged_on_healthy [OF assms]) auto

theorem new_payment_recorded_witness:
  "case ProcessPayment (with_libs sample_env) (payment_service sample_env sample_api sample_config)
      sample_request [] ''key-2'' sample_world of
    (r, w') \<Rightarrow> healthy (w_db w') \<and>
      (\<exists>q res. r = Inr q \<and> payment_of_request (with_libs sample_env) sample_request [] ''key-2'' q \<and>
         gateway_charged (with_libs sample_env) (payment_service sample_env sample_api sample_config)
           sample_request [] ''key-2'' sample_world res w' \<and>
         charge_recorded pg_amount micros res q (ledger sample_world) (ledger w'))"
  by (rule new_payment_recorded [OF sample_world_healthy sample_gateway(1) sample_unpaid
        sample_fresh_ids sample_payment_fits(1) sample_mock_fits(1)])

text \<open>
  C20.  An idempotency key padded with white space does not protect from a second charge: the lookup takes
  the key as it was sent, but it is stored trimmed.  On a healthy database whose keys are trimmed, as every
  run leaves them, a request whose key is padded and whose trim a stored payment carries (the order being
  unpaid, the gateway enabled, and the values fitting their columns) is charged again; then the unique index
  refuses the row, and the answer is that error, nothing of the charge being stored.
\<close>

theorem padded_key_charges_again:
  fixes g :: "(exact, pg, 'x) payment_gateway"
  assumes "healthy (w_db w)" and "keys_trimmed (ledger w)"
    and "TrimSpace key \<noteq> key" and "\<not> blank key"
    and "Some (TrimSpace key) \<in> p_IdempotencyKey ` set (l_payments (ledger w))"
    and "list_all (\<lambda>q. p_OrderID q \<noteq> pq_OrderID req \<or> p_Status q \<noteq> PaymentStatusCompleted)
      (l_payments (ledger w))"
    and "GetGatewayOrDefault (with_libs E) (server_router (with_libs E) api cfg) (pq_Gateway req) = Inr g"
    and "payment_fits (new_payment (with_libs E) req (gw_GetName g) correlationID key 0 0)"
    and "E_uuid E (w_ids w) \<noteq> 0"
  shows "case ProcessPayment (with_libs E) (payment_service E api cfg) req correlationID key w of
    (r, w') \<Rightarrow> (\<exists>e res. r = Inl e \<and> isUniqueViolation e \<and>
        gateway_charged (with_libs E) (payment_service E api cfg) req correlationID key w res w') \<and>
      ledger w' = ledger w"
proof -
  have g: "GetGatewayOrDefault (with_libs E) (svc_router (payment_service E api cfg)) (pq_Gateway req) =
      Inr g" using assms(7) by (simp only: server_handler_router)
  have "Some key \<notin> p_IdempotencyKey ` set (l_payments (ledger w))"
    using assms(2,3) unfolding keys_trimmed_def list_all_iff by (force split: option.splits)
  from padded_key_processed [OF assms(1) services_ok(1) g assms(4,5) this assms(6,8,9)]
  show ?thesis by fastforce
qed

theorem padded_key_charges_again_witness:
  "case ProcessPayment (with_libs sample_env) (payment_service sample_env sample_api sample_config)
      sample_request [] '' key-1'' sample_world of
    (r, w') \<Rightarrow> (\<exists>e res. r = Inl e \<and> isUniqueViolation e \<and>
        gateway_charged (with_libs sample_env) (payment_service sample_env sample_api sample_config)
          sample_request [] '' key-1'' sample_world res w') \<and>
      ledger w' = ledger sample_world"
proof (rule padded_key_charges_again [OF sample_world_healthy _ _ _ _ _ sample_gateway(1)])
  show "keys_trimmed (ledger sample_world)"
    by (simp add: keys_trimmed_def sample_ledger payment_of_row_def sample_trim)
  show "Some (TrimSpace '' key-1'') \<in> p_IdempotencyKey ` set (l_payments (ledger sample_world))"
    using sample_keys(1) by (simp add: sample_padded)
  show "payment_fits (new_payment (with_libs sample_env) sample_request (gw_GetName sample_mock) []
      '' key-1'' 0 0)"
    using sample_payment_fits(2) [of 0] by (simp add: new_payment_def nullString_def sample_padded sample_trim)
  show "list_all (\<lambda>q. p_OrderID q \<noteq> pq_OrderID sample_request \<or> p_Status q \<noteq> PaymentStatusCompleted)
      (l_payments (ledger sample_world))"
    by (simp add: sample_ledger sample_request_def payment_of_row_def)
qed (simp_all add: sample_padded sample_env_def sample_world_def)

text \<open>
  C9.  On a healthy database a refund with a new correlation id is granted exactly when it is
  covered: the payment exists, is open for refunds and has at least the amount left.  (Its gateway
  has to be enabled, and the values have to fit their columns.)
\<close>

theorem refund_granted_iff_covered:
  assumes "healthy (w_db w)"
    and "blank correlationID \<or> Some correlationID \<notin> r_CorrelationID ` set (l_refunds (ledger w))"
    and "fresh_ids 4 E w"
    and "\<forall>p \<in> set (l_payments (ledger w)). p_ID p = i \<longrightarrow>
      refund_fits (new_refund p i amount reason who correlationID 0 0) \<and>
      (\<exists>g. GetGateway (with_libs E) (server_router (with_libs E) api cfg) (p_Gateway p) = Inr g \<and>
         refunds_fit_columns g)"
  shows "(\<exists>r. fst (ProcessRefund (with_libs E) (refund_service E api cfg) i amount reason who
      correlationID w) = Inr r) \<longleftrightarrow> refund_covered exact_val (ledger w) i amount"
proof
  let ?run = "ProcessRefund (with_libs E) (refund_service E api cfg) i amount reason who correlationID w"
  assume granted: "\<exists>r. fst ?run = Inr r"
  show "refund_covered exact_val (ledger w) i amount"
  proof (rule ccontr)
    assume "\<not> refund_covered exact_val (ledger w) i amount"
    then have "\<not> refund_covered exact_val (ledger_of exact_ops (pg_tables (w_db w))) i amount"
      by (simp add: pg_ledger_def)
    from store.txs.ProcessRefund_refused [OF healthyD(1) [OF assms(1)] with_libs_dec services_ok(2)
        assms(2) [unfolded pg_ledger_def] this] granted
    show False by (cases ?run) fastforce
  qed
next
  assume cov: "refund_covered exact_val (ledger w) i amount"
  then obtain p where p: "p \<in> set (l_payments (ledger w))" "p_ID p = i"
    by (auto simp: refund_covered_def list_ex_iff)
  with assms(4) obtain g where fits: "refund_fits (new_refund p i amount reason who correlationID 0 0)"
    and g: "GetGateway (with_libs E) (svc_router (refund_service E api cfg)) (p_Gateway p) = Inr g"
      "refunds_fit_columns g" by (auto simp: server_handler_router)
  from ProcessRefund_healthy [OF assms(1) services_ok(2) assms(2) p g cov fits assms(3)]
  show "\<exists>r. fst (ProcessRefund (with_libs E) (refund_service E api cfg) i amount reason who
      correlationID w) = Inr r" by fastforce
qed

theorem refund_granted_iff_covered_witness:
  "(\<exists>r. fst (ProcessRefund (with_libs sample_env) (refund_service sample_env sample_api sample_config)
      1 (Exact 6 0) [] [] ''corr-2'' sample_world) = Inr r) \<longleftrightarrow>
   refund_covered exact_val (ledger sample_world) 1 (Exact 6 0)"
proof (rule refund_granted_iff_covered [OF sample_world_healthy _ sample_fresh_ids])
  show "blank ''corr-2'' \<or> Some ''corr-2'' \<notin> r_CorrelationID ` set (l_refunds (ledger sample_world))"
    using sample_keys by blast
qed (simp add: sample_refund_fits sample_gateway(2) sample_mock_fits(2))

section \<open>Requests at the same time\<close>

text \<open>
  C2.  However the phases of concurrent requests interleave, and whichever database calls fail, the
  ledger keeps its invariant, and the payment or refund that a request has been answered with is
  in the ledger and stays there.
\<close>

theorem concurrent_ledger_ok:
  assumes "concurrent (with_libs E) (server_handler (with_libs E) api cfg pg_pool)
    (fresh_world faults ext) rqs w"
  shows "ledger_ok exact_val (ledger w) \<and> list_all (answer_kept pg_amount micros (ledger w)) rqs"
proof -
  have start: "ledger_reachable exact_val pg_amount micros (ledger (fresh_world faults ext))"
    by (simp add: fresh_world_empty ledger_reachable.empty)
  have "ledger_reachable exact_val pg_amount micros (ledger w)"
    using store.txs.concurrent_reachable [OF store.server_handler_ok fresh_world_ok with_libs_dec _ assms]
      start unfolding pg_views by blast
  moreover have "list_all (answer_kept pg_amount micros (ledger w)) rqs"
    using store.txs.concurrent_answers [OF store.server_handler_ok fresh_world_ok with_libs_dec _ assms]
      start unfolding pg_views by blast
  ultimately show ?thesis using reachable_ok by blast
qed

theorem concurrent_ledger_ok_witness:
  "ledger_ok exact_val (ledger (fresh_world (\<lambda>_. None) ())) \<and>
   list_all (answer_kept pg_amount micros (ledger (fresh_world (\<lambda>_. None) ())))
     ([] @ [Payment_Request sample_request [] ''key-2'' Find_Key])"
  by (rule concurrent_ledger_ok [where api = sample_api and cfg = sample_config,
        OF concurrent.payment [OF concurrent.idle sample_request_valid]])

text \<open>
  C3.  Transactions may overlap: others begin and commit while one is open.  Whatever they do, no row is
  locked by two of them; each has recorded a charge, or the refund of a payment whose row its
  SELECT ... FOR UPDATE has locked, and the payments it has locked and their refunds are still as it has
  read them; so, if the keys of its rows are unique, its commit is one step of the ledger that is
  committed by then, and that ledger keeps its invariant.
\<close>

theorem overlapping_transactions_ok:
  assumes "overlapping E (server_handler (with_libs E) api cfg pg_pool) L txs"
  shows "ledger_ok exact_val L \<and> sorted_wrt disjoint_locks txs \<and>
    list_all (\<lambda>t. tx_ok exact_val pg_amount micros L t \<and>
      (unique_rows (rebase t L) \<longrightarrow> ledger_step exact_val pg_amount micros L (rebase t L))) txs"
proof -
  from overlapping_ok [OF store.server_handler_ok assms]
  have ok: "ledger_ok exact_val L" "open_ok exact_val pg_amount micros L txs" by simp_all
  have ids: "distinct (map p_ID (l_payments L))" using ok(1) by (simp add: ledger_ok_def)
  show ?thesis using ok commit_step(1) [OF _ ids] by (auto simp: open_ok_def list_all_iff)
qed

text \<open>The transaction of a payment and that of a refund are open over the sample database.\<close>

lemma sample_begins:
  obtains w1 where "pool_Begin pg_pool sample_world = (Inr (), w1)" "healthy (w_db w1)"
    "pg_ledger (w_db w1) = ledger sample_world" "w_ids w1 = 10"
    "\<forall>n \<in> {10..12}. E_uuid sample_env n \<noteq> 0 \<and>
       E_uuid sample_env n \<notin> t_ID ` set (l_txs (pg_ledger (w_db w1)))"
proof -
  obtain w1 where "tr_begin (sql_runner (with_libs sample_env) pg_pool) sample_world = (Inr (), w1)"
    and w1: "healthy (w_db w1)" "pg_ledger (w_db w1) = ledger sample_world" "w_ids w1 = w_ids sample_world"
    by (rule begin_healthy [OF sample_world_healthy])
  then have "pool_Begin pg_pool sample_world = (Inr (), w1)" by (simp add: sql_runner_def)
  moreover have "E_uuid sample_env n \<noteq> 0 \<and> E_uuid sample_env n \<notin> t_ID ` set (l_txs (pg_ledger (w_db w1)))"
    if "n \<in> {10..12}" for n
  proof -
    from that have "n = 10 \<or> n = 11 \<or> n = 12" by auto
    then show ?thesis
      unfolding w1(2) by (auto simp: sample_env_def sample_world_def pg_ledger_def ledger_of_def transaction_of_row_def)
  qed
  ultimately show thesis using w1 that by (simp add: sample_world_def)
qed

lemma sample_payment_opens:
  "\<exists>t. overlapping sample_env (server_handler (with_libs sample_env) sample_api sample_config pg_pool)
     (ledger sample_world) [t] \<and> ot_locks t = []"
proof -
  let ?E = "with_libs sample_env"
  let ?h = "server_handler ?E sample_api sample_config pg_pool :: (exact, pg, unit) handler"
  let ?p = "new_payment ?E sample_request (gw_GetName sample_mock) [] ''key-2'' 0 11"
  obtain w1 where w1: "pool_Begin pg_pool sample_world = (Inr (), w1)" "healthy (w_db w1)"
    "pg_ledger (w_db w1) = ledger sample_world" "w_ids w1 = 10"
    and ids: "\<forall>n \<in> {10..12}. E_uuid sample_env n \<noteq> 0 \<and>
       E_uuid sample_env n \<notin> t_ID ` set (l_txs (pg_ledger (w_db w1)))"
    by (rule sample_begins)
  obtain q w2 where pay: "persistProcessedPayment ?E (tx_store sample_env) ?p []
      (PaymentResultFailure [] []) 0 w1 = (Inr q, w2)"
  proof (rule persist_healthy [OF w1(2)])
    show "payment_fits ?p"
      using sample_payment_fits(1) by (simp add: payment_fits_def new_payment_def)
    show "result_fits (PaymentResultFailure [] [])"
      by (simp add: result_fits_def PaymentResultFailure_def nullString_def opt_fits_def)
    show "p_ID ?p \<notin> p_ID ` set (l_payments (pg_ledger (w_db w1)))"
      by (simp add: w1(3) new_payment_def sample_ledger payment_of_row_def)
    show "Some k \<notin> p_IdempotencyKey ` set (l_payments (pg_ledger (w_db w1)))"
      if "p_IdempotencyKey ?p = Some k" for k
      using that by (auto simp: w1(3) new_payment_def nullString_def sample_trim sample_ledger payment_of_row_def)
    show "opt_fits 100 (nullString [])" by (simp add: nullString_def opt_fits_def Let_def)
    show "E_uuid sample_env (w_ids w1) \<noteq> 0"
      "E_uuid sample_env (w_ids w1) \<notin> t_ID ` set (l_txs (pg_ledger (w_db w1)))"
      using bspec [OF ids, of 10] by (simp_all add: w1(4))
  qed (simp add: new_payment_def)
  have "pg_locks (w_db w2) = []"
    using persist_unlocked [OF pay] Begin_unlocked [OF w1(1)] by simp
  with overlapping.payment [where h = ?h, OF overlapping.start [OF sample_ledger_ok] sample_world_ok refl
      sample_request_valid w1(1) pay] show ?thesis
    by (intro exI [of _ "opened (w_db w2) (ledger sample_world)"]) (simp add: opened_def granted_def)
qed

lemma sample_refund_runs:
  obtains r w1 w2 where "pool_Begin pg_pool sample_world = (Inr (), w1)"
    "persistRefund (with_libs sample_env) sample_mock (payment_of_row exact_ops sample_payment_row)
       (new_refund (payment_of_row exact_ops sample_payment_row) 1 (Exact 3 0) [] [] ''corr-2'' 0 11)
       1 (Exact 3 0) [] ''corr-2'' (tx_store sample_env) w1 = (Inr r, w2)"
    "(Payments, VUuid 1) \<in> set (pg_locks (w_db w2))"
proof -
  let ?p = "payment_of_row exact_ops sample_payment_row"
  let ?r = "new_refund ?p 1 (Exact 3 0) [] [] ''corr-2'' 0 11"
  obtain w1 where w1: "pool_Begin pg_pool sample_world = (Inr (), w1)" "healthy (w_db w1)"
    "pg_ledger (w_db w1) = ledger sample_world" "w_ids w1 = 10"
    and ids: "\<forall>n \<in> {10..12}. E_uuid sample_env n \<noteq> 0 \<and>
       E_uuid sample_env n \<notin> t_ID ` set (l_txs (pg_ledger (w_db w1)))"
    by (rule sample_begins)
  have contract: "gateway_contract sample_mock"
    unfolding sample_mock_def by (rule mock.gateway_contract_axioms)
  have "\<exists>r w2. persistRefund (with_libs sample_env) sample_mock ?p ?r 1 (Exact 3 0) [] ''corr-2''
      (tx_store sample_env) w1 = (Inr r, w2) \<and> healthy (w_db w2) \<and>
    drawn sample_env 3 {r_ID ?r} (pg_ledger (w_db w1)) (w_ids w1) (pg_ledger (w_db w2)) (w_ids w2)"
  proof (rule persistRefund_healthy [OF w1(2) contract sample_mock_fits(2)])
    show "refund_covered exact_val (pg_ledger (w_db w1)) 1 (Exact 3 0)"
      by (simp add: w1 sample_covered)
    show "refund_fits ?r" using sample_small_refund(1) by (simp add: refund_fits_def new_refund_def)
    show "E_uuid sample_env n \<noteq> 0 \<and> E_uuid sample_env n \<notin> t_ID ` set (l_txs (pg_ledger (w_db w1)))"
      if "w_ids w1 \<le> n" "n \<le> w_ids w1 + 2" for n
      using ids that by (simp add: w1(4))
  qed (simp_all add: w1 new_refund_def sample_ledger refund_of_row_def payment_of_row_def opt_fits_def
      nullString_def sample_trim amount_fits_def cents4_def exact_val_def round_numeral)
  then obtain r w2 where run: "persistRefund (with_libs sample_env) sample_mock ?p ?r 1 (Exact 3 0) []
      ''corr-2'' (tx_store sample_env) w1 = (Inr r, w2)" by blast
  from that [OF w1(1) run persistRefund_locks [OF contract run]] show thesis .
qed

lemma sample_opens:
  "\<exists>t u. overlapping sample_env (server_handler (with_libs sample_env) sample_api sample_config pg_pool)
     (ledger sample_world) [t, u] \<and> locks_payment u 1"
proof -
  let ?E = "with_libs sample_env"
  let ?h = "server_handler ?E sample_api sample_config pg_pool :: (exact, pg, unit) handler"
  obtain t where t: "overlapping sample_env ?h (ledger sample_world) [t]" "ot_locks t = []"
    using sample_payment_opens by blast
  obtain r w1 w2 where run: "pool_Begin pg_pool sample_world = (Inr (), w1)"
    "persistRefund ?E sample_mock (payment_of_row exact_ops sample_payment_row)
       (new_refund (payment_of_row exact_ops sample_payment_row) 1 (Exact 3 0) [] [] ''corr-2'' 0 11)
       1 (Exact 3 0) [] ''corr-2'' (tx_store sample_env) w1 = (Inr r, w2)"
    "(Payments, VUuid 1) \<in> set (pg_locks (w_db w2))" by (rule sample_refund_runs)
  have "GetGateway ?E (svc_router (h_refundService ?h)) (p_Gateway (payment_of_row exact_ops sample_payment_row)) =
      Inr sample_mock"
    using sample_gateway(2) sample_payment_open(2) by (simp add: server_handler_router)
  note overlapping.refund [OF t(1) sample_world_ok refl sample_refund_valid this run(1), simplified, OF run(2)]
  then show ?thesis
    using t(2) run(3) by (intro exI [of _ t] exI [of _ "opened (w_db w2) (ledger sample_world)"])
      (simp add: granted_def locks_payment_def opened_def)
qed

theorem overlapping_transactions_ok_witness:
  "\<exists>t u. overlapping sample_env (server_handler (with_libs sample_env) sample_api sample_config pg_pool)
      (ledger sample_world) [t, u] \<and> locks_payment u 1 \<and>
    ledger_ok exact_val (ledger sample_world) \<and> sorted_wrt disjoint_locks [t, u] \<and>
    list_all (\<lambda>t. tx_ok exact_val pg_amount micros (ledger sample_world) t \<and>
      (unique_rows (rebase t (ledger sample_world)) \<longrightarrow>
        ledger_step exact_val pg_amount micros (ledger sample_world) (rebase t (ledger sample_world)))) [t, u]"
  using sample_opens overlapping_transactions_ok [of sample_env sample_api sample_config "ledger sample_world"]
  by blast

text \<open>
  C13.  Of two requests with the same idempotency key that both come to store their payment, the
  second, on a healthy database and with values that fit their columns, is refused by the unique index,
  stores nothing and is answered with the payment of the first.  The key is one that is stored as it was
  sent, without white space around it.
\<close>

theorem race_loser_gets_winner:
  assumes "healthy (w_db w)" and "p_ID p \<noteq> 0" and "payment_fits p"
    and "p_IdempotencyKey p = Some key" and "\<not> blank key"
    and "Some key \<in> p_IdempotencyKey ` set (l_payments (ledger w))"
  shows "case run_phases 2 (pay_step (with_libs E) (payment_service E api cfg) req correlationID key)
      (Persist p res now) w of
    (ph, w') \<Rightarrow> ledger w' = ledger w \<and>
      (\<exists>q \<in> set (l_payments (ledger w)). ph = Paid (Inr q) \<and> p_IdempotencyKey q = Some key)"
  by (rule race_lost [OF assms(1) services_ok(1) assms(2-6)])

theorem race_loser_gets_winner_witness:
  "case run_phases 2 (pay_step (with_libs sample_env)
      (payment_service sample_env sample_api sample_config) sample_request [] ''key-1'')
      (Persist (new_payment (with_libs sample_env) sample_request (gw_GetName sample_mock) []
         ''key-1'' 0 11) (PaymentResultFailure [] []) 0) sample_world of
    (ph, w') \<Rightarrow> ledger w' = ledger sample_world \<and>
      (\<exists>q \<in> set (l_payments (ledger sample_world)). ph = Paid (Inr q) \<and>
         p_IdempotencyKey q = Some ''key-1'')"
  by (rule race_loser_gets_winner [OF sample_world_healthy _ sample_payment_fits(2) _
        sample_not_blank(1) sample_keys(1)])
    (simp_all add: new_payment_def nullString_def sample_trim)

section \<open>Lost confirmations\<close>

text \<open>
  C14.  When the confirmation of a commit is lost (the database has committed, the service is told of
  an error), only answers differ: whichever confirmations are lost, the process ends with the same
  status and leaves the same database, gateways and clock as when all arrive, hence a sound ledger, and
  every request is given the same answer except that a success may become an error.
\<close>

theorem lost_confirmations:
  "let p = main (with_libs E) api Z R G metrics (pg_New refused) ParseFloat g evs ending shutdown
          (fresh_world faults ext);
       p' = main (with_libs E) api Z R G metrics (unconfirmed_New lost (pg_New refused)) ParseFloat g
          evs ending shutdown (fresh_world faults ext)
   in pr_status p' = pr_status p \<and> pr_world p' = pr_world p \<and> ledger_ok exact_val (ledger (pr_world p')) \<and>
      list_all2 (\<lambda>(rq, resp) (rq', resp'). rq' = rq \<and> (resp' = resp \<or>
        hs_Status resp \<in> {200, 201, 202} \<and> hs_Status resp' \<in> {400, 500})) (pr_answers p) (pr_answers p')"
proof -
  define p where "p = run (with_libs E) api Z R G metrics (pg_New refused) evs ending shutdown
    (Load ParseFloat g) (fresh_world faults ext)"
  define p' where "p' = run (with_libs E) api Z R G metrics (unconfirmed_New lost (pg_New refused)) evs
    ending shutdown (Load ParseFloat g) (fresh_world faults ext)"
  have "sound_world (pr_world p)" unfolding p_def by (rule run_sound [OF sound_fresh])
  then have "ledger_ok exact_val (ledger (pr_world p))"
    unfolding sound_world_def by (blast intro: reachable_ok)
  with run_lost [OF p_def p'_def] show ?thesis
    unfolding Let_def main_def answer_lost_def p_def p'_def by simp
qed



text \<open>
  C24.  But both of them may have charged: on a healthy database, from any ledger that holds no
  payment for the request, two copies of it with the same idempotency key can interleave so that
  the gateway is called for each, with the same request.
\<close>

theorem racing_requests_both_charge:
  assumes "healthy (w_db w)" and "unpaid req key (ledger w)"
    and "validateProcessPaymentRequest (with_libs E) req = None"
    and "GetGatewayOrDefault (with_libs E) (server_router (with_libs E) api cfg) (pq_Gateway req) = Inr g"
  shows "\<exists>wa resa wb wc resb wd pa pb ta tb. quiet w wa \<and>
    gw_ProcessPayment g (payment_gateway_request (with_libs E) req correlationID key) wa = (resa, wb) \<and>
    quiet wb wc \<and>
    gw_ProcessPayment g (payment_gateway_request (with_libs E) req correlationID key) wc = (resb, wd) \<and>
    concurrent (with_libs E) (server_handler (with_libs E) api cfg pg_pool) w
      [Payment_Request req correlationID key (Persist pa resa ta),
       Payment_Request req correlationID key (Persist pb resb tb)] wd"
  by (rule both_charge [OF assms(1) store.server_handler_ok assms(2,3)])
    (simp only: server_handler_router assms(4))

theorem racing_requests_both_charge_witness:
  "\<exists>wa resa wb wc resb wd pa pb ta tb. quiet sample_world wa \<and>
    gw_ProcessPayment sample_mock
      (payment_gateway_request (with_libs sample_env) sample_request [] ''key-2'') wa = (resa, wb) \<and>
    quiet wb wc \<and>
    gw_ProcessPayment sample_mock
      (payment_gateway_request (with_libs sample_env) sample_request [] ''key-2'') wc = (resb, wd) \<and>
    concurrent (with_libs sample_env)
      (server_handler (with_libs sample_env) sample_api sample_config pg_pool) sample_world
      [Payment_Request sample_request [] ''key-2'' (Persist pa resa ta),
       Payment_Request sample_request [] ''key-2'' (Persist pb resb tb)] wd"
  by (rule racing_requests_both_charge [OF sample_world_healthy sample_unpaid sample_request_valid
        sample_gateway(1)])

text \<open>
  C25.  Two copies of a refund request with the same correlation id can interleave so that both are
  granted: when the payment has twice the amount left and the gateway refunds, both find no earlier
  refund, both are answered with a completed refund of their own, and the ledger holds both.
\<close>

theorem racing_refunds_both_recorded:
  fixes g :: "(exact, pg, 'x) payment_gateway" and w :: "(pg, 'x) world"
  assumes "healthy (w_db w)" and "p \<in> set (l_payments (ledger w))" and "refund_allowed p"
    and "blank correlationID \<or> Some correlationID \<notin> r_CorrelationID ` set (l_refunds (ledger w))"
    and "GetGateway (with_libs E) (server_router (with_libs E) api cfg) (p_Gateway p) = Inr g"
    and "validateRefundRequest (with_libs E) req = None"
    and "refund_fits (new_refund p (p_ID p) (fq_Amount req) (fq_Reason req) who correlationID 0 0)"
    and "refunds_fit_columns g" and "\<And>request w0. rr_Success (fst (gw_ProcessRefund g request w0))"
    and "exact_val (fq_Amount req) + exact_val (fq_Amount req) \<le>
      exact_val (p_Amount p) - refunded exact_val (ledger w) (p_ID p)"
    and "fresh_from 8 E w"
  shows "\<exists>x y w'. concurrent (with_libs E) (server_handler (with_libs E) api cfg pg_pool) w
      [Refund_Request (p_ID p) req who correlationID (Refunded (Inr x)),
       Refund_Request (p_ID p) req who correlationID (Refunded (Inr y))] w' \<and>
    l_refunds (ledger w') = l_refunds (ledger w) @
      [keep_refund pg_amount micros x, keep_refund pg_amount micros y] \<and>
    r_CorrelationID x = nullString correlationID \<and> r_CorrelationID y = nullString correlationID \<and>
    r_Status x = RefundStatusCompleted \<and> r_Status y = RefundStatusCompleted"
proof (rule both_refund [OF assms(1) store.server_handler_ok assms(4,2) refl assms(3) _ assms(6-11)])
  show "GetGateway (with_libs E) (svc_router (h_refundService (server_handler (with_libs E) api cfg
      pg_pool))) (p_Gateway p) = Inr g"
    by (simp only: server_handler_router assms(5))
qed

theorem racing_refunds_both_recorded_witness:
  "\<exists>x y w'. concurrent (with_libs sample_env)
      (server_handler (with_libs sample_env) sample_api sample_config pg_pool) sample_world
      [Refund_Request 1 \<lparr>fq_Amount = Exact 3 0, fq_Reason = []\<rparr> [] ''corr-2'' (Refunded (Inr x)),
       Refund_Request 1 \<lparr>fq_Amount = Exact 3 0, fq_Reason = []\<rparr> [] ''corr-2'' (Refunded (Inr y))] w' \<and>
    l_refunds (ledger w') = l_refunds (ledger sample_world) @
      [keep_refund pg_amount micros x, keep_refund pg_amount micros y] \<and>
    r_CorrelationID x = nullString ''corr-2'' \<and> r_CorrelationID y = nullString ''corr-2'' \<and>
    r_Status x = RefundStatusCompleted \<and> r_Status y = RefundStatusCompleted"
  using racing_refunds_both_recorded [OF sample_world_healthy sample_payment_stored sample_payment_open(1)
      _ _ sample_refund_valid _ sample_mock_fits(2) sample_mock_refunds _ sample_fresh_from,
      of "''corr-2''" sample_api sample_config "[]"]
    sample_keys(3) sample_gateway(2) sample_small_refund
  by (simp add: sample_payment_open(2))



text \<open>
  Whatever the server is sent and whichever database calls fail, every row of every table has
  values of its columns' types, and none is missing where the schema demands one.
\<close>

theorem rows_always_typed:
  "list_all (row_ok t) (pg_tables (w_db (snd (run_server E api cfg G rs (fresh_world faults ext)))) t)"
  using conjunct1 [OF run_server_reachable [of E api cfg G rs faults ext]]
  by (auto simp: pg_ok_def tables_ok_def list_all_iff)

end
